(* ===== verification/Go_Prelude.thy ===== *)
theory Go_Prelude
  imports Main "HOL-Library.Word" "HOL-Library.List_Lexorder"
begin

text \<open>
  What the development uses of Go and of its standard library: bytes and machine integers,
  the outcome of a call (a value, a panic, or no return at all), slices with \<open>copy\<close> and
  indexing, \<open>bytes.Compare\<close>, \<open>math/big\<close> conversions, hexadecimal printing, and a generic
  locale for invariants of a transition system.
\<close>

subsection \<open>Types and outcomes\<close>

type_synonym byte = "8 word"
type_synonym bytes = "byte list"
type_synonym uint = "64 word"
type_synonym uint64 = "64 word"

text \<open>
  The outcome of running a Go function: it returns, it panics, or it never returns (it waits for
  a lock that nobody will release, or it loops for ever).
\<close>

datatype 'a go = Ret 'a | Panic string | Hang

fun go_bind :: "'a go \<Rightarrow> ('a \<Rightarrow> 'b go) \<Rightarrow> 'b go" where
  "go_bind (Ret x) f = f x"
| "go_bind (Panic m) f = Panic m"
| "go_bind Hang f = Hang"

fun returns :: "'a go \<Rightarrow> bool" where
  "returns (Ret x) = True"
| "returns (Panic m) = False"
| "returns Hang = False"

subsection \<open>Slices\<close>

text \<open>\<open>copy(dst, src)\<close>: the first \<open>min(len(dst), len(src))\<close> elements are overwritten.\<close>

definition go_copy :: "'a list \<Rightarrow> 'a list \<Rightarrow> 'a list" where
  "go_copy dst src = take (length dst) src @ drop (length src) dst"

text \<open>\<open>xs[i]\<close> and \<open>xs[:n]\<close> with an \<open>int\<close> index: out of range they panic.\<close>

definition go_index :: "'a list \<Rightarrow> int \<Rightarrow> 'a go" where
  "go_index xs i =
     (if 0 \<le> i \<and> i < int (length xs) then Ret (xs ! nat i)
      else Panic ''index out of range'')"

definition go_prefix :: "'a list \<Rightarrow> int \<Rightarrow> 'a list go" where
  "go_prefix xs n =
     (if 0 \<le> n \<and> n \<le> int (length xs) then Ret (take (nat n) xs)
      else Panic ''slice bounds out of range'')"

text \<open>A pointer is an option; following a nil pointer panics.\<close>

definition deref :: "'a option \<Rightarrow> 'a go" where
  "deref p = (case p of None \<Rightarrow> Panic ''nil pointer dereference'' | Some x \<Rightarrow> Ret x)"

subsection \<open>Byte strings\<close>

fun bytes_Compare :: "bytes \<Rightarrow> bytes \<Rightarrow> int" where
  "bytes_Compare [] [] = 0"
| "bytes_Compare [] (y # ys) = -1"
| "bytes_Compare (x # xs) [] = 1"
| "bytes_Compare (x # xs) (y # ys) =
     (if x < y then -1 else if y < x then 1 else bytes_Compare xs ys)"

text \<open>\<open>big.Int.SetBytes\<close> (big endian) and \<open>big.Int.Bytes\<close> (big endian, no leading zero).\<close>

fun big_SetBytes :: "bytes \<Rightarrow> nat" where
  "big_SetBytes [] = 0"
| "big_SetBytes (b # bs) = unat b * 256 ^ length bs + big_SetBytes bs"

fun big_Bytes :: "nat \<Rightarrow> bytes" where
  "big_Bytes n = (if n = 0 then [] else big_Bytes (n div 256) @ [word_of_nat (n mod 256)])"

declare big_Bytes.simps [simp del]

text \<open>\<open>fmt.Sprintf("%x", b)\<close> and \<open>hex.EncodeToString\<close>: two lower case digits per byte.\<close>

definition hex_digit :: "nat \<Rightarrow> char" where
  "hex_digit d = ''0123456789abcdef'' ! d"

fun hex_encode :: "bytes \<Rightarrow> string" where
  "hex_encode [] = []"
| "hex_encode (b # bs) =
     hex_digit (unat b div 16) # hex_digit (unat b mod 16) # hex_encode bs"

subsection \<open>Lemmas on outcomes and slices\<close>

lemma go_bind_Ret_iff [simp]:
  "go_bind m f = Ret y \<longleftrightarrow> (\<exists>x. m = Ret x \<and> f x = Ret y)"
  by (cases m) auto

lemma go_bind_assoc: "go_bind (go_bind m f) g = go_bind m (\<lambda>x. go_bind (f x) g)"
  by (cases m) auto

lemma returns_iff: "returns m \<longleftrightarrow> (\<exists>x. m = Ret x)"
  by (cases m) auto

lemma returns_bind [simp]: "returns (go_bind m f) \<longleftrightarrow> (\<exists>x. m = Ret x \<and> returns (f x))"
  by (cases m) auto

lemma length_go_copy [simp]: "length (go_copy dst src) = length dst"
  by (simp add: go_copy_def)

lemma go_copy_same_length: "length dst = length src \<Longrightarrow> go_copy dst src = src"
  by (simp add: go_copy_def)

lemma nth_go_copy:
  "i < length dst \<Longrightarrow> go_copy dst src ! i = (if i < length src then src ! i else dst ! i)"
  by (auto simp: go_copy_def nth_append min_def)

lemma go_copy_tl: "xs \<noteq> [] \<Longrightarrow> go_copy xs (tl xs) = tl xs @ [last xs]"
  by (cases xs rule: rev_cases) (auto simp: go_copy_def)

lemma go_index_Ret [simp]: "go_index xs i = Ret x \<longleftrightarrow> 0 \<le> i \<and> nat i < length xs \<and> xs ! nat i = x"
  by (auto simp: go_index_def)

lemma go_index_last: "xs \<noteq> [] \<Longrightarrow> go_index xs (int (length xs) - 1) = Ret (last xs)"
  by (cases xs rule: rev_cases) (auto simp: nat_add_distrib)

lemma go_prefix_Ret [simp]:
  "go_prefix xs n = Ret ys \<longleftrightarrow> 0 \<le> n \<and> nat n \<le> length xs \<and> ys = take (nat n) xs"
  by (auto simp: go_prefix_def)

lemma deref_Some [simp]: "deref (Some x) = Ret x"
  by (simp add: deref_def)

lemma deref_Ret [simp]: "deref p = Ret x \<longleftrightarrow> p = Some x"
  by (cases p) (auto simp: deref_def)

subsection \<open>Lemmas on byte strings\<close>

lemma bytes_Compare_range: "bytes_Compare a b \<in> {-1, 0, 1}"
  by (induction a b rule: bytes_Compare.induct) auto

lemma bytes_Compare_less: "bytes_Compare a b = -1 \<longleftrightarrow> a < b"
  by (induction a b rule: bytes_Compare.induct) auto

lemma bytes_Compare_greater: "bytes_Compare a b = 1 \<longleftrightarrow> b < a"
  by (induction a b rule: bytes_Compare.induct) auto

lemma bytes_Compare_eq: "bytes_Compare a b = 0 \<longleftrightarrow> a = b"
  by (induction a b rule: bytes_Compare.induct) auto

lemma bytes_Compare_ge: "0 \<le> bytes_Compare a b \<longleftrightarrow> b \<le> a"
  using bytes_Compare_range [of a b] bytes_Compare_less [of a b]
  by (auto simp: not_less [symmetric])

lemmas bytes_Compare_iffs =
  bytes_Compare_less bytes_Compare_greater bytes_Compare_eq bytes_Compare_ge

lemma unat_byte_less: "unat (b :: byte) < 256"
  using unsigned_less [of b] by simp

lemma big_SetBytes_bound: "big_SetBytes bs < 256 ^ length bs"
proof (induction bs)
  case (Cons b bs)
  have "unat b \<le> 255"
    using unat_byte_less [of b] by simp
  then have "unat b * 256 ^ length bs \<le> 255 * 256 ^ length bs"
    by (rule mult_le_mono1)
  with Cons.IH have "unat b * 256 ^ length bs + big_SetBytes bs < 256 * 256 ^ length bs"
    by linarith
  then show ?case by simp
qed simp

lemma big_SetBytes_append:
  "big_SetBytes (xs @ ys) = big_SetBytes xs * 256 ^ length ys + big_SetBytes ys"
  by (induction xs) (auto simp: power_add algebra_simps)

lemma big_SetBytes_less_iff:
  "length a = length b \<Longrightarrow> big_SetBytes a < big_SetBytes b \<longleftrightarrow> a < b"
proof (induction a b rule: list_induct2)
  case (Cons x xs y ys)
  let ?p = "256 ^ length ys :: nat"
  have bx: "big_SetBytes xs < ?p"
    using big_SetBytes_bound [of xs] Cons.hyps by simp
  have bys: "big_SetBytes ys < ?p"
    by (rule big_SetBytes_bound)
  show ?case
  proof (cases "x = y")
    case True
    with Cons show ?thesis by simp
  next
    case False
    then consider "x < y" | "y < x" by fastforce
    then show ?thesis
    proof cases
      case 1
      then have "Suc (unat x) * ?p \<le> unat y * ?p"
        by (intro mult_le_mono1) (simp add: word_less_nat_alt Suc_le_eq)
      with 1 bx Cons.hyps show ?thesis by simp
    next
      case 2
      then have "Suc (unat y) * ?p \<le> unat x * ?p"
        by (intro mult_le_mono1) (simp add: word_less_nat_alt Suc_le_eq)
      with 2 bys Cons.hyps show ?thesis by auto
    qed
  qed
qed simp

lemma big_SetBytes_eq_iff:
  "length a = length b \<Longrightarrow> big_SetBytes a = big_SetBytes b \<longleftrightarrow> a = b"
  using big_SetBytes_less_iff [of a b] big_SetBytes_less_iff [of b a]
  by (metis less_irrefl linorder_neqE)

lemma big_SetBytes_le_iff:
  "length a = length b \<Longrightarrow> big_SetBytes a \<le> big_SetBytes b \<longleftrightarrow> a \<le> b"
  using big_SetBytes_less_iff [of b a] by (simp add: not_less [symmetric])

lemma unat_word_of_nat_mod_256: "unat (word_of_nat (n mod 256) :: byte) = n mod 256"
  by (simp add: unat_of_nat)

lemma big_SetBytes_Bytes [simp]: "big_SetBytes (big_Bytes n) = n"
proof (induction n rule: big_Bytes.induct)
  case (1 n)
  show ?case
  proof (cases "n = 0")
    case False
    with 1 have "big_SetBytes (big_Bytes (n div 256)) = n div 256" by simp
    with False show ?thesis
      by (subst big_Bytes.simps) (simp add: big_SetBytes_append unat_of_nat)
  qed (simp add: big_Bytes.simps)
qed

lemma length_big_Bytes: "n < 256 ^ k \<Longrightarrow> length (big_Bytes n) \<le> k"
proof (induction k arbitrary: n)
  case (Suc k)
  then have "n div 256 < 256 ^ k"
    by (simp add: less_mult_imp_div_less mult.commute)
  from Suc.IH [OF this] show ?case by (subst big_Bytes.simps) simp
qed (simp add: big_Bytes.simps)

lemma length_big_Bytes_ge:
  assumes "256 ^ k \<le> n"
  shows "k < length (big_Bytes n)"
proof (rule ccontr)
  assume "\<not> k < length (big_Bytes n)"
  then have "(256::nat) ^ length (big_Bytes n) \<le> 256 ^ k"
    by (intro power_increasing) auto
  with assms big_SetBytes_bound [of "big_Bytes n"] show False by simp
qed

lemma hex_digit_inj: "a < 16 \<Longrightarrow> b < 16 \<Longrightarrow> hex_digit a = hex_digit b \<longleftrightarrow> a = b"
proof -
  have "distinct ''0123456789abcdef''" by code_simp
  then show "a < 16 \<Longrightarrow> b < 16 \<Longrightarrow> hex_digit a = hex_digit b \<longleftrightarrow> a = b"
    unfolding hex_digit_def by (subst nth_eq_iff_index_eq) simp_all
qed

lemma hex_byte_inj:
  "hex_digit (unat x div 16) = hex_digit (unat y div 16) \<Longrightarrow>
   hex_digit (unat x mod 16) = hex_digit (unat y mod 16) \<Longrightarrow> (x :: byte) = y"
proof -
  assume d: "hex_digit (unat x div 16) = hex_digit (unat y div 16)"
    and m: "hex_digit (unat x mod 16) = hex_digit (unat y mod 16)"
  have "unat x div 16 < 16" "unat y div 16 < 16"
    using unat_byte_less [of x] unat_byte_less [of y] by auto
  with d have "unat x div 16 = unat y div 16" by (simp add: hex_digit_inj)
  moreover from m have "unat x mod 16 = unat y mod 16" by (simp add: hex_digit_inj)
  ultimately have "unat x = unat y" by (metis div_mult_mod_eq)
  then show "x = y" by (simp add: word_unat_eq_iff)
qed

lemma hex_encode_inj [simp]: "hex_encode a = hex_encode b \<longleftrightarrow> a = b"
proof (induction a arbitrary: b)
  case Nil
  show ?case by (cases b) auto
next
  case (Cons x xs)
  show ?case by (cases b) (auto simp: Cons.IH dest: hex_byte_inj)
qed

lemma length_hex_encode [simp]: "length (hex_encode bs) = 2 * length bs"
  by (induction bs) auto

lemma word_less_Suc:
  assumes "c \<noteq> - 1"
  shows "c < c + (1 :: 'a::len word)"
proof -
  have "c + 1 \<noteq> 0" using assms by (metis add_eq_0_iff add.commute)
  then have "unat (c + 1) = unat c + 1" using unatSuc[of c] by (simp add: add.commute)
  then show ?thesis by (simp add: word_less_nat_alt)
qed

subsection \<open>Invariants of a transition system\<close>

text \<open>
  The states a component can reach from its initial states by its steps. A component supplies its
  initial states, its step relation and an invariant; the locale gives the invariant of every
  reachable state and of every state on a run.
\<close>

inductive reachable :: "('s \<Rightarrow> bool) \<Rightarrow> ('s \<Rightarrow> 's \<Rightarrow> bool) \<Rightarrow> 's \<Rightarrow> bool"
  for init :: "'s \<Rightarrow> bool" and step :: "'s \<Rightarrow> 's \<Rightarrow> bool" where
  reachable_init: "init s \<Longrightarrow> reachable init step s"
| reachable_step: "reachable init step s \<Longrightarrow> step s t \<Longrightarrow> reachable init step t"

locale invariant_system =
  fixes init :: "'s \<Rightarrow> bool"
    and step :: "'s \<Rightarrow> 's \<Rightarrow> bool"
    and inv :: "'s \<Rightarrow> bool"
  assumes inv_init: "init s \<Longrightarrow> inv s"
    and inv_step: "inv s \<Longrightarrow> step s t \<Longrightarrow> inv t"
begin

lemma reachable_inv: "reachable init step s \<Longrightarrow> inv s"
  by (induction rule: reachable.induct) (auto intro: inv_init inv_step)

lemma inv_rtranclp: "step\<^sup>*\<^sup>* s t \<Longrightarrow> inv s \<Longrightarrow> inv t"
  by (induction rule: rtranclp_induct) (auto intro: inv_step)

end

end
