(* ===== verification/Errors.thy ===== *)
theory Errors
  imports Go_Prelude
begin

text \<open>
  \<open>errors.go\<close> and \<open>mergeErrors\<close> of \<open>util.go\<close>: the error values of the program, their
  classification into retryable and permanent ones, and the part of \<open>fmt.Sprintf\<close> their texts
  use. A Go \<open>error\<close> is a \<open>go_error option\<close>, with \<open>None\<close> for nil.
\<close>

subsection \<open>Texts\<close>

text \<open>
  An operand of a formatting call. \<open>FSlice\<close> is a \<open>[]interface{}\<close>, which is what
  \<open>PermanentError\<close> and \<open>TransientError\<close> hand to \<open>fmt.Sprintf\<close> as one operand.
\<close>

datatype fmt_arg = FStr string | FInt int | FErr string | FSlice "fmt_arg list"

fun decimal_nat :: "nat \<Rightarrow> string" where
  "decimal_nat n =
     (if n < 10 then [hex_digit n] else decimal_nat (n div 10) @ [hex_digit (n mod 10)])"

declare decimal_nat.simps [simp del]

definition decimal :: "int \<Rightarrow> string" where
  "decimal i = (if i < 0 then CHR ''-'' # decimal_nat (nat (- i)) else decimal_nat (nat i))"

fun join_with :: "string \<Rightarrow> string list \<Rightarrow> string" where
  "join_with sep [] = []"
| "join_with sep [x] = x"
| "join_with sep (x # y # ys) = x @ sep @ join_with sep (y # ys)"

text \<open>\<open>strconv.Quote\<close> on printable text: quotes and backslashes are escaped, as are newlines and tabs.\<close>

fun quote_char :: "char \<Rightarrow> string" where
  "quote_char c =
     (if c = CHR 0x22 then [CHR 0x5C, CHR 0x22]
      else if c = CHR 0x5C then [CHR 0x5C, CHR 0x5C]
      else if c = CHR 0x0A then [CHR 0x5C, CHR ''n'']
      else if c = CHR 0x09 then [CHR 0x5C, CHR ''t'']
      else [c])"

definition quote :: "string \<Rightarrow> string" where
  "quote s = CHR 0x22 # concat (map quote_char s) @ [CHR 0x22]"

text \<open>The verbs \<open>%v\<close>, \<open>%s\<close> and \<open>%q\<close>; another verb prints Go's complaint.\<close>

fun fmt_v :: "fmt_arg \<Rightarrow> string" where
  "fmt_v (FStr s) = s"
| "fmt_v (FInt i) = decimal i"
| "fmt_v (FErr s) = s"
| "fmt_v (FSlice xs) = ''['' @ join_with '' '' (map fmt_v xs) @ '']''"

fun fmt_type :: "fmt_arg \<Rightarrow> string" where
  "fmt_type (FStr s) = ''string''"
| "fmt_type (FInt i) = ''int''"
| "fmt_type (FErr s) = ''*errors.errorString''"
| "fmt_type (FSlice xs) = ''[]interface {}''"

definition fmt_typed :: "fmt_arg \<Rightarrow> string" where
  "fmt_typed a = fmt_type a @ ''='' @ fmt_v a"

fun fmt_verb :: "char \<Rightarrow> fmt_arg \<Rightarrow> string" where
  "fmt_verb c (FSlice xs) = ''['' @ join_with '' '' (map (fmt_verb c) xs) @ '']''"
| "fmt_verb c (FStr s) =
     (if c = CHR ''s'' \<or> c = CHR ''v'' then s else if c = CHR ''q'' then quote s
      else ''%!'' @ [c] @ ''('' @ fmt_typed (FStr s) @ '')'')"
| "fmt_verb c (FErr s) =
     (if c = CHR ''s'' \<or> c = CHR ''v'' then s else if c = CHR ''q'' then quote s
      else ''%!'' @ [c] @ ''('' @ fmt_typed (FErr s) @ '')'')"
| "fmt_verb c (FInt i) =
     (if c = CHR ''d'' \<or> c = CHR ''v'' then decimal i
      else ''%!'' @ [c] @ ''('' @ fmt_typed (FInt i) @ '')'')"

text \<open>
  \<open>fmt.Sprintf\<close>: operands left over are reported after the text, missing ones in their place.
\<close>

function sprintf :: "string \<Rightarrow> fmt_arg list \<Rightarrow> string" where
  "sprintf [] args =
     (if args = [] then []
      else ''%!(EXTRA '' @ join_with '', '' (map fmt_typed args) @ '')'')"
| "sprintf (f # fs) args =
     (if f = CHR ''%'' then
        (case fs of
           [] \<Rightarrow> ''%!(NOVERB)'' @ sprintf [] args
         | c # fs' \<Rightarrow>
             if c = CHR ''%'' then c # sprintf fs' args
             else (case args of
                     [] \<Rightarrow> ''%!'' @ [c] @ ''(MISSING)'' @ sprintf fs' []
                   | a # args' \<Rightarrow> fmt_verb c a @ sprintf fs' args'))
      else f # sprintf fs args)"
  by pat_completeness auto
termination
  by (relation "measure (\<lambda>(f, args). length f)") auto

definition strings_Contains :: "string \<Rightarrow> string \<Rightarrow> bool" where
  "strings_Contains s sub = list_ex (\<lambda>i. take (length sub) (drop i s) = sub) [0..<Suc (length s)]"

subsection \<open>Error values\<close>

record BuddyStoreError =
  Err :: string
  Transient :: bool

text \<open>The dynamic types behind \<open>error\<close>: the program's own one and a plain text (\<open>fmt.Errorf\<close>).\<close>

datatype go_error = BSE BuddyStoreError | StringError string

definition PermanentError :: "string \<Rightarrow> fmt_arg list \<Rightarrow> BuddyStoreError" where
  "PermanentError str args = \<lparr>Err = sprintf str [FSlice args], Transient = False\<rparr>"

definition TransientError :: "string \<Rightarrow> fmt_arg list \<Rightarrow> BuddyStoreError" where
  "TransientError str args = \<lparr>Err = sprintf str [FSlice args], Transient = True\<rparr>"

definition fmt_Errorf :: "string \<Rightarrow> fmt_arg list \<Rightarrow> go_error" where
  "fmt_Errorf str args = StringError (sprintf str args)"

definition Temporary :: "BuddyStoreError \<Rightarrow> bool" where
  "Temporary bse = Transient bse"

definition Timeout :: "BuddyStoreError \<Rightarrow> bool" where
  "Timeout bse = False"

fun error_text :: "go_error \<Rightarrow> string" where
  "error_text (BSE bse) = Err bse"
| "error_text (StringError s) = s"

definition isRetryable :: "go_error option \<Rightarrow> bool" where
  "isRetryable err =
     (case err of
        None \<Rightarrow> False
      | Some e \<Rightarrow>
          (if (case e of BSE nerr \<Rightarrow> Temporary nerr | StringError s \<Rightarrow> False) then True
           else strings_Contains (error_text e) ''[Retryable]''))"

definition mergeErrors :: "go_error option \<Rightarrow> go_error option \<Rightarrow> go_error option" where
  "mergeErrors err1 err2 =
     (case err1 of
        None \<Rightarrow> err2
      | Some e1 \<Rightarrow>
          (case err2 of
             None \<Rightarrow> err1
           | Some e2 \<Rightarrow>
               Some (fmt_Errorf (''%s'' @ [CHR 0x0A] @ ''%s'')
                       [FErr (error_text e1), FErr (error_text e2)])))"

subsection \<open>Lemmas\<close>

definition no_verbs :: "string \<Rightarrow> bool" where
  "no_verbs s \<longleftrightarrow> CHR ''%'' \<notin> set s"

lemma no_verbs_simps [simp]:
  "no_verbs []" "no_verbs (c # s) \<longleftrightarrow> c \<noteq> CHR ''%'' \<and> no_verbs s"
  by (auto simp: no_verbs_def)

lemma sprintf_no_verbs: "no_verbs s \<Longrightarrow> sprintf s args = s @ sprintf [] args"
  by (induction s) auto

lemma strings_Contains_iff: "strings_Contains s sub \<longleftrightarrow> (\<exists>xs ys. s = xs @ sub @ ys)"
proof
  assume "strings_Contains s sub"
  then obtain i where i: "i < Suc (length s)" "take (length sub) (drop i s) = sub"
    unfolding strings_Contains_def list_ex_iff set_upt by auto
  then have "s = take i s @ sub @ drop (length sub) (drop i s)"
    by (metis append_take_drop_id)
  then show "\<exists>xs ys. s = xs @ sub @ ys" by blast
next
  assume "\<exists>xs ys. s = xs @ sub @ ys"
  then obtain xs ys where s: "s = xs @ sub @ ys" by blast
  then have "take (length sub) (drop (length xs) s) = sub" and "length xs < Suc (length s)"
    by auto
  then show "strings_Contains s sub"
    unfolding strings_Contains_def list_ex_iff set_upt by auto
qed

lemma strings_Contains_append: "strings_Contains s sub \<Longrightarrow> strings_Contains (s @ t) sub"
  unfolding strings_Contains_iff by (metis append_assoc)

lemma isRetryable_simps [simp]:
  "\<not> isRetryable None"
  "isRetryable (Some (BSE b)) \<longleftrightarrow> Transient b \<or> strings_Contains (Err b) ''[Retryable]''"
  "isRetryable (Some (StringError s)) \<longleftrightarrow> strings_Contains s ''[Retryable]''"
  by (auto simp: isRetryable_def Temporary_def)

lemma TransientError_retryable [simp]: "isRetryable (Some (BSE (TransientError str args)))"
  by (simp add: TransientError_def)

lemma mergeErrors_None [simp]: "mergeErrors None e = e" "mergeErrors e None = e"
  by (auto simp: mergeErrors_def split: option.splits)

lemma mergeErrors_None_iff: "mergeErrors e1 e2 = None \<longleftrightarrow> e1 = None \<and> e2 = None"
  by (auto simp: mergeErrors_def split: option.splits)

lemma mergeErrors_text:
  "mergeErrors (Some e1) (Some e2) =
     Some (StringError (error_text e1 @ [CHR 0x0A] @ error_text e2))"
  by (simp add: mergeErrors_def fmt_Errorf_def)

lemma PermanentError_no_args_text:
  "no_verbs s \<Longrightarrow> Err (PermanentError s []) = s @ ''%!(EXTRA []interface {}=[])''"
  by (simp add: PermanentError_def sprintf_no_verbs fmt_typed_def)

end
