(* ===== verification/Ring_Arith.thy ===== *)
theory Ring_Arith
  imports Errors
begin

text \<open>
  The identifier arithmetic of \<open>util.go\<close> and \<open>iter_closest.go\<close>: ring intervals on byte strings,
  finger offsets, the clockwise distance, and the choice of the closest preceding node.
  The locale \<open>ring_metric\<close> states what a clockwise distance promises; the routing lemmas are
  proved from it once and reach the code through its interpretation on \<open>distance\<close>.
\<close>

subsection \<open>Definitions\<close>

record Vnode =
  Id :: bytes
  Host :: string

definition String :: "Vnode \<Rightarrow> string" where
  "String vn = hex_encode (Id vn)"

definition between :: "bytes \<Rightarrow> bytes \<Rightarrow> bytes \<Rightarrow> bool" where
  "between id1 id2 key =
     (if bytes_Compare id1 id2 = 1
      then bytes_Compare id1 key = -1 \<or> bytes_Compare id2 key = 1
      else bytes_Compare id1 key = -1 \<and> bytes_Compare id2 key = 1)"

definition betweenRightIncl :: "bytes \<Rightarrow> bytes \<Rightarrow> bytes \<Rightarrow> bool" where
  "betweenRightIncl id1 id2 key =
     (if bytes_Compare id1 id2 = 1
      then bytes_Compare id1 key = -1 \<or> bytes_Compare id2 key \<ge> 0
      else bytes_Compare id1 key = -1 \<and> bytes_Compare id2 key \<ge> 0)"

text \<open>\<open>big.Int.Exp\<close> with a nil modulus gives 1 for a negative exponent, as \<open>nat\<close> does here.\<close>

definition powerOffset :: "bytes \<Rightarrow> int \<Rightarrow> int \<Rightarrow> bytes" where
  "powerOffset ident exp md =
     (let idInt = big_SetBytes ident;
          offset = 2 ^ nat exp;
          sum = idInt + offset;
          ceil = 2 ^ nat md
      in big_Bytes (sum mod ceil))"

definition go_max :: "int \<Rightarrow> int \<Rightarrow> int" where
  "go_max a b = (if a \<ge> b then a else b)"

definition go_min :: "int \<Rightarrow> int \<Rightarrow> int" where
  "go_min a b = (if a \<le> b then a else b)"

definition distance :: "bytes \<Rightarrow> bytes \<Rightarrow> int \<Rightarrow> int" where
  "distance a b bits = (int (big_SetBytes b) - int (big_SetBytes a)) mod 2 ^ nat bits"

definition closest_preceeding_vnode :: "Vnode \<Rightarrow> Vnode \<Rightarrow> bytes \<Rightarrow> int \<Rightarrow> Vnode" where
  "closest_preceeding_vnode a b key bits =
     (let a_dist = distance (Id a) key bits; b_dist = distance (Id b) key bits
      in if a_dist \<le> b_dist then a else b)"

text \<open>The loop of \<open>nearestVnodeToKey\<close> and of \<open>Ring.nearestVnode\<close>, from the last element down.\<close>

fun nearest_scan :: "Vnode option list \<Rightarrow> bytes \<Rightarrow> Vnode option go" where
  "nearest_scan [] key = Ret None"
| "nearest_scan (p # ps) key =
     go_bind (deref p) (\<lambda>v.
       if bytes_Compare (Id v) key = -1 then Ret (Some v) else nearest_scan ps key)"

definition nearestVnodeToKey :: "Vnode option list \<Rightarrow> bytes \<Rightarrow> Vnode option go" where
  "nearestVnodeToKey vnodes key =
     go_bind (nearest_scan (rev vnodes) key) (\<lambda>r.
       case r of
         Some v \<Rightarrow> Ret (Some v)
       | None \<Rightarrow> go_index vnodes (int (length vnodes) - 1))"

definition copyOfVnodesList :: "Vnode option list \<Rightarrow> int \<Rightarrow> Vnode option list go" where
  "copyOfVnodesList inList n =
     go_bind (go_prefix inList n) (\<lambda>src. Ret (go_copy (replicate (nat n) None) src))"

subsection \<open>The contract of a clockwise distance\<close>

locale ring_metric =
  fixes node :: "'a \<Rightarrow> bool"
    and dist :: "'a \<Rightarrow> 'a \<Rightarrow> int"
    and size_ring :: int
  assumes dist_nonneg: "node a \<Longrightarrow> node b \<Longrightarrow> 0 \<le> dist a b"
    and dist_bound: "node a \<Longrightarrow> node b \<Longrightarrow> dist a b < size_ring"
    and dist_zero: "node a \<Longrightarrow> node b \<Longrightarrow> dist a b = 0 \<longleftrightarrow> a = b"
    and dist_add: "node a \<Longrightarrow> node b \<Longrightarrow> node c \<Longrightarrow>
      dist a c = (dist a b + dist b c) mod size_ring"
begin

lemma dist_add_cases:
  assumes "node a" "node b" "node c"
  shows "dist a c = dist a b + dist b c \<or> dist a c = dist a b + dist b c - size_ring"
proof -
  have b: "0 \<le> dist a b" "dist a b < size_ring" "0 \<le> dist b c" "dist b c < size_ring"
    using assms by (auto intro: dist_nonneg dist_bound)
  show ?thesis
  proof (cases "dist a b + dist b c < size_ring")
    case True
    with b dist_add [OF assms] show ?thesis by simp
  next
    case False
    have "(dist a b + dist b c) mod size_ring = (dist a b + dist b c - size_ring) mod size_ring"
      by simp
    also have "\<dots> = dist a b + dist b c - size_ring"
      using b False by (intro mod_pos_pos_trivial) linarith+
    finally have "(dist a b + dist b c) mod size_ring = dist a b + dist b c - size_ring" .
    with dist_add [OF assms] show ?thesis by simp
  qed
qed

text \<open>A point on the way from \<open>a\<close> to \<open>c\<close> splits the distance.\<close>

lemma dist_split:
  assumes n: "node a" "node b" "node c" and "dist a b \<le> dist a c"
  shows "dist a c = dist a b + dist b c"
  using dist_add_cases [OF n] assms(4) dist_bound [OF n(2,3)] by auto

lemma dist_self [simp]: "node a \<Longrightarrow> dist a a = 0"
  by (simp add: dist_zero)

lemma dist_pos: "node a \<Longrightarrow> node b \<Longrightarrow> a \<noteq> b \<Longrightarrow> 0 < dist a b"
  using dist_nonneg [of a b] dist_zero [of a b] by auto

lemma dist_back: "node a \<Longrightarrow> node b \<Longrightarrow> a \<noteq> b \<Longrightarrow> dist b a = size_ring - dist a b"
  using dist_add_cases [of a b a] dist_pos [of a b] dist_nonneg [of b a] by auto

text \<open>A hop to a node strictly between the current node and the key comes closer to the key.\<close>

lemma hop_decreases:
  assumes "node a" "node x" "node k" and "0 < dist a x" "dist a x < dist a k"
  shows "dist x k < dist a k" "0 < dist x k"
  using dist_split [OF assms(1-3)] assms(4,5) by auto

text \<open>
  The owner of a key among a set of nodes is the node the clockwise walk from the key meets first.
\<close>

definition owner :: "'a set \<Rightarrow> 'a \<Rightarrow> 'a \<Rightarrow> bool" where
  "owner S k s \<longleftrightarrow> s \<in> S \<and> (\<forall>n \<in> S. dist k s \<le> dist k n)"

lemma owner_unique:
  assumes "\<And>n. n \<in> S \<Longrightarrow> node n" "node k" "owner S k s" "owner S k t"
  shows "s = t"
proof -
  have "s \<in> S" "t \<in> S" "dist k s = dist k t"
    using assms(3,4) by (auto simp: owner_def order_antisym)
  moreover have "dist k t = dist k s \<Longrightarrow> dist s t = 0"
    using dist_split [of k s t] \<open>s \<in> S\<close> \<open>t \<in> S\<close> assms(1,2) by simp
  ultimately show ?thesis
    using assms(1) dist_zero by auto
qed

text \<open>
  The key lies between \<open>a\<close> and \<open>s\<close>, and no node other than \<open>a\<close> lies from the key on before \<open>s\<close>:
  then \<open>s\<close> owns the key.
\<close>

lemma first_after_owner:
  assumes S: "\<And>n. n \<in> S \<Longrightarrow> node n" and a: "node a" and k: "node k" and sS: "s \<in> S"
    and btw: "0 < dist a k" "dist a k \<le> dist a s"
    and first: "\<And>n. n \<in> S \<Longrightarrow> n \<noteq> a \<Longrightarrow> dist a k \<le> dist a n \<Longrightarrow> dist a s \<le> dist a n"
  shows "owner S k s"
proof -
  have s: "node s" using S sS .
  have split: "dist a s = dist a k + dist k s"
    using dist_split [OF a k s] btw by simp
  have "dist k s \<le> dist k n" if n: "n \<in> S" for n
  proof (cases "n = a \<or> dist a n < dist a k")
    case True
    with dist_add_cases [OF a k S [OF n]] dist_nonneg [OF a S [OF n]] dist_nonneg [OF k S [OF n]]
      dist_self [OF a] btw(1)
    have "size_ring - dist a k \<le> dist k n" by auto
    with split dist_bound [OF a s] show ?thesis by linarith
  next
    case False
    with first [OF n] have "dist a s \<le> dist a n" by simp
    with dist_split [OF a k S [OF n]] split btw show ?thesis by simp
  qed
  with sS show ?thesis by (auto simp: owner_def)
qed

end

subsection \<open>The code's distance satisfies the contract\<close>

lemma pow2_8: "2 ^ nat (int (8 * L)) = (256 ^ L :: int)"
  by (simp add: power_mult nat_mult_distrib)

lemma distance_len:
  "distance a b (int (8 * L)) = (int (big_SetBytes b) - int (big_SetBytes a)) mod 256 ^ L"
  unfolding distance_def pow2_8 ..

lemma big_SetBytes_int_bound: "length a = L \<Longrightarrow> int (big_SetBytes a) < 256 ^ L"
  using big_SetBytes_bound [of a] by (metis of_nat_less_iff of_nat_numeral of_nat_power)

lemma distance_le:
  assumes "length a = L" "length b = L" "a \<le> b"
  shows "distance a b (int (8 * L)) = int (big_SetBytes b) - int (big_SetBytes a)"
proof -
  have "big_SetBytes a \<le> big_SetBytes b"
    using assms by (simp add: big_SetBytes_le_iff)
  then show ?thesis
    unfolding distance_len using big_SetBytes_int_bound [OF assms(2)]
    by (intro mod_pos_pos_trivial) linarith+
qed

lemma distance_gt:
  assumes "length a = L" "length b = L" "b < a"
  shows "distance a b (int (8 * L)) = int (big_SetBytes b) - int (big_SetBytes a) + 256 ^ L"
proof -
  have lt: "big_SetBytes b < big_SetBytes a"
    using assms by (simp add: big_SetBytes_less_iff)
  have "(int (big_SetBytes b) - int (big_SetBytes a)) mod 256 ^ L
      = (int (big_SetBytes b) - int (big_SetBytes a) + 256 ^ L) mod 256 ^ L"
    by simp
  also have "\<dots> = int (big_SetBytes b) - int (big_SetBytes a) + 256 ^ L"
    using lt big_SetBytes_int_bound [OF assms(1)] by (intro mod_pos_pos_trivial) linarith+
  finally show ?thesis unfolding distance_len .
qed

interpretation id_ring: ring_metric
  "\<lambda>x. length x = L" "\<lambda>a b. distance a b (int (8 * L))" "256 ^ L" for L
proof (unfold_locales, goal_cases)
  case (1 a b)
  show ?case unfolding distance_len by simp
next
  case (2 a b)
  show ?case unfolding distance_len by simp
next
  case (3 a b)
  show ?case
  proof (cases "a \<le> b")
    case True
    with 3 distance_le [of a L b] show ?thesis
      using big_SetBytes_eq_iff [of a b] by auto
  next
    case False
    then have "b < a" by simp
    then have "0 < distance a b (int (8 * L))"
      using 3 distance_gt [of a L b] big_SetBytes_int_bound [of a L] by linarith
    with False show ?thesis by auto
  qed
next
  case (4 a b c)
  show ?case unfolding distance_len by (simp add: mod_add_eq)
qed

text \<open>The interval tests of the code, on identifiers of one length, as distances.\<close>

lemma between_iff: "between a b k \<longleftrightarrow> (if b < a then a < k \<or> k < b else a < k \<and> k < b)"
  by (simp add: between_def bytes_Compare_iffs)

lemma betweenRightIncl_iff:
  "betweenRightIncl a b k \<longleftrightarrow> (if b < a then a < k \<or> k \<le> b else a < k \<and> k \<le> b)"
  by (simp add: betweenRightIncl_def bytes_Compare_iffs)

lemma distance_if:
  assumes "length a = L" "length b = L"
  shows "distance a b (int (8 * L)) = (if int (big_SetBytes a) \<le> int (big_SetBytes b)
     then int (big_SetBytes b) - int (big_SetBytes a)
     else int (big_SetBytes b) - int (big_SetBytes a) + 256 ^ L)"
  using distance_le [OF assms] distance_gt [OF assms] assms
  by (auto simp: big_SetBytes_le_iff)

lemma offset_cmp:
  fixes A B K N :: int
  assumes "0 \<le> A" "A < N" "0 \<le> B" "B < N" "0 \<le> K" "K < N"
  shows "(if A \<le> K then K - A else K - A + N) < (if A \<le> B then B - A else B - A + N)
    \<longleftrightarrow> (if B < A then A \<le> K \<or> K < B else A \<le> K \<and> K < B)"
  using assms by (auto split: if_splits)

lemma distance_cmp:
  assumes L: "length a = L" "length b = L" "length k = L"
  shows "distance a k (int (8 * L)) < distance a b (int (8 * L)) \<longleftrightarrow>
    (if b < a then a \<le> k \<or> k < b else a \<le> k \<and> k < b)"
proof -
  have "int (big_SetBytes x) < int (big_SetBytes y) \<longleftrightarrow> x < y"
    "int (big_SetBytes x) \<le> int (big_SetBytes y) \<longleftrightarrow> x \<le> y"
    if "length x = L" "length y = L" for x y :: bytes
    using that by (simp_all add: big_SetBytes_less_iff big_SetBytes_le_iff)
  note ord = this
  show ?thesis
    unfolding distance_if [OF L(1,3)] distance_if [OF L(1,2)]
    by (subst offset_cmp) (simp_all only: ord L big_SetBytes_int_bound of_nat_0_le_iff)
qed

lemma between_distance:
  assumes "length a = L" "length b = L" "length k = L"
  shows "between a b k \<longleftrightarrow>
    0 < distance a k (int (8 * L)) \<and> distance a k (int (8 * L)) < distance a b (int (8 * L))"
  using distance_cmp [OF assms] id_ring.dist_pos [of a L k] id_ring.dist_self [of a L] assms
  by (cases "a = k") (auto simp: between_iff)

lemma betweenRightIncl_distance:
  assumes "length a = L" "length b = L" "length k = L"
  shows "betweenRightIncl a b k \<longleftrightarrow>
    0 < distance a k (int (8 * L)) \<and> distance a k (int (8 * L)) \<le> distance a b (int (8 * L))"
proof -
  have "betweenRightIncl a b k \<longleftrightarrow> a \<noteq> k \<and> (between a b k \<or> (k = b))"
    by (auto simp: between_iff betweenRightIncl_iff)
  moreover have "distance a k (int (8 * L)) = distance a b (int (8 * L)) \<longleftrightarrow> k = b"
    using distance_cmp [OF assms] distance_cmp [OF assms(1,3,2)]
    by (auto split: if_splits)
  moreover have "0 < distance a k (int (8 * L)) \<longleftrightarrow> a \<noteq> k"
    using id_ring.dist_pos [of a L k] id_ring.dist_self [of a L] assms by auto
  ultimately show ?thesis
    using between_distance [OF assms] by auto
qed

end
