(* ===== verification/Vnode_State.thy ===== *)
theory Vnode_State
  imports Ring_Arith
begin

text \<open>
  The data of \<open>chord.go\<close> that the ring protocol works on: the configuration, a local vnode and its
  accessors, and \<open>knownSuccessors\<close> of \<open>vnode.go\<close>. Pointers to vnodes are options, \<open>nil\<close> is
  \<open>None\<close>. The hash function of a configuration is a field, so every definition takes it as a
  parameter; the mutexes are not state here, a call to an operation is one atomic step.
\<close>

record Config =
  Hostname :: string
  NumVnodes :: int
  HashFunc :: "bytes \<Rightarrow> bytes"
  HashSize :: int
  StabilizeMin :: int
  StabilizeMax :: int
  NumSuccessors :: int
  HasDelegate :: bool
  hashBits :: int
  RingId :: string

record localVnode = Vnode +
  successors :: "Vnode option list"
  predecessors :: "Vnode option list"
  finger :: "Vnode option list"
  last_finger :: int
  predecessor :: "Vnode option"
  stabilized :: int
  timer :: bool

text \<open>\<open>&vn.Vnode\<close>, the embedded identity of a local vnode.\<close>

definition GetVnode :: "localVnode \<Rightarrow> Vnode" where
  "GetVnode lvn = \<lparr>Id = Id lvn, Host = Host lvn\<rparr>"

definition localVnodeId :: "localVnode \<Rightarrow> bytes" where
  "localVnodeId lvn = Id lvn"

definition Predecessor :: "localVnode \<Rightarrow> Vnode option" where
  "Predecessor lvn = predecessor lvn"

definition CopyOfSuccessors :: "localVnode \<Rightarrow> Vnode option list go" where
  "CopyOfSuccessors lvn = copyOfVnodesList (successors lvn) (int (length (successors lvn)))"

text \<open>The index after the last non-nil successor: the loop runs over the whole slice.\<close>

fun known_loop :: "Vnode option list \<Rightarrow> nat \<Rightarrow> int \<Rightarrow> int" where
  "known_loop [] i acc = acc"
| "known_loop (s # ss) i acc = known_loop ss (Suc i) (if s \<noteq> None then int i + 1 else acc)"

definition knownSuccessors :: "localVnode \<Rightarrow> int" where
  "knownSuccessors vn = known_loop (successors vn) 0 0"

text \<open>\<open>DefaultConfig\<close>; SHA-1 is a parameter with its 20 byte result.\<close>

definition DefaultConfig :: "(bytes \<Rightarrow> bytes) \<Rightarrow> string \<Rightarrow> Config" where
  "DefaultConfig sha1 hostname =
     \<lparr>Hostname = hostname, NumVnodes = 8, HashFunc = sha1, HashSize = 20,
      StabilizeMin = 5 * 1000000000, StabilizeMax = 15 * 1000000000, NumSuccessors = 8,
      HasDelegate = False, hashBits = 160, RingId = []\<rparr>"

subsection \<open>Lemmas\<close>

text \<open>A successor list without holes: the known successors come first, then only nil.\<close>

definition no_holes :: "'a option list \<Rightarrow> bool" where
  "no_holes ss \<longleftrightarrow> (\<forall>i j. i \<le> j \<longrightarrow> j < length ss \<longrightarrow> ss ! j \<noteq> None \<longrightarrow> ss ! i \<noteq> None)"

lemma no_holes_simps [simp]:
  "no_holes []"
  "no_holes (Some s # ss) \<longleftrightarrow> no_holes ss"
  "no_holes (None # ss) \<longleftrightarrow> set ss \<subseteq> {None}"
proof -
  show "no_holes (Some s # ss) \<longleftrightarrow> no_holes ss"
  proof
    assume "no_holes (Some s # ss)"
    then show "no_holes ss"
      unfolding no_holes_def by (metis Suc_le_mono Suc_less_eq length_Cons nth_Cons_Suc)
  next
    assume h: "no_holes ss"
    show "no_holes (Some s # ss)"
      unfolding no_holes_def
    proof (intro allI impI)
      fix i j
      assume "i \<le> j" "j < length (Some s # ss)" "(Some s # ss) ! j \<noteq> None"
      with h show "(Some s # ss) ! i \<noteq> None"
        by (cases i; cases j) (auto simp: no_holes_def)
    qed
  qed
  show "no_holes (None # ss) \<longleftrightarrow> set ss \<subseteq> {None}"
  proof
    assume h: "no_holes (None # ss)"
    have "ss ! j = None" if "j < length ss" for j
      using h that unfolding no_holes_def
      by (metis Suc_less_eq length_Cons nth_Cons_0 nth_Cons_Suc zero_le)
    then show "set ss \<subseteq> {None}" by (auto simp: in_set_conv_nth)
  next
    assume "set ss \<subseteq> {None}"
    then have "x = None" if "x \<in> set (None # ss)" for x using that by auto
    then show "no_holes (None # ss)" unfolding no_holes_def by (metis nth_mem)
  qed
qed (simp add: no_holes_def)

lemma known_loop_bounds:
  "0 \<le> acc \<Longrightarrow> acc \<le> int i \<Longrightarrow>
   acc \<le> known_loop ss i acc \<and> known_loop ss i acc \<le> int (i + length ss)"
proof (induction ss arbitrary: i acc)
  case (Cons s ss)
  show ?case
  proof (cases s)
    case None
    with Cons.prems Cons.IH [of acc "Suc i"] show ?thesis by simp
  next
    case (Some v)
    have "int i + 1 \<le> known_loop ss (Suc i) (int i + 1) \<and>
        known_loop ss (Suc i) (int i + 1) \<le> int (Suc i + length ss)"
      by (rule Cons.IH) auto
    with Some Cons.prems show ?thesis by simp
  qed
qed simp

lemma known_loop_None: "set ss \<subseteq> {None} \<Longrightarrow> known_loop ss i acc = acc"
  by (induction ss arbitrary: i) auto

lemma known_loop_no_holes:
  "no_holes ss \<Longrightarrow> known_loop ss i (int i) = int i + int (length (takeWhile (\<lambda>s. s \<noteq> None) ss))"
proof (induction ss arbitrary: i)
  case (Cons s ss)
  show ?case
  proof (cases s)
    case None
    with Cons.prems show ?thesis by (simp add: known_loop_None)
  next
    case (Some v)
    with Cons.prems Cons.IH [of "Suc i"] show ?thesis by (simp add: algebra_simps)
  qed
qed simp

lemma knownSuccessors_bounds:
  "0 \<le> knownSuccessors vn \<and> knownSuccessors vn \<le> int (length (successors vn))"
  using known_loop_bounds [of 0 0 "successors vn"] by (simp add: knownSuccessors_def)

lemma knownSuccessors_no_holes:
  "no_holes (successors vn) \<Longrightarrow>
   knownSuccessors vn = int (length (takeWhile (\<lambda>s. s \<noteq> None) (successors vn)))"
  using known_loop_no_holes [of "successors vn" 0] by (simp add: knownSuccessors_def)

lemma nth_known:
  assumes "no_holes (successors vn)" "int i < knownSuccessors vn"
  shows "\<exists>v. successors vn ! i = Some v"
proof -
  let ?t = "takeWhile (\<lambda>s. s \<noteq> None) (successors vn)"
  have i: "i < length ?t" using assms by (simp add: knownSuccessors_no_holes)
  then have "?t ! i \<in> set ?t" by simp
  then have "?t ! i \<noteq> None" by (auto dest: set_takeWhileD)
  with i show ?thesis by (simp add: takeWhile_nth)
qed

lemma nth_unknown:
  assumes "no_holes (successors vn)" "knownSuccessors vn \<le> int i" "i < length (successors vn)"
  shows "successors vn ! i = None"
proof (rule ccontr)
  assume "successors vn ! i \<noteq> None"
  let ?t = "takeWhile (\<lambda>s. s \<noteq> None) (successors vn)"
  from assms have le: "length ?t \<le> i" by (simp add: knownSuccessors_no_holes)
  then have "length ?t < length (successors vn)" using assms(3) by linarith
  then have "successors vn ! length ?t = None"
    using nth_length_takeWhile by fastforce
  moreover have "successors vn ! length ?t \<noteq> None"
    using \<open>successors vn ! i \<noteq> None\<close> le assms(1,3) unfolding no_holes_def by blast
  ultimately show False by simp
qed

lemma copyOfVnodesList_Ret [simp]:
  "copyOfVnodesList xs n = Ret ys \<longleftrightarrow> 0 \<le> n \<and> nat n \<le> length xs \<and> ys = take (nat n) xs"
  by (auto simp: copyOfVnodesList_def go_copy_same_length)

lemma CopyOfSuccessors_Ret [simp]: "CopyOfSuccessors vn = Ret (successors vn)"
  by (simp add: CopyOfSuccessors_def)

lemma String_eq_iff [simp]: "String v = String w \<longleftrightarrow> Id v = Id w"
  by (simp add: String_def)

lemma GetVnode_simps [simp]: "Id (GetVnode vn) = Id vn" "Host (GetVnode vn) = Host vn"
  by (simp_all add: GetVnode_def)

end
