(* ===== verification/Closest_Iter.thy ===== *)
theory Closest_Iter
  imports Vnode_State
begin

text \<open>
  \<open>iter_closest.go\<close>: the iterator over the vnodes a local vnode knows that precede a key, its
  successor list and its finger table read from the back, the closer candidate first. The lemmas
  show that every yielded node lies strictly between the vnode and the key, that no node is
  yielded twice, that the iteration ends, and that it leaves no candidate out.
\<close>

subsection \<open>Definitions\<close>

record closestPreceedingVnodeIterator =
  key :: bytes
  finger_idx :: int
  successor_idx :: int
  yielded :: "string set"

definition cp_init :: "localVnode \<Rightarrow> bytes \<Rightarrow> closestPreceedingVnodeIterator" where
  "cp_init vn k =
     \<lparr>key = k, finger_idx = int (length (finger vn)) - 1,
      successor_idx = int (length (successors vn)) - 1, yielded = {}\<rparr>"

text \<open>
  The scan of one table, \<open>for i = idx; i >= 0; i--\<close> with \<open>idx = n - 1\<close>: entries that are nil or
  yielded already are skipped, the first one strictly between the vnode and the key ends it. The
  result is the loop counter at the end and the entry found.
\<close>

fun cp_scan :: "Vnode option list \<Rightarrow> bytes \<Rightarrow> bytes \<Rightarrow> string set \<Rightarrow> nat \<Rightarrow> int \<times> Vnode option" where
  "cp_scan tab me k done 0 = (-1, None)"
| "cp_scan tab me k done (Suc i) =
     (case tab ! i of
        None \<Rightarrow> cp_scan tab me k done i
      | Some v \<Rightarrow>
          if String v \<in> done then cp_scan tab me k done i
          else if between me k (Id v) then (int i, Some v)
          else cp_scan tab me k done i)"

definition cp_Next :: "Config \<Rightarrow> localVnode \<Rightarrow> closestPreceedingVnodeIterator
    \<Rightarrow> Vnode option \<times> closestPreceedingVnodeIterator" where
  "cp_Next conf vn cp =
     (let (si, successor_node) =
            cp_scan (successors vn) (Id vn) (key cp) (yielded cp) (nat (successor_idx cp + 1));
          (fi, finger_node) =
            cp_scan (finger vn) (Id vn) (key cp) (yielded cp) (nat (finger_idx cp + 1));
          cp' = cp\<lparr>successor_idx := si, finger_idx := fi\<rparr>
      in case (successor_node, finger_node) of
           (Some s, Some f) \<Rightarrow>
             (let closest = closest_preceeding_vnode s f (key cp) (hashBits conf);
                  cp'' = (if closest = s then cp'\<lparr>successor_idx := si - 1\<rparr>
                          else cp'\<lparr>finger_idx := fi - 1\<rparr>)
              in (Some closest, cp''\<lparr>yielded := insert (String closest) (yielded cp)\<rparr>))
         | (Some s, None) \<Rightarrow>
             (Some s, cp'\<lparr>successor_idx := si - 1, yielded := insert (String s) (yielded cp)\<rparr>)
         | (None, Some f) \<Rightarrow>
             (Some f, cp'\<lparr>finger_idx := fi - 1, yielded := insert (String f) (yielded cp)\<rparr>)
         | (None, None) \<Rightarrow> (None, cp'))"

definition cp_size :: "closestPreceedingVnodeIterator \<Rightarrow> nat" where
  "cp_size cp = nat (successor_idx cp + 1) + nat (finger_idx cp + 1)"

subsection \<open>The scan\<close>

lemma cp_scan_bounds: "cp_scan tab me k d n = (i, r) \<Longrightarrow> -1 \<le> i \<and> i < int n"
  by (induction n) (auto split: option.splits if_splits)

lemma cp_scan_Some:
  "cp_scan tab me k d n = (i, Some v) \<Longrightarrow>
   0 \<le> i \<and> i < int n \<and> tab ! nat i = Some v \<and> String v \<notin> d \<and> between me k (Id v)"
  by (induction n) (auto split: option.splits if_splits)

lemma cp_scan_None: "cp_scan tab me k d n = (i, None) \<Longrightarrow> i = -1"
  by (induction n) (auto split: option.splits if_splits)

text \<open>An entry the scan passed over is not a candidate.\<close>

lemma cp_scan_passed:
  "cp_scan tab me k d n = (i, r) \<Longrightarrow> j < n \<Longrightarrow> i < int j \<Longrightarrow> tab ! j = Some v \<Longrightarrow>
   String v \<in> d \<or> \<not> between me k (Id v)"
proof (induction n)
  case (Suc n)
  show ?case
  proof (cases "j = n")
    case True
    with Suc.prems show ?thesis by (auto split: if_splits)
  next
    case False
    with Suc show ?thesis by (auto split: option.splits if_splits)
  qed
qed simp

subsection \<open>One step of the iterator\<close>

lemma cp_Next_cases:
  assumes "cp_Next conf vn cp = (r, cp')"
  obtains (none) si fi where
      "r = None" "cp' = cp\<lparr>successor_idx := si, finger_idx := fi\<rparr>"
      "cp_scan (successors vn) (Id vn) (key cp) (yielded cp) (nat (successor_idx cp + 1)) = (si, None)"
      "cp_scan (finger vn) (Id vn) (key cp) (yielded cp) (nat (finger_idx cp + 1)) = (fi, None)"
  | (succ) v si fi fr where
      "r = Some v"
      "cp' = cp\<lparr>successor_idx := si - 1, finger_idx := fi, yielded := insert (String v) (yielded cp)\<rparr>"
      "cp_scan (successors vn) (Id vn) (key cp) (yielded cp) (nat (successor_idx cp + 1)) = (si, Some v)"
      "cp_scan (finger vn) (Id vn) (key cp) (yielded cp) (nat (finger_idx cp + 1)) = (fi, fr)"
      "\<And>f. fr = Some f \<Longrightarrow>
         distance (Id v) (key cp) (hashBits conf) \<le> distance (Id f) (key cp) (hashBits conf)"
  | (fing) v si fi sr where
      "r = Some v"
      "cp' = cp\<lparr>successor_idx := si, finger_idx := fi - 1, yielded := insert (String v) (yielded cp)\<rparr>"
      "cp_scan (successors vn) (Id vn) (key cp) (yielded cp) (nat (successor_idx cp + 1)) = (si, sr)"
      "cp_scan (finger vn) (Id vn) (key cp) (yielded cp) (nat (finger_idx cp + 1)) = (fi, Some v)"
      "\<And>s. sr = Some s \<Longrightarrow>
         distance (Id v) (key cp) (hashBits conf) < distance (Id s) (key cp) (hashBits conf)"
proof -
  obtain si sr where s: "cp_scan (successors vn) (Id vn) (key cp) (yielded cp)
      (nat (successor_idx cp + 1)) = (si, sr)" by fastforce
  obtain fi fr where f: "cp_scan (finger vn) (Id vn) (key cp) (yielded cp)
      (nat (finger_idx cp + 1)) = (fi, fr)" by fastforce
  show thesis
    using assms s f none succ fing
    by (cases sr; cases fr)
       (auto simp: cp_Next_def closest_preceeding_vnode_def Let_def split: if_splits)
qed

lemma cp_Next_key [simp]: "cp_Next conf vn cp = (r, cp') \<Longrightarrow> key cp' = key cp"
  by (erule cp_Next_cases) auto

text \<open>Every call that yields a node makes the iterator smaller, so the iteration ends.\<close>

lemma cp_Next_size:
  assumes "cp_Next conf vn cp = (Some v, cp')"
  shows "cp_size cp' < cp_size cp"
  using assms
proof (cases rule: cp_Next_cases)
  case (succ w si fi fr)
  from cp_scan_Some [OF succ(3)] cp_scan_bounds [OF succ(4)] show ?thesis
    by (auto simp: succ(2) cp_size_def split: if_splits)
next
  case (fing w si fi sr)
  from cp_scan_Some [OF fing(4)] cp_scan_bounds [OF fing(3)] show ?thesis
    by (auto simp: fing(2) cp_size_def split: if_splits)
qed simp

text \<open>What a yielded node is.\<close>

lemma cp_Next_Some:
  "cp_Next conf vn cp = (Some v, cp') \<Longrightarrow>
   between (Id vn) (key cp) (Id v) \<and> String v \<notin> yielded cp \<and>
   yielded cp' = insert (String v) (yielded cp)"
  by (erule cp_Next_cases) (auto dest: cp_scan_Some)

subsection \<open>The whole iteration\<close>

text \<open>The nodes the caller sees when it calls \<open>Next\<close> until nil.\<close>

function cp_list :: "Config \<Rightarrow> localVnode \<Rightarrow> closestPreceedingVnodeIterator \<Rightarrow> Vnode list" where
  "cp_list conf vn cp =
     (case cp_Next conf vn cp of
        (None, cp') \<Rightarrow> []
      | (Some v, cp') \<Rightarrow> v # cp_list conf vn cp')"
  by pat_completeness auto
termination
  by (relation "measure (\<lambda>(conf, vn, cp). cp_size cp)") (auto intro: cp_Next_size [OF sym])

declare cp_list.simps [simp del]

lemma cp_list_None: "cp_Next conf vn cp = (None, cp') \<Longrightarrow> cp_list conf vn cp = []"
  by (simp add: cp_list.simps)

lemma cp_list_Some:
  "cp_Next conf vn cp = (Some v, cp') \<Longrightarrow> cp_list conf vn cp = v # cp_list conf vn cp'"
  by (simp add: cp_list.simps)

text \<open>
  The candidates that the two indices and the yielded set leave: entries not yet passed that lie
  strictly between the vnode and the key.
\<close>

definition cp_wf :: "localVnode \<Rightarrow> closestPreceedingVnodeIterator \<Rightarrow> bool" where
  "cp_wf vn cp \<longleftrightarrow>
     -1 \<le> successor_idx cp \<and> successor_idx cp < int (length (successors vn)) \<and>
     -1 \<le> finger_idx cp \<and> finger_idx cp < int (length (finger vn))"

definition cp_cand :: "localVnode \<Rightarrow> closestPreceedingVnodeIterator \<Rightarrow> Vnode \<Rightarrow> bool" where
  "cp_cand vn cp v \<longleftrightarrow>
     between (Id vn) (key cp) (Id v) \<and> String v \<notin> yielded cp \<and>
     ((\<exists>i. int i \<le> successor_idx cp \<and> successors vn ! i = Some v) \<or>
      (\<exists>i. int i \<le> finger_idx cp \<and> finger vn ! i = Some v))"

lemma cp_init_wf: "cp_wf vn (cp_init vn k)"
  by (simp add: cp_wf_def cp_init_def)

lemma cp_Next_wf:
  assumes "cp_wf vn cp" "cp_Next conf vn cp = (r, cp')"
  shows "cp_wf vn cp'"
  using assms(2)
proof (cases rule: cp_Next_cases)
  case (none si fi)
  with assms(1) cp_scan_None [OF none(3)] cp_scan_None [OF none(4)] show ?thesis
    by (auto simp: cp_wf_def)
next
  case (succ v si fi fr)
  with assms(1) cp_scan_Some [OF succ(3)] cp_scan_bounds [OF succ(4)] show ?thesis
    by (auto simp: cp_wf_def)
next
  case (fing v si fi sr)
  with assms(1) cp_scan_bounds [OF fing(3)] cp_scan_Some [OF fing(4)] show ?thesis
    by (auto simp: cp_wf_def)
qed

text \<open>A yielded node is an entry of one of the two tables.\<close>

lemma cp_Next_tables:
  assumes "cp_wf vn cp" "cp_Next conf vn cp = (Some v, cp')"
  shows "Some v \<in> set (successors vn) \<union> set (finger vn)"
  using assms(2)
proof (cases rule: cp_Next_cases)
  case (succ w si fi fr)
  with cp_scan_Some [OF succ(3)] assms(1) have "nat si < length (successors vn)"
    by (auto simp: cp_wf_def)
  with cp_scan_Some [OF succ(3)] succ(1) show ?thesis by (metis UnI1 nth_mem option.inject)
next
  case (fing w si fi sr)
  with cp_scan_Some [OF fing(4)] assms(1) have "nat fi < length (finger vn)"
    by (auto simp: cp_wf_def)
  with cp_scan_Some [OF fing(4)] fing(1) show ?thesis by (metis UnI2 nth_mem option.inject)
qed simp

lemma cp_scan_index:
  assumes "cp_scan tab me k d n = (i, r)" "int j \<le> int n - 1" "tab ! j = Some v"
    and "String v \<notin> d" "between me k (Id v)"
  shows "int j \<le> i"
  using cp_scan_passed [OF assms(1), of j v] assms(2-) by (cases "i < int j") auto

lemma cp_cand_index:
  assumes "cp_cand vn cp w"
    and s: "cp_scan (successors vn) (Id vn) (key cp) (yielded cp) (nat (successor_idx cp + 1)) = (si, sr)"
    and f: "cp_scan (finger vn) (Id vn) (key cp) (yielded cp) (nat (finger_idx cp + 1)) = (fi, fr)"
  shows "(\<exists>i. int i \<le> si \<and> successors vn ! i = Some w) \<or> (\<exists>i. int i \<le> fi \<and> finger vn ! i = Some w)"
  using assms(1) cp_scan_index [OF s, of _ w] cp_scan_index [OF f, of _ w]
  unfolding cp_cand_def by fastforce

text \<open>A call to \<open>Next\<close> yields a candidate and keeps the others, up to nodes of the same identifier.\<close>

lemma cp_Next_cand:
  assumes "cp_Next conf vn cp = (Some v, cp')" "cp_cand vn cp w" "Id w \<noteq> Id v"
  shows "cp_cand vn cp' w"
  using assms(1)
proof (cases rule: cp_Next_cases)
  case (succ u si fi fr)
  then have u: "u = v" by simp
  note cp_scan_Some [OF succ(3)]
  moreover note cp_cand_index [OF assms(2) succ(3,4)]
  ultimately have "(\<exists>i. int i \<le> si - 1 \<and> successors vn ! i = Some w) \<or>
      (\<exists>i. int i \<le> fi \<and> finger vn ! i = Some w)"
    using u assms(3) by (metis nat_int option.inject order_le_less zle_diff1_eq)
  with assms(2,3) u show ?thesis by (auto simp: cp_cand_def succ(2))
next
  case (fing u si fi sr)
  then have u: "u = v" by simp
  note cp_scan_Some [OF fing(4)]
  moreover note cp_cand_index [OF assms(2) fing(3,4)]
  ultimately have "(\<exists>i. int i \<le> si \<and> successors vn ! i = Some w) \<or>
      (\<exists>i. int i \<le> fi - 1 \<and> finger vn ! i = Some w)"
    using u assms(3) by (metis nat_int option.inject order_le_less zle_diff1_eq)
  with assms(2,3) u show ?thesis by (auto simp: cp_cand_def fing(2))
qed simp

lemma cp_Next_no_cand:
  assumes "cp_Next conf vn cp = (None, cp')"
  shows "\<not> cp_cand vn cp w"
  using assms
proof (cases rule: cp_Next_cases)
  case (none si fi)
  show ?thesis
    using cp_cand_index [OF _ none(3,4), of w] cp_scan_None [OF none(3)] cp_scan_None [OF none(4)]
    by auto
qed auto

lemma cp_list_between: "v \<in> set (cp_list conf vn cp) \<Longrightarrow> between (Id vn) (key cp) (Id v)"
proof (induction conf vn cp rule: cp_list.induct)
  case (1 conf vn cp)
  show ?case
  proof (cases "cp_Next conf vn cp")
    case (Pair r cp')
    with 1 show ?thesis
      by (cases r) (auto simp: cp_list_None cp_list_Some dest: cp_Next_Some cp_Next_key)
  qed
qed

lemma cp_list_tables:
  "cp_wf vn cp \<Longrightarrow> v \<in> set (cp_list conf vn cp) \<Longrightarrow> Some v \<in> set (successors vn) \<union> set (finger vn)"
proof (induction conf vn cp rule: cp_list.induct)
  case (1 conf vn cp)
  obtain r cp' where nx: "cp_Next conf vn cp = (r, cp')" by fastforce
  show ?case
  proof (cases r)
    case None
    with 1(3) nx show ?thesis by (simp add: cp_list_None)
  next
    case (Some w)
    with nx have nxw: "cp_Next conf vn cp = (Some w, cp')" by simp
    then have "v = w \<or> v \<in> set (cp_list conf vn cp')" using 1(3) by (simp add: cp_list_Some)
    then show ?thesis
      using cp_Next_tables [OF 1(2) nxw] 1(1) [OF nx [symmetric] Some cp_Next_wf [OF 1(2) nx]] by blast
  qed
qed

lemma cp_list_fresh: "v \<in> set (cp_list conf vn cp) \<Longrightarrow> String v \<notin> yielded cp"
proof (induction conf vn cp rule: cp_list.induct)
  case (1 conf vn cp)
  show ?case
  proof (cases "cp_Next conf vn cp")
    case (Pair r cp')
    with 1 show ?thesis
      by (cases r) (auto simp: cp_list_None cp_list_Some dest: cp_Next_Some)
  qed
qed

lemma cp_list_distinct: "distinct (map Id (cp_list conf vn cp))"
proof (induction conf vn cp rule: cp_list.induct)
  case (1 conf vn cp)
  show ?case
  proof (cases "cp_Next conf vn cp")
    case (Pair r cp')
    show ?thesis
    proof (cases r)
      case (Some v)
      with Pair have nx: "cp_Next conf vn cp = (Some v, cp')" by simp
      have "Id v \<notin> Id ` set (cp_list conf vn cp')"
        using cp_list_fresh [of _ conf vn cp'] cp_Next_Some [OF nx] by fastforce
      with 1 Pair Some show ?thesis by (simp add: cp_list_Some)
    qed (use Pair in \<open>simp add: cp_list_None\<close>)
  qed
qed

lemma cp_list_complete: "cp_cand vn cp w \<Longrightarrow> Id w \<in> Id ` set (cp_list conf vn cp)"
proof (induction conf vn cp rule: cp_list.induct)
  case (1 conf vn cp)
  show ?case
  proof (cases "cp_Next conf vn cp")
    case (Pair r cp')
    show ?thesis
    proof (cases r)
      case None
      with Pair 1(2) show ?thesis using cp_Next_no_cand by blast
    next
      case (Some v)
      with Pair have nx: "cp_Next conf vn cp = (Some v, cp')" by simp
      then show ?thesis
        using 1(1) [OF Pair [symmetric] Some] cp_Next_cand [OF nx 1(2)] nx
        by (cases "Id w = Id v") (auto simp: cp_list_Some)
    qed
  qed
qed

end
