(* ===== verification/Find_Succ.thy ===== *)
theory Find_Succ
  imports Closest_Iter
begin

text \<open>
  Routing: \<open>localVnode.FindSuccessors\<close> of \<open>vnode.go\<close>, the way its remote calls reach another
  vnode (\<open>LocalTransport.FindSuccessors\<close> of \<open>transport.go\<close>, the client and server sides of
  \<open>tcpFindSucReq\<close> of \<open>net.go\<close>), and \<open>Ring.Lookup\<close> of \<open>chord.go\<close>. A call from one vnode to the
  next is a recursive call of the model, bounded by fuel; the routing theorems give the fuel that
  is enough.
\<close>

subsection \<open>\<open>localVnode.FindSuccessors\<close>\<close>

text \<open>A slice result and an error; \<open>None\<close> in the first place is the nil slice.\<close>

type_synonym vnodes_result = "(Vnode option list option \<times> go_error option) go"
type_synonym find_rpc = "Vnode \<Rightarrow> int \<Rightarrow> bytes \<Rightarrow> vnodes_result"

text \<open>The loop over the closest preceding nodes: \<open>Ret (Some res)\<close> is the first answer without error.\<close>

function find_loop :: "find_rpc \<Rightarrow> Config \<Rightarrow> localVnode \<Rightarrow> int \<Rightarrow> bytes
    \<Rightarrow> closestPreceedingVnodeIterator \<Rightarrow> Vnode option list option option go" where
  "find_loop rpc conf vn n k cp =
     (case cp_Next conf vn cp of
        (None, cp') \<Rightarrow> Ret None
      | (Some closest, cp') \<Rightarrow>
          go_bind (rpc closest n k) (\<lambda>(res, err).
            if err = None then Ret (Some res) else find_loop rpc conf vn n k cp'))"
  by pat_completeness auto
termination
  by (relation "measure (\<lambda>(rpc, conf, vn, n, k, cp). cp_size cp)") (auto intro: cp_Next_size [OF sym])

declare find_loop.simps [simp del]

text \<open>The loop over the non-immediate successors, \<open>i\<close> running over the given indices.\<close>

fun find_known :: "localVnode \<Rightarrow> int \<Rightarrow> bytes \<Rightarrow> int list \<Rightarrow> Vnode option list option go" where
  "find_known vn n k [] = Ret None"
| "find_known vn n k (i # is) =
     go_bind (go_index (successors vn) i) (\<lambda>p.
     go_bind (deref p) (\<lambda>s.
       if betweenRightIncl (Id vn) (Id s) k then
         (let remain = drop (nat i) (successors vn)
          in go_bind (if int (length remain) > n then go_prefix remain n else Ret remain) (\<lambda>rem.
             go_bind (copyOfVnodesList rem (int (length rem))) (\<lambda>r. Ret (Some r))))
       else find_known vn n k is))"

definition FindSuccessors :: "find_rpc \<Rightarrow> Config \<Rightarrow> localVnode \<Rightarrow> int \<Rightarrow> bytes \<Rightarrow> vnodes_result" where
  "FindSuccessors rpc conf vn n k =
     go_bind (go_index (successors vn) 0) (\<lambda>p.
     go_bind (deref p) (\<lambda>s0.
       if betweenRightIncl (Id vn) (Id s0) k then
         go_bind (copyOfVnodesList (successors vn) n) (\<lambda>r. Ret (Some r, None))
       else
         go_bind (find_loop rpc conf vn n k (cp_init vn k)) (\<lambda>found.
           case found of
             Some res \<Rightarrow> Ret (res, None)
           | None \<Rightarrow>
               go_bind (find_known vn n k [1..knownSuccessors vn - n]) (\<lambda>r.
                 case r of
                   Some res \<Rightarrow> Ret (Some res, None)
                 | None \<Rightarrow> Ret (None, Some (fmt_Errorf ''Exhausted all preceeding nodes!'' []))))))"

subsection \<open>How a call reaches another vnode\<close>

text \<open>\<open>trimSlice\<close>: trailing nil entries are cut off; a slice with no other entry panics.\<close>

fun trim_loop :: "Vnode option list \<Rightarrow> Vnode option list go" where
  "trim_loop [] = Panic ''index out of range''"
| "trim_loop (None # xs) = trim_loop xs"
| "trim_loop (Some v # xs) = Ret (rev (Some v # xs))"

definition trimSlice :: "Vnode option list option \<Rightarrow> Vnode option list option go" where
  "trimSlice vn =
     (case vn of
        None \<Rightarrow> Ret None
      | Some xs \<Rightarrow> go_bind (trim_loop (rev xs)) (\<lambda>ys. Ret (Some ys)))"

text \<open>
  \<open>TCPResponseImpl.SetError\<close> followed by \<open>TCPResponseImpl.Error\<close> at the other end: an error that is
  not the program's own type arrives as a permanent one.
\<close>

definition wire_error :: "go_error option \<Rightarrow> go_error option" where
  "wire_error err =
     (case err of
        None \<Rightarrow> None
      | Some (BSE nerr) \<Rightarrow> Some (BSE nerr)
      | Some (StringError s) \<Rightarrow> Some (BSE (PermanentError s [])))"

definition target_not_found :: "Vnode \<Rightarrow> go_error" where
  "target_not_found v =
     fmt_Errorf ''Target VN not found! Target %s:%s'' [FStr (Host v), FStr (String v)]"

text \<open>
  A network of processes: each host runs one process, with the vnodes it registered under the text
  of their identifier; \<open>Conn a b\<close> says whether a call from host \<open>a\<close> gets through to host \<open>b\<close>.
\<close>

record network =
  Registered :: "string \<Rightarrow> string \<Rightarrow> localVnode option"
  Conn :: "string \<Rightarrow> string \<Rightarrow> bool"

text \<open>The server side of \<open>tcpFindSucReq\<close>.\<close>

definition serve_FindSuccessors :: "(localVnode \<Rightarrow> vnodes_result) \<Rightarrow> localVnode option \<Rightarrow> Vnode \<Rightarrow> vnodes_result" where
  "serve_FindSuccessors call obj target =
     (case obj of
        Some vn \<Rightarrow>
          go_bind (call vn) (\<lambda>(nodes, err).
          go_bind (trimSlice nodes) (\<lambda>nodes'. Ret (nodes', wire_error err)))
      | None \<Rightarrow> Ret (None, wire_error (Some (target_not_found target))))"

text \<open>
  The client side: a call that does not get through fails; a server that panics drops the
  connection, one that never answers runs into the time limit; an error discards the nodes.
\<close>

definition tcp_FindSuccessors :: "bool \<Rightarrow> vnodes_result \<Rightarrow> vnodes_result" where
  "tcp_FindSuccessors conn resp =
     (if \<not> conn then Ret (None, Some (StringError ''dial''))
      else case resp of
             Ret (nodes, None) \<Rightarrow> Ret (nodes, None)
           | Ret (nodes, Some e) \<Rightarrow> Ret (None, Some e)
           | Panic m \<Rightarrow> Ret (None, Some (StringError ''EOF''))
           | Hang \<Rightarrow> Ret (None, Some (fmt_Errorf ''Command timed out!'' [])))"

text \<open>\<open>LocalTransport.FindSuccessors\<close> at host \<open>h\<close>, with every hop spending one unit of fuel.\<close>

fun net_find :: "nat \<Rightarrow> network \<Rightarrow> Config \<Rightarrow> string \<Rightarrow> find_rpc" where
  "net_find 0 net conf h target n k = Hang"
| "net_find (Suc fuel) net conf h target n k =
     (case Registered net h (String target) of
        Some vn \<Rightarrow> FindSuccessors (net_find fuel net conf h) conf vn n k
      | None \<Rightarrow>
          tcp_FindSuccessors (Conn net h (Host target))
            (serve_FindSuccessors
               (\<lambda>vn. FindSuccessors (net_find fuel net conf (Host target)) conf vn n k)
               (Registered net (Host target) (String target)) target))"

subsection \<open>\<open>Ring.nearestVnode\<close> and \<open>Ring.Lookup\<close>\<close>

fun nearest_local :: "localVnode list \<Rightarrow> bytes \<Rightarrow> localVnode option" where
  "nearest_local [] k = None"
| "nearest_local (v # vs) k =
     (if bytes_Compare (Id v) k = -1 then Some v else nearest_local vs k)"

definition nearestVnode :: "localVnode list \<Rightarrow> bytes \<Rightarrow> localVnode go" where
  "nearestVnode vnodes k =
     (case nearest_local (rev vnodes) k of
        Some v \<Rightarrow> Ret v
      | None \<Rightarrow> go_index vnodes (int (length vnodes) - 1))"

text \<open>\<open>string\<close> to \<open>[]byte\<close>, which the hash function reads.\<close>

definition string_bytes :: "string \<Rightarrow> bytes" where
  "string_bytes s = map (\<lambda>c. of_char c) s"

definition Lookup :: "find_rpc \<Rightarrow> Config \<Rightarrow> localVnode list \<Rightarrow> int \<Rightarrow> bytes \<Rightarrow> vnodes_result" where
  "Lookup rpc conf vnodes n k =
     (if n > NumSuccessors conf then
        Ret (None, Some (fmt_Errorf ''Cannot ask for more successors than NumSuccessors!'' []))
      else
        (let key_hash = HashFunc conf k
         in go_bind (nearestVnode vnodes key_hash) (\<lambda>nearest.
            go_bind (FindSuccessors rpc conf nearest n key_hash) (\<lambda>(succs, err).
              if err \<noteq> None then Ret (None, err)
              else go_bind (trim_loop (rev (case succs of None \<Rightarrow> [] | Some ss \<Rightarrow> ss)))
                     (\<lambda>ss. Ret (Some ss, None))))))"

text \<open>Back from bytes to text.\<close>

lemma string_bytes_back: "map (\<lambda>b. char_of (unat b)) (string_bytes s) = s"
proof -
  have "unat (of_char c :: byte) = (of_char c :: nat)" for c
  proof -
    have "(of_char c :: byte) = of_nat (of_char c)" by (rule of_nat_of_char [symmetric])
    then have "unat (of_char c :: byte) = (of_char c :: nat) mod 256" by (simp only: unat_of_nat) simp
    then show ?thesis by (simp only: mod_less [OF nat_of_char_less_256])
  qed
  then have "char_of (unat (of_char c :: byte)) = c" for c by simp
  then show ?thesis by (simp add: string_bytes_def comp_def)
qed

text \<open>The number of replicas of the lock manager (\<open>lm_client.go\<close>), of the server and the client.\<close>

definition NUM_LM_REPLICA :: int where
  "NUM_LM_REPLICA = 2"

end
