(* ===== verification/Clients.thy ===== *)
theory Clients
  imports Find_Succ "HOL-Library.AList"
begin

text \<open>
  \<open>lm_client.go\<close> and \<open>obj_client.go\<close>: the lock client with its caches and the object client with its
  retry loops. The ring and its transport, which the code reaches through interfaces, are the fields
  of a record over a world \<open>'w\<close>; a nil vnode handed to the transport is followed there and panics.
  A retry loop spends one unit of fuel per round: \<open>Hang\<close> is the loop that has not ended yet.
\<close>

subsection \<open>The interface of the ring\<close>

record 'w client_env =
  clLookup :: "int \<Rightarrow> bytes \<Rightarrow> 'w \<Rightarrow> (Vnode option list \<times> go_error option) \<times> 'w"
  clRLock :: "Vnode \<Rightarrow> string \<Rightarrow> string \<Rightarrow> 'w \<Rightarrow> (string \<times> uint \<times> uint64 \<times> go_error option) \<times> 'w"
  clWLock :: "Vnode \<Rightarrow> string \<Rightarrow> uint \<Rightarrow> uint \<Rightarrow> string \<Rightarrow> 'w
    \<Rightarrow> (string \<times> uint \<times> uint \<times> uint64 \<times> go_error option) \<times> 'w"
  clCommitWLock :: "Vnode \<Rightarrow> string \<Rightarrow> uint \<Rightarrow> string \<Rightarrow> 'w \<Rightarrow> (uint64 \<times> go_error option) \<times> 'w"
  clAbortWLock :: "Vnode \<Rightarrow> string \<Rightarrow> uint \<Rightarrow> string \<Rightarrow> 'w \<Rightarrow> (uint64 \<times> go_error option) \<times> 'w"
  clGet :: "Vnode \<Rightarrow> string \<Rightarrow> uint \<Rightarrow> 'w \<Rightarrow> (go_error + bytes) \<times> 'w"
  clSet :: "Vnode \<Rightarrow> string \<Rightarrow> uint \<Rightarrow> bytes \<Rightarrow> 'w \<Rightarrow> go_error option \<times> 'w"
  clIsLocalVnode :: "Vnode \<Rightarrow> bool"
  clIntn :: "nat \<Rightarrow> 'w \<Rightarrow> nat \<times> 'w"
  clRingId :: string
  clLocalVnode :: Vnode
  clNumSuccessors :: int

subsection \<open>The lock client\<close>

record RLockVal =
  rv_lockID :: string
  rv_version :: uint

record WLockVal =
  wv_lockID :: string
  wv_version :: uint
  wv_timeout :: uint

record LManagerClient =
  cRLocks :: "(string \<times> RLockVal) list"
  cWLocks :: "(string \<times> WLockVal) list"

definition newLManagerClient :: LManagerClient where
  "newLManagerClient = \<lparr>cRLocks = [], cWLocks = []\<rparr>"

definition getLManagerReplicas :: "'w client_env \<Rightarrow> 'w \<Rightarrow> (go_error + Vnode option list) \<times> 'w" where
  "getLManagerReplicas env w =
     (case clLookup env NUM_LM_REPLICA (string_bytes (clRingId env)) w of
        ((vs, Some err), w') \<Rightarrow> (Inl err, w')
      | ((vs, None), w') \<Rightarrow>
          if vs = [] then (Inl (fmt_Errorf ''Failed lookup for lockManager'' []), w') else (Inr vs, w'))"

text \<open>Find the lock manager and call it; both ways to fail end in \<open>fail\<close>.\<close>

definition with_manager :: "'w client_env \<Rightarrow> (go_error \<Rightarrow> 'w \<Rightarrow> 'r go) \<Rightarrow> (Vnode \<Rightarrow> 'w \<Rightarrow> 'r go) \<Rightarrow> 'w \<Rightarrow> 'r go" where
  "with_manager env fail call w =
     (case getLManagerReplicas env w of
        (Inl err, w') \<Rightarrow> fail err w'
      | (Inr vs, w') \<Rightarrow> go_bind (deref (hd vs)) (\<lambda>v. call v w'))"

definition LMC_RLock :: "'w client_env \<Rightarrow> LManagerClient \<Rightarrow> string \<Rightarrow> bool \<Rightarrow> 'w
    \<Rightarrow> ((uint \<times> go_error option) \<times> LManagerClient \<times> 'w) go" where
  "LMC_RLock env lm k forceNoCache w =
     (case (if forceNoCache then None else map_of (cRLocks lm) k) of
        Some rLock \<Rightarrow> Ret ((rv_version rLock, None), lm, w)
      | None \<Rightarrow>
          with_manager env (\<lambda>err w1. Ret ((0, Some err), lm, w1))
            (\<lambda>v w1. case clRLock env v k (String (clLocalVnode env)) w1 of
               ((retLockID, ver, _, Some err), w2) \<Rightarrow> Ret ((0, Some err), lm, w2)
             | ((retLockID, ver, _, None), w2) \<Rightarrow>
                 Ret ((ver, None),
                      lm\<lparr>cRLocks := AList.update k \<lparr>rv_lockID = retLockID, rv_version = ver\<rparr> (cRLocks lm)\<rparr>,
                      w2)) w)"

definition LMC_WLock :: "'w client_env \<Rightarrow> LManagerClient \<Rightarrow> string \<Rightarrow> uint \<Rightarrow> uint \<Rightarrow> 'w
    \<Rightarrow> ((uint \<times> go_error option) \<times> LManagerClient \<times> 'w) go" where
  "LMC_WLock env lm k version timeout w =
     with_manager env (\<lambda>err w1. Ret ((0, Some err), lm, w1))
       (\<lambda>v w1. case clWLock env v k version timeout (String (clLocalVnode env)) w1 of
          ((retLockID, ver, to, _, Some err), w2) \<Rightarrow> Ret ((ver, Some err), lm, w2)
        | ((retLockID, ver, to, _, None), w2) \<Rightarrow>
            Ret ((ver, None),
                 lm\<lparr>cWLocks := AList.update k
                      \<lparr>wv_lockID = retLockID, wv_version = ver, wv_timeout = to\<rparr> (cWLocks lm)\<rparr>, w2)) w"

definition no_local_lock :: go_error where
  "no_local_lock = fmt_Errorf ''Cannot find lock to be committed in local writeLocks cache'' []"

definition LMC_CommitWLock :: "'w client_env \<Rightarrow> LManagerClient \<Rightarrow> string \<Rightarrow> uint \<Rightarrow> 'w
    \<Rightarrow> (go_error option \<times> LManagerClient \<times> 'w) go" where
  "LMC_CommitWLock env lm k version w =
     (if map_of (cWLocks lm) k = None then Ret (Some no_local_lock, lm, w)
      else
        with_manager env (\<lambda>err w1. Ret (Some err, lm, w1))
          (\<lambda>v w1. case clCommitWLock env v k version (String (clLocalVnode env)) w1 of
             ((_, Some err), w2) \<Rightarrow> Ret (Some err, lm, w2)
           | ((_, None), w2) \<Rightarrow>
               Ret (None, lm\<lparr>cWLocks := AList.delete k (cWLocks lm), cRLocks := AList.delete k (cRLocks lm)\<rparr>, w2)) w)"

definition LMC_AbortWLock :: "'w client_env \<Rightarrow> LManagerClient \<Rightarrow> string \<Rightarrow> uint \<Rightarrow> 'w
    \<Rightarrow> (go_error option \<times> LManagerClient \<times> 'w) go" where
  "LMC_AbortWLock env lm k version w =
     (if map_of (cWLocks lm) k = None then Ret (Some no_local_lock, lm, w)
      else
        with_manager env (\<lambda>err w1. Ret (Some err, lm, w1))
          (\<lambda>v w1. case clAbortWLock env v k version (String (clLocalVnode env)) w1 of
             ((_, Some err), w2) \<Rightarrow> Ret (Some err, lm, w2)
           | ((_, None), w2) \<Rightarrow> Ret (None, lm\<lparr>cWLocks := AList.delete k (cWLocks lm)\<rparr>, w2)) w)"

text \<open>\<open>InvalidateRLock\<close>: the last key whose entry has the lock id; the empty string stands for none.\<close>

fun key_of_lock :: "(string \<times> RLockVal) list \<Rightarrow> string \<Rightarrow> string \<Rightarrow> string" where
  "key_of_lock [] lockID k = k"
| "key_of_lock ((j, v) # ls) lockID k = key_of_lock ls lockID (if rv_lockID v = lockID then j else k)"

definition LMC_InvalidateRLock :: "LManagerClient \<Rightarrow> string \<Rightarrow> go_error option \<times> LManagerClient" where
  "LMC_InvalidateRLock lm lockID =
     (let k = key_of_lock (cRLocks lm) lockID []
      in if k = [] then (Some (fmt_Errorf ''Cannot find LockId on Client's RLock cache'' []), lm)
         else (None, lm\<lparr>cRLocks := AList.delete k (cRLocks lm)\<rparr>))"

definition keyInRLocksCache :: "LManagerClient \<Rightarrow> string \<Rightarrow> bool" where
  "keyInRLocksCache lm k \<longleftrightarrow> map_of (cRLocks lm) k \<noteq> None"

subsection \<open>The object client\<close>

text \<open>
  The loop of \<open>getWithoutRetry\<close> over the successors, which drops the local ones from the slice it
  runs over. \<open>arr\<close> is the array behind the slice, \<open>m\<close> the current length of \<open>succVnodes\<close>; the loop runs
  over the original length and reads the array as it is then. \<open>Inl\<close>: a local vnode answered.
\<close>

definition slice_remove :: "'a list \<Rightarrow> nat \<Rightarrow> nat \<Rightarrow> 'a list" where
  "slice_remove arr m i = take i arr @ drop (i + 1) (take m arr) @ drop (m - 1) arr"

fun drop_locals :: "'w client_env \<Rightarrow> string \<Rightarrow> uint \<Rightarrow> nat list \<Rightarrow> Vnode option list \<Rightarrow> nat \<Rightarrow> 'w
    \<Rightarrow> ((bytes + Vnode option list) \<times> 'w) go" where
  "drop_locals env k v [] arr m w = Ret (Inr (take m arr), w)"
| "drop_locals env k v (i # is) arr m w =
     go_bind (deref (arr ! i)) (\<lambda>vnode.
       if clIsLocalVnode env vnode then
         (if m < i + 1 then Panic ''slice bounds out of range''
          else
            (case clGet env vnode k v w of
               (Inr val, w') \<Rightarrow> Ret (Inl val, w')
             | (Inl _, w') \<Rightarrow> drop_locals env k v is (slice_remove arr m i) (m - 1) w'))
       else drop_locals env k v is arr m w)"

text \<open>The second loop: replicas in random order until one answers.\<close>

function get_random :: "'w client_env \<Rightarrow> string \<Rightarrow> uint \<Rightarrow> Vnode option list \<Rightarrow> 'w
    \<Rightarrow> ((go_error + bytes) \<times> 'w) go" where
  "get_random env k v nodes w =
     (if nodes = [] then Ret (Inl (fmt_Errorf ''All read replicas failed'' []), w)
      else
        (let (r, w1) = clIntn env (length nodes) w
         in if r \<ge> length nodes then Panic ''index out of range''
            else
              go_bind (deref (nodes ! r)) (\<lambda>node.
                (case clGet env node k v w1 of
                   (Inr val, w2) \<Rightarrow> Ret (Inr val, w2)
                 | (Inl _, w2) \<Rightarrow> get_random env k v (take r nodes @ drop (r + 1) nodes) w2))))"
  by pat_completeness auto

termination
  by (relation "measure (\<lambda>(env, k, v, nodes, w). length nodes)") auto

definition getWithoutRetry :: "'w client_env \<Rightarrow> LManagerClient \<Rightarrow> string \<Rightarrow> 'w
    \<Rightarrow> ((go_error + bytes) \<times> LManagerClient \<times> 'w) go" where
  "getWithoutRetry env lm k w =
     go_bind (LMC_RLock env lm k False w) (\<lambda>((v, err), lm1, w1).
       case err of
         Some e \<Rightarrow> Ret (Inl e, lm1, w1)
       | None \<Rightarrow>
           (case clLookup env (clNumSuccessors env) (string_bytes k) w1 of
              ((_, Some e), w2) \<Rightarrow> Ret (Inl e, lm1, w2)
            | ((vs, None), w2) \<Rightarrow>
                if vs = [] then Ret (Inl (fmt_Errorf ''No Successors found'' []), lm1, w2)
                else
                  go_bind (drop_locals env k v [0..<length vs] vs (length vs) w2) (\<lambda>(res, w3).
                    case res of
                      Inl val \<Rightarrow> Ret (Inr val, lm1, w3)
                    | Inr nodes \<Rightarrow>
                        go_bind (get_random env k v nodes w3) (\<lambda>(out, w4). Ret (out, lm1, w4)))))"

fun KVC_Get :: "nat \<Rightarrow> 'w client_env \<Rightarrow> LManagerClient \<Rightarrow> string \<Rightarrow> bool \<Rightarrow> 'w
    \<Rightarrow> ((go_error + bytes) \<times> LManagerClient \<times> 'w) go" where
  "KVC_Get 0 env lm k retry w = Hang"
| "KVC_Get (Suc fuel) env lm k retry w =
     go_bind (getWithoutRetry env lm k w) (\<lambda>(res, lm1, w1).
       case res of
         Inr val \<Rightarrow> Ret (Inr val, lm1, w1)
       | Inl err \<Rightarrow>
           if \<not> retry \<or> \<not> isRetryable (Some err) then Ret (Inl err, lm1, w1)
           else KVC_Get fuel env lm1 k retry w1)"

definition setVersionWithoutRetry :: "'w client_env \<Rightarrow> LManagerClient \<Rightarrow> string \<Rightarrow> uint \<Rightarrow> bytes \<Rightarrow> 'w
    \<Rightarrow> (go_error option \<times> LManagerClient \<times> 'w) go" where
  "setVersionWithoutRetry env lm k version val w =
     (case clLookup env (clNumSuccessors env) (string_bytes k) w of
        ((_, Some err), w1) \<Rightarrow> Ret (Some err, lm, w1)
      | ((vs, None), w1) \<Rightarrow>
          if vs = [] then Ret (Some (fmt_Errorf ''No Successors found'' []), lm, w1)
          else
            go_bind (deref (hd vs)) (\<lambda>master.
              case clSet env master k version val w1 of
                (Some err, w2) \<Rightarrow>
                  go_bind (LMC_AbortWLock env lm k version w2) (\<lambda>(_, lm1, w3). Ret (Some err, lm1, w3))
              | (None, w2) \<Rightarrow> LMC_CommitWLock env lm k version w2))"

fun SetVersion :: "nat \<Rightarrow> 'w client_env \<Rightarrow> LManagerClient \<Rightarrow> string \<Rightarrow> uint \<Rightarrow> bytes \<Rightarrow> 'w
    \<Rightarrow> (go_error option \<times> LManagerClient \<times> 'w) go" where
  "SetVersion 0 env lm k version val w = Hang"
| "SetVersion (Suc fuel) env lm k version val w =
     go_bind (setVersionWithoutRetry env lm k version val w) (\<lambda>(err, lm1, w1).
       if err = None then Ret (None, lm1, w1)
       else if \<not> isRetryable err then Ret (err, lm1, w1)
       else SetVersion fuel env lm1 k version val w1)"

text \<open>The loop that asks for a write lock, of \<open>Set\<close> and \<open>GetForSet\<close>.\<close>

fun wlock_loop :: "nat \<Rightarrow> 'w client_env \<Rightarrow> LManagerClient \<Rightarrow> string \<Rightarrow> uint \<Rightarrow> bool \<Rightarrow> 'w
    \<Rightarrow> ((uint \<times> go_error option) \<times> LManagerClient \<times> 'w) go" where
  "wlock_loop 0 env lm k timeout retry w = Hang"
| "wlock_loop (Suc fuel) env lm k timeout retry w =
     go_bind (LMC_WLock env lm k 0 timeout w) (\<lambda>((v, err), lm1, w1).
       if err = None then Ret ((v, None), lm1, w1)
       else if \<not> retry \<or> \<not> isRetryable err then Ret ((v, err), lm1, w1)
       else wlock_loop fuel env lm1 k timeout retry w1)"

definition KVC_Set :: "nat \<Rightarrow> 'w client_env \<Rightarrow> LManagerClient \<Rightarrow> string \<Rightarrow> bytes \<Rightarrow> 'w
    \<Rightarrow> (go_error option \<times> LManagerClient \<times> 'w) go" where
  "KVC_Set fuel env lm k val w =
     go_bind (wlock_loop fuel env lm k 10 True w) (\<lambda>((v, err), lm1, w1).
       if err \<noteq> None then Ret (err, lm1, w1)
       else SetVersion fuel env lm1 k v val w1)"

text \<open>\<open>GetForSet\<close>: the value, the version of the write lock and the error.\<close>

fun get_loop :: "nat \<Rightarrow> 'w client_env \<Rightarrow> LManagerClient \<Rightarrow> string \<Rightarrow> bool \<Rightarrow> 'w
    \<Rightarrow> ((go_error + bytes) \<times> LManagerClient \<times> 'w) go" where
  "get_loop 0 env lm k retry w = Hang"
| "get_loop (Suc fuel) env lm k retry w =
     go_bind (getWithoutRetry env lm k w) (\<lambda>(res, lm1, w1).
       case res of
         Inr val \<Rightarrow> Ret (Inr val, lm1, w1)
       | Inl err \<Rightarrow>
           if \<not> retry \<or> \<not> isRetryable (Some err) then Ret (Inl err, lm1, w1)
           else get_loop fuel env lm1 k retry w1)"

definition GetForSet :: "nat \<Rightarrow> 'w client_env \<Rightarrow> LManagerClient \<Rightarrow> string \<Rightarrow> bool \<Rightarrow> 'w
    \<Rightarrow> (((go_error + bytes) \<times> uint) \<times> LManagerClient \<times> 'w) go" where
  "GetForSet fuel env lm k retry w =
     go_bind (wlock_loop fuel env lm k 60 retry w) (\<lambda>((v, err), lm1, w1).
       case err of
         Some e \<Rightarrow> Ret ((Inl e, v), lm1, w1)
       | None \<Rightarrow>
           go_bind (get_loop fuel env lm1 k retry w1) (\<lambda>(res, lm2, w2). Ret ((res, v), lm2, w2)))"

end
