(* ===== verification/Client_Theorems.thy ===== *)
theory Client_Theorems
  imports Clients
begin

text \<open>
  The clients. The interface \<open>store_service\<close> says what the object client relies on: a lock manager with
  committed versions and write locks, and replicas that hold values. Its lemmas are about the
  client's loops; the theory \<open>System\<close> discharges its laws for the lock manager and the stores of this
  development. The theorems at the end are about the clients alone.
\<close>

subsection \<open>The service behind the clients\<close>

locale store_service =
  fixes env :: "'w client_env"
    and inv :: "'w \<Rightarrow> bool"
    and ver :: "'w \<Rightarrow> string \<Rightarrow> uint"
    and locked :: "'w \<Rightarrow> string \<Rightarrow> uint option"
    and look :: "'w \<Rightarrow> string \<Rightarrow> uint \<Rightarrow> bytes option"
    and nodes :: "Vnode list"
  assumes nodes_ne: "inv w \<Longrightarrow> nodes \<noteq> []"
    and lookup: "inv w \<Longrightarrow> clLookup env n b w = ((map Some nodes, None), w)"
    and not_local: "inv w \<Longrightarrow> x \<in> set nodes \<Longrightarrow> \<not> clIsLocalVnode env x"
    and intn: "inv w \<Longrightarrow> 0 < m \<Longrightarrow> \<exists>r < m. clIntn env m w = (r, w)"
    and wlock: "inv w \<Longrightarrow> locked w k = None \<Longrightarrow>
      \<exists>lid cp w'. clWLock env (hd nodes) k 0 t me w = ((lid, ver w k + 1, t, cp, None), w') \<and> inv w' \<and>
        ver w' = ver w \<and> locked w' = (locked w)(k \<mapsto> ver w k + 1) \<and> look w' = look w"
    and set_ok: "inv w \<Longrightarrow> (\<forall>u b. look w k u = Some b \<longrightarrow> u < v) \<Longrightarrow>
      \<exists>w'. clSet env (hd nodes) k v a w = (None, w') \<and> inv w' \<and> ver w' = ver w \<and> locked w' = locked w \<and>
        look w' = (look w)(k := (look w k)(v \<mapsto> a))"
    and set_low: "inv w \<Longrightarrow> look w k u = Some b \<Longrightarrow> v \<le> u \<Longrightarrow>
      \<exists>e. clSet env (hd nodes) k v a w = (Some e, w) \<and> \<not> isRetryable (Some e)"
    and commit: "inv w \<Longrightarrow> locked w k = Some v \<Longrightarrow>
      \<exists>cp w'. clCommitWLock env (hd nodes) k v me w = ((cp, None), w') \<and> inv w' \<and>
        ver w' = (ver w)(k := v) \<and> locked w' = (locked w)(k := None) \<and> look w' = look w"
    and abort: "inv w \<Longrightarrow> locked w k = Some v \<Longrightarrow>
      \<exists>cp w'. clAbortWLock env (hd nodes) k v me w = ((cp, None), w') \<and> inv w' \<and>
        ver w' = ver w \<and> locked w' = (locked w)(k := None) \<and> look w' = look w"
    and rlock: "inv w \<Longrightarrow> ver w k \<noteq> 0 \<Longrightarrow>
      \<exists>lid cp w'. clRLock env (hd nodes) k me w = ((lid, ver w k, cp, None), w') \<and> inv w' \<and>
        ver w' = ver w \<and> locked w' = locked w \<and> look w' = look w"
    and rlock_absent: "inv w \<Longrightarrow> ver w k = 0 \<Longrightarrow>
      \<exists>lid v cp e. clRLock env (hd nodes) k me w = ((lid, v, cp, Some e), w) \<and> \<not> isRetryable (Some e)"
    and get_master: "inv w \<Longrightarrow> look w k v = Some a \<Longrightarrow> clGet env (hd nodes) k v w = (Inr a, w)"
    and get_sound: "inv w \<Longrightarrow> x \<in> set nodes \<Longrightarrow>
      \<exists>r. clGet env x k v w = (r, w) \<and> (\<forall>b. r = Inr b \<longrightarrow> look w k v = Some b)"
begin

lemma replicas: "inv w \<Longrightarrow> getLManagerReplicas env w = (Inr (map Some nodes), w)"
  using nodes_ne[of w] lookup[of w] by (simp add: getLManagerReplicas_def)

lemma manager: "inv w \<Longrightarrow> with_manager env fail call w = call (hd nodes) w"
  using nodes_ne[of w] by (simp add: with_manager_def replicas hd_map deref_def)

lemma drop_none:
  assumes "inv w" "\<forall>i \<in> set is. i < length nodes"
  shows "drop_locals env k v is (map Some nodes) m w = Ret (Inr (take m (map Some nodes)), w)"
  using assms(2) not_local[OF assms(1)] by (induction "is") (auto simp: deref_def)

text \<open>Whatever order the replicas are asked in, a stored version is found as long as the master is
  among those still to be asked, and what is found is what is stored.\<close>

lemma get_random_finds:
  assumes "inv w" "look w k v = Some a" "set ns \<subseteq> Some ` set nodes" "Some (hd nodes) \<in> set ns"
  shows "get_random env k v ns w = Ret (Inr a, w)"
  using assms(3,4)
proof (induction "length ns" arbitrary: ns rule: less_induct)
  case less
  have ne: "ns \<noteq> []" using less.prems(2) by auto
  then obtain r where r: "r < length ns" "clIntn env (length ns) w = (r, w)" using intn[OF assms(1)] by blast
  have "ns ! r \<in> Some ` set nodes" using less.prems(1) nth_mem[OF r(1)] by (rule subsetD)
  then obtain x where x: "ns ! r = Some x" "x \<in> set nodes" by (elim imageE)
  obtain g where g: "clGet env x k v w = (g, w)" "\<And>b. g = Inr b \<Longrightarrow> look w k v = Some b"
    using get_sound[OF assms(1) x(2)] by blast
  show ?case
  proof (cases g)
    case (Inr b)
    then show ?thesis using r x g assms(2) ne by (simp add: get_random.simps[of env k v ns] deref_def)
  next
    case (Inl e)
    have "x \<noteq> hd nodes" using get_master[OF assms(1,2)] g(1) Inl by auto
    let ?rest = "take r ns @ drop (r + 1) ns"
    have ns: "ns = take r ns @ Some x # drop (r + 1) ns" using id_take_nth_drop[OF r(1)] x(1) by simp
    have "set ns = insert (Some x) (set ?rest)" by (subst ns) simp
    then have "set ?rest \<subseteq> set ns" "Some (hd nodes) \<in> set ?rest"
      using less.prems(2) \<open>x \<noteq> hd nodes\<close> by auto
    then have "get_random env k v ?rest w = Ret (Inr a, w)"
      using less.prems(1) r(1) by (intro less.hyps) auto
    then show ?thesis using r x g Inl ne by (simp add: get_random.simps[of env k v ns] deref_def)
  qed
qed

lemma hd_in: "inv w \<Longrightarrow> hd nodes \<in> set nodes"
  using nodes_ne by simp

lemma get_reads:
  assumes "inv w" "ver w k = v" "v \<noteq> 0" "look w k v = Some a" "map_of (cRLocks lm) k = None"
  shows "\<exists>lm' w'. getWithoutRetry env lm k w = Ret (Inr a, lm', w') \<and> inv w' \<and> ver w' = ver w \<and>
    locked w' = locked w \<and> look w' = look w \<and> cWLocks lm' = cWLocks lm"
proof -
  obtain lid cp w1 where w1: "clRLock env (hd nodes) k (String (clLocalVnode env)) w = ((lid, v, cp, None), w1)"
    "inv w1" "look w1 = look w" "ver w1 = ver w" "locked w1 = locked w"
    using rlock[OF assms(1), of k "String (clLocalVnode env)"] assms(2,3) by auto
  let ?lm = "lm\<lparr>cRLocks := AList.update k \<lparr>rv_lockID = lid, rv_version = v\<rparr> (cRLocks lm)\<rparr>"
  have "LMC_RLock env lm k False w = Ret ((v, None), ?lm, w1)"
    using assms(5) w1(1) by (simp add: LMC_RLock_def manager[OF assms(1)])
  moreover have "get_random env k v (map Some nodes) w1 = Ret (Inr a, w1)"
    using w1(2,3) assms(4) hd_in[OF w1(2)] by (intro get_random_finds) auto
  ultimately show ?thesis
    using w1(2-) lookup[OF w1(2)] nodes_ne[OF w1(2)] drop_none[OF w1(2), of "[0..<length nodes]" k v "length nodes"]
    by (simp add: getWithoutRetry_def)
qed

lemma set_version_ok:
  assumes "inv w" "locked w k = Some v" "\<forall>u b. look w k u = Some b \<longrightarrow> u < v" "map_of (cWLocks lm) k \<noteq> None"
  shows "\<exists>lm' w'. setVersionWithoutRetry env lm k v a w = Ret (None, lm', w') \<and> inv w' \<and>
    ver w' k = v \<and> look w' k = (look w k)(v \<mapsto> a) \<and> locked w' k = None \<and> map_of (cRLocks lm') k = None"
proof -
  obtain w1 where w1: "clSet env (hd nodes) k v a w = (None, w1)" "inv w1" "ver w1 = ver w" "locked w1 = locked w"
    "look w1 = (look w)(k := (look w k)(v \<mapsto> a))" using set_ok[OF assms(1,3)] by blast
  obtain cp w2 where w2: "clCommitWLock env (hd nodes) k v (String (clLocalVnode env)) w1 = ((cp, None), w2)"
    "inv w2" "ver w2 = (ver w1)(k := v)" "locked w2 = (locked w1)(k := None)" "look w2 = look w1"
    using commit[OF w1(2), of k v] w1(4) assms(2) by metis
  have "LMC_CommitWLock env lm k v w1 =
      Ret (None, lm\<lparr>cWLocks := AList.delete k (cWLocks lm), cRLocks := AList.delete k (cRLocks lm)\<rparr>, w2)"
    using assms(4) w2(1) by (simp add: LMC_CommitWLock_def manager[OF w1(2)])
  then show ?thesis
    using w1 w2 lookup[OF assms(1)] nodes_ne[OF assms(1)]
    by (simp add: setVersionWithoutRetry_def hd_map deref_def delete_conv')
qed

lemma set_version_low:
  assumes "inv w" "locked w k = Some v" "look w k u = Some b" "v \<le> u" "map_of (cWLocks lm) k \<noteq> None"
  shows "\<exists>e lm' w'. setVersionWithoutRetry env lm k v a w = Ret (Some e, lm', w') \<and> \<not> isRetryable (Some e) \<and>
    inv w' \<and> ver w' = ver w \<and> look w' = look w \<and> locked w' k = None"
proof -
  obtain e where e: "clSet env (hd nodes) k v a w = (Some e, w)" "\<not> isRetryable (Some e)"
    using set_low[OF assms(1,3,4)] by blast
  obtain cp w2 where w2: "clAbortWLock env (hd nodes) k v (String (clLocalVnode env)) w = ((cp, None), w2)"
    "inv w2" "ver w2 = ver w" "locked w2 = (locked w)(k := None)" "look w2 = look w"
    using abort[OF assms(1,2)] by metis
  have "LMC_AbortWLock env lm k v w = Ret (None, lm\<lparr>cWLocks := AList.delete k (cWLocks lm)\<rparr>, w2)"
    using assms(5) w2(1) by (simp add: LMC_AbortWLock_def manager[OF assms(1)])
  then show ?thesis
    using e w2 lookup[OF assms(1)] nodes_ne[OF assms(1)]
    by (simp add: setVersionWithoutRetry_def hd_map deref_def)
qed

lemma wlock_ok:
  assumes "inv w" "locked w k = None"
  shows "\<exists>lm1 w1. wlock_loop (Suc fuel) env lm k t retry w = Ret ((ver w k + 1, None), lm1, w1) \<and> inv w1 \<and>
    ver w1 = ver w \<and> locked w1 k = Some (ver w k + 1) \<and> look w1 = look w \<and> map_of (cWLocks lm1) k \<noteq> None \<and>
    cRLocks lm1 = cRLocks lm"
proof -
  obtain lid cp w1 where w1: "clWLock env (hd nodes) k 0 t (String (clLocalVnode env)) w =
      ((lid, ver w k + 1, t, cp, None), w1)" "inv w1" "ver w1 = ver w"
      "locked w1 = (locked w)(k \<mapsto> ver w k + 1)" "look w1 = look w"
    using wlock[OF assms] by metis
  then show ?thesis by (simp add: LMC_WLock_def manager[OF assms(1)] update_conv')
qed

lemma set_then_get_service:
  assumes "inv w" "locked w k = None" "ver w k \<noteq> - 1" "\<And>u b. look w k u = Some b \<Longrightarrow> u \<le> ver w k"
  shows "\<exists>lm1 w1 lm2 w2. KVC_Set (Suc fuel) env lm k a w = Ret (None, lm1, w1) \<and>
    ver w1 k = ver w k + 1 \<and> KVC_Get (Suc fuel2) env lm1 k retry w1 = Ret (Inr a, lm2, w2)"
proof -
  let ?v = "ver w k + 1"
  have lt: "ver w k < ?v" using assms(3) by (rule word_less_Suc)
  have v0: "?v \<noteq> 0" using lt by auto
  obtain lm1 w1 where 1: "wlock_loop (Suc fuel) env lm k 10 True w = Ret ((?v, None), lm1, w1)" "inv w1"
    "ver w1 = ver w" "locked w1 k = Some ?v" "look w1 = look w" "map_of (cWLocks lm1) k \<noteq> None"
    using wlock_ok[OF assms(1,2)] by metis
  have "\<forall>u b. look w1 k u = Some b \<longrightarrow> u < ?v"
    using assms(4) 1(5) lt by (metis order_le_less_trans)
  from set_version_ok[OF 1(2,4) this 1(6)]
  obtain lm2 w2 where 2: "setVersionWithoutRetry env lm1 k ?v a w1 = Ret (None, lm2, w2)" "inv w2"
    "ver w2 k = ?v" "look w2 k ?v = Some a" "map_of (cRLocks lm2) k = None" by (metis fun_upd_same)
  from get_reads[OF 2(2,3) v0 2(4,5)] obtain lm3 w3 where "getWithoutRetry env lm2 k w2 = Ret (Inr a, lm3, w3)"
    by blast
  moreover have "KVC_Set (Suc fuel) env lm k a w = SetVersion (Suc fuel) env lm1 k ?v a w1"
    using 1(1) by (simp add: KVC_Set_def del: wlock_loop.simps)
  ultimately show ?thesis using 2 by simp
qed

text \<open>A cached read lock decides what is read, whatever has been committed since.\<close>

lemma stale_get_service:
  assumes "inv w" "map_of (cRLocks lm) k = Some r" "look w k (rv_version r) = Some old"
  shows "KVC_Get (Suc fuel) env lm k retry w = Ret (Inr old, lm, w)"
proof -
  have "get_random env k (rv_version r) (map Some nodes) w = Ret (Inr old, w)"
    using assms(3) hd_in[OF assms(1)] by (intro get_random_finds[OF assms(1)]) auto
  then have "getWithoutRetry env lm k w = Ret (Inr old, lm, w)"
    using lookup[OF assms(1)] nodes_ne[OF assms(1)] assms(2)
      drop_none[OF assms(1), of "[0..<length nodes]" k "rv_version r" "length nodes"]
    by (simp add: getWithoutRetry_def LMC_RLock_def)
  then show ?thesis by simp
qed

text \<open>A version above the committed one in the store, left there by a writer that could not commit, makes
  every later write of the key fail.\<close>

lemma orphan_blocks_service:
  assumes "inv w" "locked w k = None" "look w k (ver w k + 1) = Some b"
  shows "\<exists>e lm1 w1. KVC_Set (Suc fuel) env lm k a w = Ret (Some e, lm1, w1) \<and> inv w1 \<and>
    ver w1 = ver w \<and> look w1 = look w \<and> locked w1 k = None"
proof -
  let ?v = "ver w k + 1"
  obtain lm1 w1 where 1: "wlock_loop (Suc fuel) env lm k 10 True w = Ret ((?v, None), lm1, w1)" "inv w1"
    "ver w1 = ver w" "locked w1 k = Some ?v" "look w1 = look w" "map_of (cWLocks lm1) k \<noteq> None"
    using wlock_ok[OF assms(1,2)] by metis
  have "look w1 k ?v = Some b" using 1(5) assms(3) by simp
  from set_version_low[OF 1(2,4) this order_refl 1(6)] obtain e lm2 w2 where
    "setVersionWithoutRetry env lm1 k ?v a w1 = Ret (Some e, lm2, w2)" "\<not> isRetryable (Some e)"
    "inv w2" "ver w2 = ver w1" "look w2 = look w1" "locked w2 k = None" by metis
  moreover have "KVC_Set (Suc fuel) env lm k a w = SetVersion (Suc fuel) env lm1 k ?v a w1"
    using 1(1) by (simp add: KVC_Set_def del: wlock_loop.simps)
  ultimately show ?thesis using 1(3,5) by simp
qed

end

subsection \<open>The caches of the lock client\<close>

lemma key_of_lock_unique:
  assumes "\<forall>p \<in> set ls. rv_lockID (snd p) = lid \<longrightarrow> fst p = k"
    and "d = k \<or> (\<exists>p \<in> set ls. rv_lockID (snd p) = lid)"
  shows "key_of_lock ls lid d = k"
  using assms by (induction ls lid d rule: key_of_lock.induct) (auto, force+)

text \<open>Invalidating a read lock. When lock ids are unique in the cache, \<open>InvalidateRLock\<close> of the id of a
  key removes that key's entry and no other, and the next read of the key goes to the lock manager.
  A key that is the empty string is never found.\<close>

theorem invalidate_removes_entry:
  assumes "map_of (cRLocks lm) k = Some v" "distinct (map fst (cRLocks lm))"
    and "\<forall>p \<in> set (cRLocks lm). rv_lockID (snd p) = rv_lockID v \<longrightarrow> fst p = k"
  shows "LMC_InvalidateRLock lm (rv_lockID v) =
    (if k = [] then (Some (fmt_Errorf ''Cannot find LockId on Client's RLock cache'' []), lm)
     else (None, lm\<lparr>cRLocks := AList.delete k (cRLocks lm)\<rparr>)) \<and>
    keyInRLocksCache (snd (LMC_InvalidateRLock lm (rv_lockID v))) k = (k = []) \<and>
    (\<forall>j. j \<noteq> k \<longrightarrow> map_of (cRLocks (snd (LMC_InvalidateRLock lm (rv_lockID v)))) j = map_of (cRLocks lm) j)"
proof -
  have "key_of_lock (cRLocks lm) (rv_lockID v) [] = k"
    using map_of_SomeD[OF assms(1)] by (intro key_of_lock_unique[OF assms(3)]) force
  then show ?thesis using assms(1)
    by (auto simp: LMC_InvalidateRLock_def Let_def keyInRLocksCache_def delete_conv')
qed


definition demo_cache :: LManagerClient where
  "demo_cache = \<lparr>cRLocks = [(''x'', \<lparr>rv_lockID = ''01'', rv_version = 3\<rparr>), (''y'', \<lparr>rv_lockID = ''02'', rv_version = 1\<rparr>)],
     cWLocks = []\<rparr>"

theorem invalidate_removes_entry_witness:
  "\<not> keyInRLocksCache (snd (LMC_InvalidateRLock demo_cache ''01'')) ''x''"
proof -
  have "keyInRLocksCache (snd (LMC_InvalidateRLock demo_cache (rv_lockID \<lparr>rv_lockID = ''01'', rv_version = 3\<rparr>))) ''x'' =
      (''x'' = [])"
    by (rule invalidate_removes_entry[THEN conjunct2, THEN conjunct1]) (simp_all add: demo_cache_def)
  then show ?thesis by simp
qed

text \<open>The loop that drops local vnodes. When the two successors of a key are both in the client's own
  process and neither holds the version, the loop of \<open>getWithoutRetry\<close> removes the first from the slice
  it runs over and then cuts the slice beyond its end: the read panics instead of failing.\<close>

theorem local_replicas_panic:
  assumes "LMC_RLock env lm k False w = Ret ((v, None), lm1, w1)"
    and "clLookup env (clNumSuccessors env) (string_bytes k) w1 = (([Some a, Some b], None), w2)"
    and "clIsLocalVnode env a" "clIsLocalVnode env b"
    and "clGet env a k v w2 = (Inl e, w3)"
  shows "getWithoutRetry env lm k w = Panic ''slice bounds out of range''"
  using assms by (simp add: getWithoutRetry_def slice_remove_def deref_def upt_rec)

definition demo_client_env :: "unit client_env" where
  "demo_client_env =
     \<lparr>clLookup = (\<lambda>n k w. (([Some \<lparr>Id = [1], Host = ''a''\<rparr>, Some \<lparr>Id = [2], Host = ''a''\<rparr>], None), ())),
      clRLock = (\<lambda>v k n w. ((''01'', 3, 0, None), ())),
      clWLock = (\<lambda>v k ver t n w. ((''01'', 3, t, 0, None), ())),
      clCommitWLock = (\<lambda>v k ver n w. ((0, None), ())),
      clAbortWLock = (\<lambda>v k ver n w. ((0, None), ())),
      clGet = (\<lambda>v k ver w. (Inl (StringError ''Key not found''), ())),
      clSet = (\<lambda>v k ver a w. (None, ())),
      clIsLocalVnode = (\<lambda>v. Host v = ''a''), clIntn = (\<lambda>m w. (0, ())),
      clRingId = ''ring'', clLocalVnode = \<lparr>Id = [1], Host = ''a''\<rparr>, clNumSuccessors = 2\<rparr>"

theorem local_replicas_panic_witness:
  "getWithoutRetry demo_client_env demo_cache ''x'' () = Panic ''slice bounds out of range''"
  by (rule local_replicas_panic[where ?w1.0 = "()" and ?w2.0 = "()" and ?w3.0 = "()"])
    (auto simp: demo_client_env_def demo_cache_def LMC_RLock_def)

text \<open>Retrying forever. If the error of every attempt to read is transient, \<open>Get\<close> with retries never
  returns, however long it runs; without retries it returns the first error.\<close>

theorem get_retries_forever:
  assumes "\<And>lm w. \<exists>err lm' w'. getWithoutRetry env lm k w = Ret (Inl err, lm', w') \<and> isRetryable (Some err)"
  shows "KVC_Get fuel env lm k True w = Hang \<and>
    (\<exists>err lm' w'. KVC_Get (Suc 0) env lm k False w = Ret (Inl err, lm', w'))"
proof
  show "KVC_Get fuel env lm k True w = Hang"
  proof (induction fuel arbitrary: lm w)
    case (Suc fuel)
    then show ?case using assms[of lm w] by auto
  qed simp
  show "\<exists>err lm' w'. KVC_Get (Suc 0) env lm k False w = Ret (Inl err, lm', w')"
    using assms[of lm w] by auto
qed

theorem get_retries_forever_witness:
  "KVC_Get 1000 (demo_client_env\<lparr>clLookup := (\<lambda>n k w. (([], Some (BSE (TransientError ''busy'' []))), ()))\<rparr>)
     newLManagerClient ''z'' True () = Hang"
proof (rule get_retries_forever[THEN conjunct1])
  fix lm :: LManagerClient and w :: unit
  let ?env = "demo_client_env\<lparr>clLookup := (\<lambda>n k w. (([], Some (BSE (TransientError ''busy'' []))), ()))\<rparr>"
  show "\<exists>err lm' w'. getWithoutRetry ?env lm ''z'' w = Ret (Inl err, lm', w') \<and> isRetryable (Some err)"
    by (cases "map_of (cRLocks lm) ''z''")
      (auto simp: getWithoutRetry_def LMC_RLock_def with_manager_def getLManagerReplicas_def TransientError_def)
qed

end
