(* ===== verification/Lock_Manager.thy ===== *)
theory Lock_Manager
  imports Find_Succ "HOL-Library.AList"
begin

text \<open>
  \<open>lm_server.go\<close> and \<open>lm_utils.go\<close>: the lock manager of a vnode. Its state is a record with the
  source's fields; a Go map that may be nil is an optional map, so that reading a nil map gives the
  zero value and writing to one panics; \<open>verMapHeld\<close> records that \<open>verMapMut\<close> was left locked.
  The calls to replicas, the clock and the random source are the fields of an environment record
  over a world \<open>'w\<close>. A copy set is an association list from node to lock and address; Go leaves the
  order in which a map is visited open, the list fixes one.
\<close>

subsection \<open>State\<close>

record WLockEntry =
  wl_nodeID :: string
  wl_LockID :: string
  wl_version :: uint
  wl_timeout :: int

record RLockEntry =
  CopySet :: "(string \<times> string \<times> string) list"

record OpsLogEntry =
  OpNum :: uint64
  Op :: string
  Key :: string
  Version :: uint
  Timeout :: "int option"
  LogCopySet :: "RLockEntry option"
  LockId :: string
  LogCommitPoint :: uint64
  Vn :: Vnode

record LManager =
  LMVn :: Vnode
  CurrentLM :: bool
  VersionMap :: "(string \<rightharpoonup> uint) option"
  RLocks :: "(string \<rightharpoonup> RLockEntry) option"
  WLocks :: "(string \<rightharpoonup> WLockEntry) option"
  TimeoutTicker :: bool
  currOpNum :: uint64
  OpsLog :: "OpsLogEntry list"
  CommitPoint :: uint64
  CommitIndex :: int
  block :: bool
  verMapHeld :: bool

text \<open>What the lock manager calls: the transport, the clock (nanoseconds) and \<open>crypto/rand\<close>.\<close>

record 'w lm_env =
  envFindSuccessors :: "Vnode \<Rightarrow> int \<Rightarrow> bytes \<Rightarrow> 'w \<Rightarrow> (Vnode option list \<times> go_error option) \<times> 'w"
  envRLock :: "Vnode \<Rightarrow> string \<Rightarrow> string \<Rightarrow> OpsLogEntry \<Rightarrow> 'w \<Rightarrow> go_error option \<times> 'w"
  envWLock :: "Vnode \<Rightarrow> string \<Rightarrow> uint \<Rightarrow> uint \<Rightarrow> string \<Rightarrow> OpsLogEntry \<Rightarrow> 'w \<Rightarrow> go_error option \<times> 'w"
  envCommitWLock :: "Vnode \<Rightarrow> string \<Rightarrow> uint \<Rightarrow> string \<Rightarrow> OpsLogEntry \<Rightarrow> 'w \<Rightarrow> go_error option \<times> 'w"
  envAbortWLock :: "Vnode \<Rightarrow> string \<Rightarrow> uint \<Rightarrow> string \<Rightarrow> OpsLogEntry \<Rightarrow> 'w \<Rightarrow> go_error option \<times> 'w"
  envInvalidateRLock :: "Vnode \<Rightarrow> string \<Rightarrow> 'w \<Rightarrow> go_error option \<times> 'w"
  envRand :: "'w \<Rightarrow> (bytes \<times> go_error option) \<times> 'w"
  envNow :: "'w \<Rightarrow> int \<times> 'w"
  envRingId :: string

text \<open>\<open>LManager\{Vn: .., OpsLog: make(..), CommitPoint: 0, CommitIndex: -1, block: b\}\<close> of \<open>ring.go\<close>.\<close>

definition newLManager :: "Vnode \<Rightarrow> bool \<Rightarrow> LManager" where
  "newLManager vn b =
     \<lparr>LMVn = vn, CurrentLM = False, VersionMap = None, RLocks = None, WLocks = None,
      TimeoutTicker = False, currOpNum = 0, OpsLog = [], CommitPoint = 0, CommitIndex = -1,
      block = b, verMapHeld = False\<rparr>"

text \<open>Reading a Go map that may be nil, and writing to it.\<close>

definition map_get :: "('k \<rightharpoonup> 'v) option \<Rightarrow> 'k \<Rightarrow> 'v option" where
  "map_get m k = (case m of None \<Rightarrow> None | Some f \<Rightarrow> f k)"

definition map_delete :: "('k \<rightharpoonup> 'v) option \<Rightarrow> 'k \<Rightarrow> ('k \<rightharpoonup> 'v) option" where
  "map_delete m k = map_option (\<lambda>f. f(k := None)) m"

definition map_make :: "('k \<rightharpoonup> 'v) option \<Rightarrow> ('k \<rightharpoonup> 'v)" where
  "map_make m = (case m of None \<Rightarrow> Map.empty | Some f \<Rightarrow> f)"

definition version_of :: "LManager \<Rightarrow> string \<Rightarrow> uint" where
  "version_of lm k = (case map_get (VersionMap lm) k of None \<Rightarrow> 0 | Some v \<Rightarrow> v)"

subsection \<open>The log of a backup\<close>

text \<open>
  \<open>appendToLog\<close>. The first loop walks back from the new entry and exchanges operation numbers (not
  entries); at the front it reads the entry before the first and panics. The second loop moves the
  commit point.
\<close>

fun sift_opnum :: "OpsLogEntry list \<Rightarrow> nat \<Rightarrow> OpsLogEntry list go" where
  "sift_opnum log 0 = Panic ''index out of range''"
| "sift_opnum log (Suc i) =
     (if OpNum (log ! Suc i) < OpNum (log ! i) then
        sift_opnum (log[Suc i := (log ! Suc i)\<lparr>OpNum := OpNum (log ! i)\<rparr>,
                        i := (log ! i)\<lparr>OpNum := OpNum (log ! Suc i)\<rparr>]) i
      else Ret log)"

fun move_commit :: "OpsLogEntry list \<Rightarrow> int list \<Rightarrow> uint64 \<Rightarrow> int \<Rightarrow> uint64 \<times> int" where
  "move_commit log [] cp ci = (cp, ci)"
| "move_commit log (i # is) cp ci =
     (if i = 0 \<or> OpNum (log ! nat i) = OpNum (log ! nat (i - 1)) + 1
      then move_commit log is (cp + 1) (ci + 1)
      else move_commit log is cp ci)"

definition appendToLog :: "LManager \<Rightarrow> OpsLogEntry \<Rightarrow> LManager go" where
  "appendToLog lm e =
     (let log = OpsLog lm @ [e]
      in if length log > 1 then
           go_bind (sift_opnum log (length log - 1)) (\<lambda>log'.
             let (cp, ci) = move_commit log' [CommitIndex lm + 1..int (length log') - 1]
                              (CommitPoint lm) (CommitIndex lm)
             in Ret (lm\<lparr>OpsLog := log', CommitPoint := cp, CommitIndex := ci\<rparr>))
         else Ret (lm\<lparr>OpsLog := log\<rparr>))"

subsection \<open>Operations\<close>

text \<open>One tick of \<open>scheduleTimeoutTicker\<close>: write locks whose time is up are deleted.\<close>

definition expire_tick :: "int \<Rightarrow> LManager \<Rightarrow> LManager" where
  "expire_tick t lm =
     lm\<lparr>WLocks := map_option (\<lambda>f k. case f k of
          Some e \<Rightarrow> if wl_timeout e < t \<or> wl_timeout e = t then None else Some e
        | None \<Rightarrow> None) (WLocks lm)\<rparr>"

definition getLockID :: "'w lm_env \<Rightarrow> 'w \<Rightarrow> (string \<times> go_error option) \<times> 'w" where
  "getLockID env w =
     (case envRand env w of
        ((lockID, Some err), w') \<Rightarrow>
          (([], Some (fmt_Errorf ''Error while generating LockID : '' [FErr (error_text err)])), w')
      | ((lockID, None), w') \<Rightarrow> ((hex_encode lockID, None), w'))"

text \<open>
  The replication loop: the entries of the slice in order, nil ones skipped when \<open>skip\<close> holds and
  followed (a panic) otherwise; the first error ends it.
\<close>

fun replicate_to :: "bool \<Rightarrow> (Vnode \<Rightarrow> 'w \<Rightarrow> go_error option \<times> 'w) \<Rightarrow> Vnode option list \<Rightarrow> 'w
    \<Rightarrow> (go_error option \<times> 'w) go" where
  "replicate_to skip send [] w = Ret (None, w)"
| "replicate_to skip send (None # vs) w =
     (if skip then replicate_to skip send vs w else Panic ''nil pointer dereference'')"
| "replicate_to skip send (Some v # vs) w =
     (case send v w of
        (Some err, w') \<Rightarrow> Ret (Some err, w')
      | (None, w') \<Rightarrow> replicate_to skip send vs w')"

text \<open>
  What the four operations share: ask for the successors, then replicate. \<open>ReplFew n\<close>: the lookup
  failed, \<open>n\<close> vnodes came back; \<open>ReplFailed e\<close>: a replica answered with an error.
\<close>

datatype repl_result = ReplFew nat | ReplFailed go_error | ReplOk

definition replicate_op :: "'w lm_env \<Rightarrow> LManager \<Rightarrow> bool \<Rightarrow> (Vnode \<Rightarrow> 'w \<Rightarrow> go_error option \<times> 'w) \<Rightarrow> 'w
    \<Rightarrow> (repl_result \<times> 'w) go" where
  "replicate_op env lm skip send w =
     (case envFindSuccessors env (LMVn lm) NUM_LM_REPLICA (string_bytes (envRingId env)) w of
        ((vnodes, Some err), w1) \<Rightarrow> Ret (ReplFew (length vnodes), w1)
      | ((vnodes, None), w1) \<Rightarrow>
          go_bind (replicate_to skip send vnodes w1) (\<lambda>(err, w2).
            Ret (case err of Some e \<Rightarrow> ReplFailed e | None \<Rightarrow> ReplOk, w2)))"

definition few_successors :: "string \<Rightarrow> fmt_arg list \<Rightarrow> nat \<Rightarrow> go_error" where
  "few_successors s args n =
     BSE (TransientError s (args @ [FInt (int n), FStr '' are available'']))"

text \<open>The composite literal \<open>&OpsLogEntry\{OpNum: lm.currOpNum, ..\}\<close>, after \<open>lm.currOpNum++\<close>.\<close>

definition log_entry :: "LManager \<Rightarrow> string \<Rightarrow> string \<Rightarrow> uint \<Rightarrow> int option \<Rightarrow> RLockEntry option \<Rightarrow> string
    \<Rightarrow> OpsLogEntry" where
  "log_entry lm op k v t cs lockID =
     \<lparr>OpNum = currOpNum lm + 1, Op = op, Key = k, Version = v, Timeout = t, LogCopySet = cs,
      LockId = lockID, LogCommitPoint = CommitPoint lm, Vn = LMVn lm\<rparr>"

text \<open>\<open>createRLock\<close>: the part that runs once the key is known to have a version, then the whole.\<close>

definition grantRLock :: "'w lm_env \<Rightarrow> LManager \<Rightarrow> string \<Rightarrow> uint \<Rightarrow> string \<Rightarrow> string \<Rightarrow> string \<Rightarrow> 'w
    \<Rightarrow> ((string \<times> uint \<times> uint64 \<times> go_error option) \<times> LManager \<times> 'w) go" where
  "grantRLock env lm k version nodeID remoteAddr lockID w =
     (let e = log_entry lm ''READ'' k 0 None (map_get (RLocks lm) k) lockID;
          lm1 = lm\<lparr>currOpNum := currOpNum lm + 1, OpsLog := OpsLog lm @ [e]\<rparr>
      in go_bind (replicate_op env lm True (\<lambda>v. envRLock env v k (String (LMVn lm)) e) w)
           (\<lambda>(res, w'). Ret (case res of
              ReplFew n \<Rightarrow>
                (([], 0, CommitPoint lm, Some (few_successors
                  ''Retry Later. Expected : Atleast 2 successors to the LockManager, but only '' [] n)),
                 lm1, w')
            | ReplFailed _ \<Rightarrow>
                (([], 0, CommitPoint lm, Some (BSE (TransientError
                  ''Retry : Cannot replicate operation to enough replica'' []))), lm1, w')
            | ReplOk \<Rightarrow>
                (let locks = map_make (RLocks lm);
                     old = (case locks k of None \<Rightarrow> [] | Some r \<Rightarrow> CopySet r);
                     cs = AList.update nodeID (lockID, remoteAddr) old
                 in ((lockID, version, CommitPoint lm, None),
                     lm1\<lparr>RLocks := Some (locks(k \<mapsto> \<lparr>CopySet = cs\<rparr>))\<rparr>, w')))))"

definition createRLock :: "'w lm_env \<Rightarrow> LManager \<Rightarrow> string \<Rightarrow> string \<Rightarrow> string \<Rightarrow> OpsLogEntry option \<Rightarrow> 'w
    \<Rightarrow> ((string \<times> uint \<times> uint64 \<times> go_error option) \<times> LManager \<times> 'w) go" where
  "createRLock env lm k nodeID remoteAddr inEntry w =
     (if inEntry \<noteq> None \<and> CurrentLM lm then Ret (([], 0, CommitPoint lm, None), lm, w)
      else if \<not> CurrentLM lm then
        (case inEntry of
           None \<Rightarrow>
             Ret (([], 0, 0, Some (BSE (TransientError
               ''[%s] 500: Retry, RLock request reached the non-Primary Lock Manager''
               [FStr (Host (LMVn lm))]))), lm, w)
         | Some e \<Rightarrow>
             go_bind (appendToLog lm e) (\<lambda>lm'.
               Ret ((LockId e, Version e, CommitPoint lm', None), lm', w)))
      else if verMapHeld lm then Hang
      else if version_of lm k = 0 then
        Ret (([], 0, CommitPoint lm, Some (fmt_Errorf
          ''[%s] ReadLock not possible. Key not present in LM'' [FStr (Host (LMVn lm))])), lm, w)
      else
        (case getLockID env w of
           ((_, Some err), w1) \<Rightarrow> Ret (([], 0, CommitPoint lm, Some err), lm, w1)
         | ((lockID, None), w1) \<Rightarrow> grantRLock env lm k (version_of lm k) nodeID remoteAddr lockID w1))"

definition checkWLock :: "LManager \<Rightarrow> string \<Rightarrow> bool \<times> uint \<times> go_error option" where
  "checkWLock lm k =
     (case map_get (WLocks lm) k of
        None \<Rightarrow> (False, 0, None)
      | Some e \<Rightarrow> (True, wl_version e, None))"

text \<open>\<open>time.Duration(timeout) * time.Second\<close> in 64 bits.\<close>

definition lock_duration :: "uint \<Rightarrow> int" where
  "lock_duration timeout = sint (timeout * 1000000000)"

text \<open>
  \<open>createWLock\<close>: the part that runs once the version is settled, then the whole. The branch of a
  version that is too low returns with \<open>verMapMut\<close> locked. An entry put in the log and taken out
  again on an error is not put there.
\<close>

definition grantWLock :: "'w lm_env \<Rightarrow> LManager \<Rightarrow> string \<Rightarrow> uint \<Rightarrow> uint \<Rightarrow> string \<Rightarrow> string \<Rightarrow> 'w
    \<Rightarrow> ((string \<times> uint \<times> uint \<times> uint64 \<times> go_error option) \<times> LManager \<times> 'w) go" where
  "grantWLock env lm k version timeout nodeID lockID w =
     (let (now, w1) = envNow env w;
          t = now + lock_duration timeout;
          e = log_entry lm ''WRITE'' k version (Some t) None lockID;
          lm1 = lm\<lparr>currOpNum := currOpNum lm + 1\<rparr>
      in go_bind (replicate_op env lm True (\<lambda>v. envWLock env v k version timeout (String (LMVn lm)) e) w1)
           (\<lambda>(res, w'). Ret (case res of
              ReplFew n \<Rightarrow>
                (([], 0, 0, CommitPoint lm, Some (few_successors ''Retry Later. Expected : Atleast ''
                  [FInt NUM_LM_REPLICA, FStr '' successors to the LockManager, but only ''] n)), lm1, w')
            | ReplFailed _ \<Rightarrow>
                (([], 0, 0, CommitPoint lm, Some (BSE (TransientError
                  ''Retry : Cannot replicate operation to enough nodes'' []))), lm1, w')
            | ReplOk \<Rightarrow>
                ((lockID, version, timeout, CommitPoint lm, None),
                 lm1\<lparr>OpsLog := OpsLog lm @ [e],
                     WLocks := Some ((map_make (WLocks lm))(k \<mapsto>
                       \<lparr>wl_nodeID = nodeID, wl_LockID = lockID, wl_version = version,
                        wl_timeout = t\<rparr>))\<rparr>, w'))))"

definition createWLock :: "'w lm_env \<Rightarrow> LManager \<Rightarrow> string \<Rightarrow> uint \<Rightarrow> uint \<Rightarrow> string \<Rightarrow> OpsLogEntry option \<Rightarrow> 'w
    \<Rightarrow> ((string \<times> uint \<times> uint \<times> uint64 \<times> go_error option) \<times> LManager \<times> 'w) go" where
  "createWLock env lm k version timeout nodeID inEntry w =
     (if inEntry \<noteq> None \<and> CurrentLM lm then Ret (([], 0, 0, CommitPoint lm, None), lm, w)
      else if \<not> CurrentLM lm then
        (case inEntry of
           None \<Rightarrow>
             Ret (([], 0, 0, 0, Some (BSE (TransientError
               ''500: Retry, WLock request reached the non-Primary Lock Manager'' []))), lm, w)
         | Some e \<Rightarrow>
             go_bind (appendToLog lm e) (\<lambda>lm'.
               Ret ((LockId e, version, timeout, CommitPoint lm', None), lm', w)))
      else
        (let lm0 = lm\<lparr>WLocks := Some (map_make (WLocks lm)), TimeoutTicker := True\<rparr>;
             (present, heldVersion, _) = checkWLock lm0 k
         in if present then
              Ret (([], heldVersion, 0, CommitPoint lm0, Some (fmt_Errorf
                ''WriteLock not possible. Key is currently being updated'' [])), lm0, w)
            else if verMapHeld lm0 then Hang
            else if version \<le> version_of lm0 k \<and> version \<noteq> 0 then
              Ret (([], version_of lm0 k, 0, CommitPoint lm0, Some (fmt_Errorf
                ''Committed version is higher than requested version'' [])), lm0\<lparr>verMapHeld := True\<rparr>, w)
            else
              (case getLockID env w of
                 ((_, Some err), w1) \<Rightarrow> Ret (([], 0, 0, CommitPoint lm0, Some err), lm0, w1)
               | ((lockID, None), w1) \<Rightarrow>
                   grantWLock env lm0 k
                     (if version \<le> version_of lm0 k then version_of lm0 k + 1 else version)
                     timeout nodeID lockID w1)))"

text \<open>The invalidation of the read locks of a key, one call per member of the copy set.\<close>

fun invalidate_all :: "'w lm_env \<Rightarrow> (string \<times> string \<times> string) list \<Rightarrow> 'w \<Rightarrow> 'w" where
  "invalidate_all env [] w = w"
| "invalidate_all env ((node, lock, addr) # cs) w =
     invalidate_all env cs
       (snd (envInvalidateRLock env \<lparr>Id = string_bytes node, Host = addr\<rparr> lock w))"

text \<open>
  \<open>commitWLock\<close> and \<open>abortWLock\<close>: the part that runs once the lock is known to be held, then the whole.
  The deferred invalidation of the readers is the last thing a commit does.
\<close>

definition applyCommit :: "'w lm_env \<Rightarrow> LManager \<Rightarrow> string \<Rightarrow> uint \<Rightarrow> 'w
    \<Rightarrow> ((uint64 \<times> go_error option) \<times> LManager \<times> 'w) go" where
  "applyCommit env lm k version w =
     (let e = log_entry lm ''COMMIT'' k version None None [];
          lm1 = lm\<lparr>currOpNum := currOpNum lm + 1\<rparr>
      in go_bind (replicate_op env lm True (\<lambda>v. envCommitWLock env v k version (String (LMVn lm)) e) w)
           (\<lambda>(res, w'). case res of
              ReplFew n \<Rightarrow>
                Ret ((CommitPoint lm, Some (few_successors ''Retry Later. Expected : Atleast ''
                  [FInt NUM_LM_REPLICA, FStr '' successors to the LockManager, but only ''] n)), lm1, w')
            | ReplFailed er \<Rightarrow>
                Ret ((CommitPoint lm, Some (BSE (TransientError
                  ''Retry : Operation couldn't be replicated to enough nodes. Got error :  %q''
                  [FErr (error_text er)]))), lm1, w')
            | ReplOk \<Rightarrow>
                if verMapHeld lm then Hang
                else
                  (let lm2 = lm1\<lparr>OpsLog := OpsLog lm @ [e],
                                 VersionMap := Some ((map_make (VersionMap lm))(k \<mapsto> version)),
                                 WLocks := map_delete (WLocks lm) k\<rparr>
                   in if version = 1 then Ret ((CommitPoint lm, None), lm2, w')
                      else Ret ((CommitPoint lm, None), lm2\<lparr>RLocks := map_delete (RLocks lm) k\<rparr>,
                             invalidate_all env
                               (case map_get (RLocks lm) k of None \<Rightarrow> [] | Some r \<Rightarrow> CopySet r) w'))))"

definition commitWLock :: "'w lm_env \<Rightarrow> LManager \<Rightarrow> string \<Rightarrow> uint \<Rightarrow> string \<Rightarrow> OpsLogEntry option \<Rightarrow> 'w
    \<Rightarrow> ((uint64 \<times> go_error option) \<times> LManager \<times> 'w) go" where
  "commitWLock env lm k version nodeID inEntry w =
     (if inEntry \<noteq> None \<and> CurrentLM lm then Ret ((CommitPoint lm, None), lm, w)
      else if \<not> CurrentLM lm then
        (case inEntry of
           None \<Rightarrow>
             Ret ((CommitPoint lm, Some (BSE (TransientError
               ''500: Retry, Commit WLock request reached the non-Primary Lock Manager'' []))), lm, w)
         | Some e \<Rightarrow> go_bind (appendToLog lm e) (\<lambda>lm'. Ret ((CommitPoint lm', None), lm', w)))
      else
        (let (present, ver, _) = checkWLock lm k
         in if \<not> present then
              Ret ((CommitPoint lm, Some (fmt_Errorf ''Lock not available. Cannot commit'' [])), lm, w)
            else if ver \<noteq> version then
              Ret ((CommitPoint lm, Some (fmt_Errorf
                ''Requested version doesn't match with the version locked. Cannot commit'' [])), lm, w)
            else applyCommit env lm k version w))"

definition applyAbort :: "'w lm_env \<Rightarrow> LManager \<Rightarrow> string \<Rightarrow> uint \<Rightarrow> 'w
    \<Rightarrow> ((uint64 \<times> go_error option) \<times> LManager \<times> 'w) go" where
  "applyAbort env lm k version w =
     (let e = log_entry lm ''ABORT'' k version None None [];
          lm1 = lm\<lparr>currOpNum := currOpNum lm + 1\<rparr>
      in go_bind (replicate_op env lm False (\<lambda>v. envAbortWLock env v k version (String (LMVn lm)) e) w)
           (\<lambda>(res, w'). Ret (case res of
              ReplFew n \<Rightarrow>
                ((CommitPoint lm, Some (few_successors ''Retry Later. Expected : Atleast ''
                  [FInt NUM_LM_REPLICA, FStr '' successors to the LockManager, but only ''] n)), lm1, w')
            | ReplFailed _ \<Rightarrow>
                ((CommitPoint lm, Some (BSE (TransientError
                  ''Retry : Operation couldn't be replicated to enough replica'' []))), lm1, w')
            | ReplOk \<Rightarrow>
                ((CommitPoint lm, None),
                 lm1\<lparr>OpsLog := OpsLog lm @ [e], WLocks := map_delete (WLocks lm) k\<rparr>, w'))))"

definition abortWLock :: "'w lm_env \<Rightarrow> LManager \<Rightarrow> string \<Rightarrow> uint \<Rightarrow> string \<Rightarrow> OpsLogEntry option \<Rightarrow> 'w
    \<Rightarrow> ((uint64 \<times> go_error option) \<times> LManager \<times> 'w) go" where
  "abortWLock env lm k version nodeID inEntry w =
     (if inEntry \<noteq> None \<and> CurrentLM lm then Ret ((CommitPoint lm, None), lm, w)
      else if \<not> CurrentLM lm then
        (case inEntry of
           None \<Rightarrow>
             Ret ((CommitPoint lm, Some (BSE (TransientError
               ''500: Retry, Abort WLock request reached the non-Primary Lock Manager'' []))), lm, w)
         | Some e \<Rightarrow> go_bind (appendToLog lm e) (\<lambda>lm'. Ret ((CommitPoint lm', None), lm', w)))
      else
        (let (present, ver, _) = checkWLock lm k
         in if \<not> present then
              Ret ((CommitPoint lm, Some (fmt_Errorf ''Lock not available. Nothing to abort'' [])), lm, w)
            else if ver \<noteq> version then
              Ret ((CommitPoint lm, Some (fmt_Errorf
                ''Requested version doesn't match with the version locked. Cannot abort'' [])), lm, w)
            else applyAbort env lm k version w))"

subsection \<open>Failover\<close>

definition clearLMForReplay :: "LManager \<Rightarrow> LManager" where
  "clearLMForReplay lm =
     lm\<lparr>VersionMap := Some Map.empty, RLocks := Some Map.empty, WLocks := Some Map.empty, currOpNum := 0\<rparr>"

text \<open>One round of the loop of \<open>ReplayLog\<close>.\<close>

definition replay_entry :: "OpsLogEntry \<Rightarrow> LManager \<Rightarrow> LManager" where
  "replay_entry e lm =
     (if Op e = ''WRITE'' then
        lm\<lparr>WLocks := Some ((map_make (WLocks lm))(Key e \<mapsto>
             \<lparr>wl_nodeID = String (Vn e), wl_LockID = LockId e, wl_version = Version e,
              wl_timeout = (case Timeout e of None \<Rightarrow> 0 | Some t \<Rightarrow> t)\<rparr>))\<rparr>
      else if Op e = ''READ'' then
        (let locks = map_make (RLocks lm);
             old = (case locks (Key e) of None \<Rightarrow> [] | Some r \<Rightarrow> CopySet r)
         in lm\<lparr>RLocks := Some (locks(Key e \<mapsto>
              \<lparr>CopySet = AList.update (String (Vn e)) (LockId e, Host (Vn e)) old\<rparr>))\<rparr>)
      else if Op e = ''COMMIT'' then
        lm\<lparr>VersionMap := Some ((map_make (VersionMap lm))(Key e \<mapsto> Version e)),
           WLocks := map_delete (WLocks lm) (Key e)\<rparr>
      else if Op e = ''ABORT'' then
        lm\<lparr>WLocks := map_delete (WLocks lm) (Key e)\<rparr>
      else lm)"

definition ReplayLog :: "LManager \<Rightarrow> LManager" where
  "ReplayLog lm = fold replay_entry (OpsLog lm) (clearLMForReplay lm)"

definition SyncWithSuccessor :: "LManager \<Rightarrow> bool" where
  "SyncWithSuccessor lm = False"

text \<open>
  \<open>CheckStatus\<close>: \<open>lookup\<close> is the result of the lookup of the ring's identifier. The code goes on after
  an error and reads the first vnode of the result, which panics when there is none.
\<close>

definition CheckStatus :: "vnodes_result \<Rightarrow> LManager \<Rightarrow> LManager go" where
  "CheckStatus lookup lm =
     go_bind lookup (\<lambda>(nodes, err).
     go_bind (go_index (case nodes of None \<Rightarrow> [] | Some ns \<Rightarrow> ns) 0) (\<lambda>p.
     go_bind (deref p) (\<lambda>v.
       Ret ((if String (LMVn lm) = String v then lm\<lparr>CurrentLM := True\<rparr> else lm)\<lparr>block := False\<rparr>))))"

text \<open>
  One tick of \<open>ScheduleLMCheckTicker\<close>, which no code starts: a manager that finds itself in charge says so; one
  that is no longer in charge keeps its flag.
\<close>

definition ScheduleLMCheckTicker :: "vnodes_result \<Rightarrow> LManager \<Rightarrow> LManager go" where
  "ScheduleLMCheckTicker lookup lm =
     go_bind lookup (\<lambda>(nodes, err).
       if err \<noteq> None then Ret lm
       else
         go_bind (go_index (case nodes of None \<Rightarrow> [] | Some ns \<Rightarrow> ns) 0) (\<lambda>p.
         go_bind (deref p) (\<lambda>v. Ret (if String (LMVn lm) = String v then lm\<lparr>CurrentLM := True\<rparr> else lm))))"

text \<open>\<open>UpdateVersionMap\<close>: the pairs of the sender's map; writing to a nil map panics.\<close>

definition UpdateVersionMap :: "(string \<times> uint) list \<Rightarrow> LManager \<Rightarrow> LManager go" where
  "UpdateVersionMap versionMap lm =
     (if verMapHeld lm then Hang
      else case VersionMap lm of
             None \<Rightarrow> (if versionMap = [] then Ret lm else Panic ''assignment to entry in nil map'')
           | Some m \<Rightarrow> Ret (lm\<lparr>VersionMap := Some (fold (\<lambda>(k, v) m. m(k \<mapsto> v)) versionMap m)\<rparr>))"

end
