(* ===== verification/Lock_Safety.thy ===== *)
theory Lock_Safety
  imports Lock_Manager
begin

text \<open>
  Safety of the lock manager: the lock table it implements, the effect of every operation of the
  primary on that table and on the log, the primary as a state machine (with failover to a backup
  that holds the log) and the invariant that relates the state to the log. The invariant is proved
  through the interface \<open>invariant_system\<close> of the prelude.
\<close>

subsection \<open>Maps that may be nil\<close>

lemma map_get_simps [simp]:
  "map_get None k = None" "map_get (Some f) k = f k"
  by (simp_all add: map_get_def)

lemma map_get_Some [simp]: "map_get (Some f) = f"
  by (simp add: fun_eq_iff)

lemma map_make_get [simp]: "map_make m = map_get m"
  by (cases m) (auto simp: map_make_def fun_eq_iff)

lemma map_get_delete [simp]: "map_get (map_delete m j) = (map_get m)(j := None)"
  by (cases m) (auto simp: map_delete_def fun_eq_iff)

lemma version_of_simps [simp]:
  "version_of (lm\<lparr>CurrentLM := b\<rparr>) = version_of lm"
  "version_of (lm\<lparr>RLocks := r\<rparr>) = version_of lm"
  "version_of (lm\<lparr>WLocks := wl\<rparr>) = version_of lm"
  "version_of (lm\<lparr>OpsLog := l\<rparr>) = version_of lm"
  "version_of (lm\<lparr>currOpNum := n\<rparr>) = version_of lm"
  "version_of (lm\<lparr>TimeoutTicker := b\<rparr>) = version_of lm"
  "version_of (lm\<lparr>verMapHeld := b\<rparr>) = version_of lm"
  "version_of (lm\<lparr>VersionMap := Some ((map_get m)(k \<mapsto> v))\<rparr>) = (version_of (lm\<lparr>VersionMap := m\<rparr>))(k := v)"
  "version_of (lm\<lparr>VersionMap := Some Map.empty\<rparr>) = (\<lambda>k. 0)"
  by (auto simp: version_of_def fun_eq_iff)

subsection \<open>The lock service, abstractly\<close>

text \<open>
  What a lock service promises to its clients: the committed version of each key, the write lock
  that is held on it and the readers that were given a copy.
\<close>

record lock_table =
  committed :: "string \<Rightarrow> uint"
  held :: "string \<rightharpoonup> WLockEntry"
  readers :: "string \<Rightarrow> (string \<times> string \<times> string) list"

definition lm_readers :: "LManager \<Rightarrow> string \<Rightarrow> (string \<times> string \<times> string) list" where
  "lm_readers lm k = (case map_get (RLocks lm) k of None \<Rightarrow> [] | Some r \<Rightarrow> CopySet r)"

definition lm_abs :: "LManager \<Rightarrow> lock_table" where
  "lm_abs lm = \<lparr>committed = version_of lm, held = map_get (WLocks lm), readers = lm_readers lm\<rparr>"

text \<open>The version a writer gets: the one it asks for, or the next one.\<close>

definition next_version :: "uint \<Rightarrow> uint \<Rightarrow> uint" where
  "next_version c asked = (if asked \<le> c then c + 1 else asked)"

inductive table_step :: "lock_table \<Rightarrow> lock_table \<Rightarrow> bool" where
  table_same: "table_step a a"
| table_read: "committed a k \<noteq> 0 \<Longrightarrow>
    table_step a (a\<lparr>readers := (readers a)(k := AList.update node (lock, addr) (readers a k))\<rparr>)"
| table_write: "held a k = None \<Longrightarrow> asked = 0 \<or> committed a k < asked \<Longrightarrow>
    wl_version e = next_version (committed a k) asked \<Longrightarrow>
    table_step a (a\<lparr>held := (held a)(k \<mapsto> e)\<rparr>)"
| table_commit: "held a k = Some e \<Longrightarrow> wl_version e = v \<Longrightarrow>
    table_step a (a\<lparr>committed := (committed a)(k := v), held := (held a)(k := None),
                    readers := (if v = 1 then readers a else (readers a)(k := []))\<rparr>)"
| table_abort: "held a k = Some e \<Longrightarrow> table_step a (a\<lparr>held := (held a)(k := None)\<rparr>)"
| table_expire: "table_step a (a\<lparr>held := (\<lambda>k. case held a k of None \<Rightarrow> None
      | Some e \<Rightarrow> if wl_timeout e \<le> t then None else Some e)\<rparr>)"

inductive_cases table_stepE: "table_step a b"

subsection \<open>The effect of each operation on the primary\<close>

lemma repl_bindE:
  assumes "go_bind m (\<lambda>(res, w'). f res w') = Ret y"
  obtains (few) n w' where "m = Ret (ReplFew n, w')" "f (ReplFew n) w' = Ret y"
  | (failed) e w' where "m = Ret (ReplFailed e, w')" "f (ReplFailed e) w' = Ret y"
  | (ok) w' where "m = Ret (ReplOk, w')" "f ReplOk w' = Ret y"
proof -
  obtain res w' where m: "m = Ret (res, w')" "f res w' = Ret y"
    using assms by auto
  then show thesis
    by (cases res) (auto intro: few failed ok)
qed

lemma grantRLock_effect:
  assumes "grantRLock env lm k v nodeID addr lid w = Ret ((l, v', cp, err), lm', w')"
  shows "let lm1 = lm\<lparr>currOpNum := currOpNum lm + 1,
                     OpsLog := OpsLog lm @ [log_entry lm ''READ'' k 0 None (map_get (RLocks lm) k) lid]\<rparr> in
    err \<noteq> None \<and> lm' = lm1 \<or>
    err = None \<and> l = lid \<and> v' = v \<and> lm' = lm1\<lparr>RLocks := Some ((map_get (RLocks lm))(k \<mapsto>
       \<lparr>CopySet = AList.update nodeID (lid, addr) (lm_readers lm k)\<rparr>))\<rparr>"
  using assms unfolding grantRLock_def Let_def
  by (elim repl_bindE) (auto simp: lm_readers_def)

lemma grantWLock_effect:
  assumes "grantWLock env lm k v timeout nodeID lid w = Ret ((l, v', to, cp, err), lm', w')"
  shows "err \<noteq> None \<and> lm' = lm\<lparr>currOpNum := currOpNum lm + 1\<rparr> \<or>
     err = None \<and> l = lid \<and> v' = v \<and> to = timeout \<and>
     (\<exists>t. lm' = lm\<lparr>currOpNum := currOpNum lm + 1,
                 OpsLog := OpsLog lm @ [log_entry lm ''WRITE'' k v (Some t) None lid],
                 WLocks := Some ((map_get (WLocks lm))(k \<mapsto>
                   \<lparr>wl_nodeID = nodeID, wl_LockID = lid, wl_version = v, wl_timeout = t\<rparr>))\<rparr>)"
proof -
  obtain now w1 where now: "envNow env w = (now, w1)" by fastforce
  show ?thesis
    using assms unfolding grantWLock_def Let_def now prod.case
    by (elim repl_bindE) auto
qed

lemma applyCommit_effect:
  assumes "applyCommit env lm k v w = Ret ((cp, err), lm', w')"
  shows "err \<noteq> None \<and> lm' = lm\<lparr>currOpNum := currOpNum lm + 1\<rparr> \<or>
     err = None \<and> \<not> verMapHeld lm \<and>
     lm' = lm\<lparr>currOpNum := currOpNum lm + 1,
              OpsLog := OpsLog lm @ [log_entry lm ''COMMIT'' k v None None []],
              VersionMap := Some ((map_get (VersionMap lm))(k \<mapsto> v)),
              WLocks := map_delete (WLocks lm) k,
              RLocks := (if v = 1 then RLocks lm else map_delete (RLocks lm) k)\<rparr>"
  using assms unfolding applyCommit_def Let_def
  by (elim repl_bindE) (auto split: if_splits)

lemma applyAbort_effect:
  assumes "applyAbort env lm k v w = Ret ((cp, err), lm', w')"
  shows "err \<noteq> None \<and> lm' = lm\<lparr>currOpNum := currOpNum lm + 1\<rparr> \<or>
     err = None \<and>
     lm' = lm\<lparr>currOpNum := currOpNum lm + 1,
              OpsLog := OpsLog lm @ [log_entry lm ''ABORT'' k v None None []],
              WLocks := map_delete (WLocks lm) k\<rparr>"
  using assms unfolding applyAbort_def Let_def
  by (elim repl_bindE) (auto)

text \<open>
  What one operation of a primary does to its log: nothing, or one entry with the next number, and
  which entry goes with which change of the lock table.
\<close>

definition logs_nothing :: "LManager \<Rightarrow> LManager \<Rightarrow> bool" where
  "logs_nothing lm lm' \<longleftrightarrow> CurrentLM lm' = CurrentLM lm \<and> OpsLog lm' = OpsLog lm \<and> (currOpNum lm' = currOpNum lm \<or> currOpNum lm' = currOpNum lm + 1)"

definition logs :: "LManager \<Rightarrow> OpsLogEntry \<Rightarrow> LManager \<Rightarrow> bool" where
  "logs lm e lm' \<longleftrightarrow> CurrentLM lm' = CurrentLM lm \<and> OpsLog lm' = OpsLog lm @ [e] \<and> OpNum e = currOpNum lm + 1 \<and> currOpNum lm' = currOpNum lm + 1"

inductive primary_effect :: "LManager \<Rightarrow> LManager \<Rightarrow> bool" for lm lm' where
  eff_same: "logs_nothing lm lm' \<Longrightarrow> lm_abs lm' = lm_abs lm \<Longrightarrow> primary_effect lm lm'"
| eff_read_failed: "logs lm e lm' \<Longrightarrow> Op e = ''READ'' \<Longrightarrow> lm_abs lm' = lm_abs lm \<Longrightarrow> primary_effect lm lm'"
| eff_read: "logs lm e lm' \<Longrightarrow> Op e = ''READ'' \<Longrightarrow> version_of lm k \<noteq> 0 \<Longrightarrow>
    lm_abs lm' = (lm_abs lm)\<lparr>readers := (lm_readers lm)(k := AList.update node (lock, addr) (lm_readers lm k))\<rparr> \<Longrightarrow>
    primary_effect lm lm'"
| eff_write: "logs lm e lm' \<Longrightarrow> Op e = ''WRITE'' \<Longrightarrow> map_get (WLocks lm) (Key e) = None \<Longrightarrow>
    asked = 0 \<or> version_of lm (Key e) < asked \<Longrightarrow> Version e = next_version (version_of lm (Key e)) asked \<Longrightarrow>
    Timeout e = Some t \<Longrightarrow>
    lm_abs lm' = (lm_abs lm)\<lparr>held := (map_get (WLocks lm))(Key e \<mapsto>
      \<lparr>wl_nodeID = node, wl_LockID = LockId e, wl_version = Version e, wl_timeout = t\<rparr>)\<rparr> \<Longrightarrow>
    primary_effect lm lm'"
| eff_commit: "logs lm e lm' \<Longrightarrow> Op e = ''COMMIT'' \<Longrightarrow> map_get (WLocks lm) (Key e) = Some l \<Longrightarrow>
    wl_version l = Version e \<Longrightarrow>
    lm_abs lm' = \<lparr>committed = (version_of lm)(Key e := Version e),
                  held = (map_get (WLocks lm))(Key e := None),
                  readers = (if Version e = 1 then lm_readers lm else (lm_readers lm)(Key e := []))\<rparr> \<Longrightarrow>
    primary_effect lm lm'"
| eff_abort: "logs lm e lm' \<Longrightarrow> Op e = ''ABORT'' \<Longrightarrow> map_get (WLocks lm) (Key e) = Some l \<Longrightarrow>
    lm_abs lm' = (lm_abs lm)\<lparr>held := (map_get (WLocks lm))(Key e := None)\<rparr> \<Longrightarrow> primary_effect lm lm'"
| eff_expire: "logs_nothing lm lm' \<Longrightarrow>
    lm_abs lm' = (lm_abs lm)\<lparr>held := (\<lambda>k. case map_get (WLocks lm) k of None \<Rightarrow> None
      | Some e \<Rightarrow> if wl_timeout e \<le> t then None else Some e)\<rparr> \<Longrightarrow> primary_effect lm lm'"

lemma lm_readers_simps [simp]:
  "lm_readers (lm\<lparr>WLocks := wl\<rparr>) = lm_readers lm"
  "lm_readers (lm\<lparr>VersionMap := vm\<rparr>) = lm_readers lm"
  "lm_readers (lm\<lparr>OpsLog := l\<rparr>) = lm_readers lm"
  "lm_readers (lm\<lparr>currOpNum := n\<rparr>) = lm_readers lm"
  "lm_readers (lm\<lparr>TimeoutTicker := b\<rparr>) = lm_readers lm"
  "lm_readers (lm\<lparr>verMapHeld := b\<rparr>) = lm_readers lm"
  "lm_readers (lm\<lparr>RLocks := Some ((map_get r)(k \<mapsto> e))\<rparr>) = (lm_readers (lm\<lparr>RLocks := r\<rparr>))(k := CopySet e)"
  "lm_readers (lm\<lparr>RLocks := map_delete r k\<rparr>) = (lm_readers (lm\<lparr>RLocks := r\<rparr>))(k := [])"
  by (auto simp: lm_readers_def fun_eq_iff)

lemma log_entry_simps [simp]:
  "OpNum (log_entry lm op k v t cs lid) = currOpNum lm + 1"
  "Op (log_entry lm op k v t cs lid) = op"
  "Key (log_entry lm op k v t cs lid) = k"
  "Version (log_entry lm op k v t cs lid) = v"
  "Timeout (log_entry lm op k v t cs lid) = t"
  "LockId (log_entry lm op k v t cs lid) = lid"
  "Vn (log_entry lm op k v t cs lid) = LMVn lm"
  by (simp_all add: log_entry_def)

lemmas eff_defs = logs_nothing_def logs_def lm_abs_def

lemma grantRLock_primary:
  assumes "grantRLock env lm k v nodeID addr lid w = Ret ((l, v', cp, err), lm', w')" "version_of lm k \<noteq> 0"
  shows "primary_effect lm lm'"
proof -
  let ?e = "log_entry lm ''READ'' k 0 None (map_get (RLocks lm) k) lid"
  consider "lm' = lm\<lparr>currOpNum := currOpNum lm + 1, OpsLog := OpsLog lm @ [?e]\<rparr>"
    | "lm' = lm\<lparr>currOpNum := currOpNum lm + 1, OpsLog := OpsLog lm @ [?e],
           RLocks := Some ((map_get (RLocks lm))(k \<mapsto> \<lparr>CopySet = AList.update nodeID (lid, addr) (lm_readers lm k)\<rparr>))\<rparr>"
    using grantRLock_effect[OF assms(1)] by (auto simp: Let_def)
  then show ?thesis
  proof cases
    case 1
    then show ?thesis by (intro eff_read_failed[where e = ?e]) (auto simp: eff_defs)
  next
    case 2
    then show ?thesis using assms(2) by (intro eff_read[where e = ?e and k = k and node = nodeID and lock = lid and addr = addr]) (auto simp: eff_defs)
  qed
qed

lemma grantWLock_primary:
  assumes "grantWLock env lm k ver timeout nodeID lid w = Ret ((l, v', to, cp, err), lm', w')"
    and "ver = next_version (version_of lm k) asked" "map_get (WLocks lm) k = None" "asked = 0 \<or> version_of lm k < asked"
  shows "primary_effect lm lm'"
  using grantWLock_effect[OF assms(1)]
proof (elim disjE conjE exE)
  assume "lm' = lm\<lparr>currOpNum := currOpNum lm + 1\<rparr>"
  then show ?thesis by (intro eff_same) (auto simp: eff_defs)
next
  fix t
  let ?e = "log_entry lm ''WRITE'' k ver (Some t) None lid"
  assume "lm' = lm\<lparr>currOpNum := currOpNum lm + 1, OpsLog := OpsLog lm @ [?e],
     WLocks := Some ((map_get (WLocks lm))(k \<mapsto>
        \<lparr>wl_nodeID = nodeID, wl_LockID = lid, wl_version = ver, wl_timeout = t\<rparr>))\<rparr>"
  then show ?thesis using assms(2-)
    by (intro eff_write[where e = ?e and asked = asked and t = t and node = nodeID]) (auto simp: eff_defs)
qed

lemma applyCommit_primary:
  assumes "applyCommit env lm k v w = Ret ((cp, err), lm', w')" "map_get (WLocks lm) k = Some l" "wl_version l = v"
  shows "primary_effect lm lm'"
  using applyCommit_effect[OF assms(1)]
proof (elim disjE conjE exE)
  assume "lm' = lm\<lparr>currOpNum := currOpNum lm + 1\<rparr>"
  then show ?thesis by (intro eff_same) (auto simp: eff_defs)
next
  let ?e = "log_entry lm ''COMMIT'' k v None None []"
  assume "lm' = lm\<lparr>currOpNum := currOpNum lm + 1, OpsLog := OpsLog lm @ [?e],
     VersionMap := Some ((map_get (VersionMap lm))(k \<mapsto> v)), WLocks := map_delete (WLocks lm) k,
     RLocks := (if v = 1 then RLocks lm else map_delete (RLocks lm) k)\<rparr>"
  then show ?thesis using assms(2,3)
    by (intro eff_commit[where e = ?e and l = l]) (auto simp: eff_defs)
qed

lemma applyAbort_primary:
  assumes "applyAbort env lm k v w = Ret ((cp, err), lm', w')" "map_get (WLocks lm) k = Some l"
  shows "primary_effect lm lm'"
  using applyAbort_effect[OF assms(1)]
proof (elim disjE conjE exE)
  assume "lm' = lm\<lparr>currOpNum := currOpNum lm + 1\<rparr>"
  then show ?thesis by (intro eff_same) (auto simp: eff_defs)
next
  let ?e = "log_entry lm ''ABORT'' k v None None []"
  assume "lm' = lm\<lparr>currOpNum := currOpNum lm + 1, OpsLog := OpsLog lm @ [?e], WLocks := map_delete (WLocks lm) k\<rparr>"
  then show ?thesis using assms(2)
    by (intro eff_abort[where e = ?e and l = l]) (auto simp: eff_defs)
qed

text \<open>The operations as the server runs them.\<close>

lemma createRLock_primary:
  assumes "CurrentLM lm" "createRLock env lm k nodeID addr inEntry w = Ret ((l, v, cp, err), lm', w')"
  shows "primary_effect lm lm'"
  using assms unfolding createRLock_def
  by (auto simp: eff_defs split: if_splits prod.splits option.splits intro: grantRLock_primary eff_same)

lemma primary_effect_cong:
  assumes "primary_effect lm0 lm'"
    and "version_of lm0 = version_of lm" "map_get (WLocks lm0) = map_get (WLocks lm)"
      "lm_readers lm0 = lm_readers lm" "OpsLog lm0 = OpsLog lm" "currOpNum lm0 = currOpNum lm" "CurrentLM lm0 = CurrentLM lm"
  shows "primary_effect lm lm'"
proof -
  have abs: "lm_abs lm0 = lm_abs lm" and "logs lm0 = logs lm" "logs_nothing lm0 = logs_nothing lm"
    using assms(2-) by (auto simp: lm_abs_def logs_def logs_nothing_def fun_eq_iff)
  with assms(1) show ?thesis
    unfolding primary_effect.simps[of lm0] primary_effect.simps[of lm] assms(2-) abs by simp
qed

lemma createWLock_primary:
  assumes "CurrentLM lm" "createWLock env lm k asked timeout nodeID inEntry w = Ret ((l, v, to, cp, err), lm', w')"
  shows "primary_effect lm lm'"
proof -
  define lm0 where "lm0 = lm\<lparr>WLocks := Some (map_get (WLocks lm)), TimeoutTicker := True\<rparr>"
  have lm0: "version_of lm0 = version_of lm" "map_get (WLocks lm0) = map_get (WLocks lm)"
      "lm_readers lm0 = lm_readers lm" "OpsLog lm0 = OpsLog lm" "currOpNum lm0 = currOpNum lm" "CurrentLM lm0 = CurrentLM lm"
    by (simp_all add: lm0_def)
  have same: "primary_effect lm0 lm0" "primary_effect lm0 (lm0\<lparr>verMapHeld := True\<rparr>)" "primary_effect lm lm"
    by (auto intro!: eff_same simp: eff_defs)
  have "primary_effect lm0 lm' \<or> lm' = lm"
    using assms same unfolding createWLock_def checkWLock_def
    by (auto simp: lm0_def[symmetric] Let_def next_version_def
        split: if_splits option.splits prod.splits intro: grantWLock_primary[where asked = asked])
  then show ?thesis
    using primary_effect_cong[OF _ lm0] same by blast
qed

lemma commitWLock_primary:
  assumes "CurrentLM lm" "commitWLock env lm k v nodeID inEntry w = Ret ((cp, err), lm', w')"
  shows "primary_effect lm lm'"
  using assms unfolding commitWLock_def checkWLock_def
  by (auto simp: eff_defs split: if_splits option.splits intro: applyCommit_primary eff_same)

lemma abortWLock_primary:
  assumes "CurrentLM lm" "abortWLock env lm k v nodeID inEntry w = Ret ((cp, err), lm', w')"
  shows "primary_effect lm lm'"
  using assms unfolding abortWLock_def checkWLock_def
  by (auto simp: eff_defs split: if_splits option.splits intro: applyAbort_primary eff_same)

lemma expire_tick_primary: "primary_effect lm (expire_tick t lm)"
proof (rule eff_expire[where t = t])
  show "logs_nothing lm (expire_tick t lm)" by (simp add: logs_nothing_def expire_tick_def)
  show "lm_abs (expire_tick t lm) = (lm_abs lm)\<lparr>held := (\<lambda>k. case map_get (WLocks lm) k of None \<Rightarrow> None
      | Some e \<Rightarrow> if wl_timeout e \<le> t then None else Some e)\<rparr>"
    by (cases "WLocks lm") (auto simp: lm_abs_def expire_tick_def fun_eq_iff split: option.splits)
qed

subsection \<open>The primary as a state machine\<close>

text \<open>
  The requests a primary answers and the ticks of its timer. A request that panics or blocks has no
  next state. \<open>currOpNum lm \<noteq> - 1\<close>: the 64-bit operation counter has not reached its end.
\<close>

inductive lm_step :: "'w lm_env \<Rightarrow> LManager \<times> 'w \<Rightarrow> LManager \<times> 'w \<Rightarrow> bool" for env where
  step_rlock: "currOpNum lm \<noteq> - 1 \<Longrightarrow> createRLock env lm k nodeID addr inEntry w = Ret (out, lm', w') \<Longrightarrow>
    lm_step env (lm, w) (lm', w')"
| step_wlock: "currOpNum lm \<noteq> - 1 \<Longrightarrow>
    createWLock env lm k version timeout nodeID inEntry w = Ret (out, lm', w') \<Longrightarrow>
    lm_step env (lm, w) (lm', w')"
| step_commit: "currOpNum lm \<noteq> - 1 \<Longrightarrow> commitWLock env lm k version nodeID inEntry w = Ret (out, lm', w') \<Longrightarrow>
    lm_step env (lm, w) (lm', w')"
| step_abort: "currOpNum lm \<noteq> - 1 \<Longrightarrow> abortWLock env lm k version nodeID inEntry w = Ret (out, lm', w') \<Longrightarrow>
    lm_step env (lm, w) (lm', w')"
| step_tick: "lm_step env (lm, w) (expire_tick t lm, w)"

text \<open>A backup that holds the whole log takes over: it replays the log and becomes the primary.\<close>

definition failover :: "LManager \<Rightarrow> LManager \<Rightarrow> bool" where
  "failover lm lm' \<longleftrightarrow> (\<exists>b. OpsLog b = OpsLog lm \<and> lm' = (ReplayLog b)\<lparr>CurrentLM := True\<rparr>)"

definition service_step :: "'w lm_env \<Rightarrow> LManager \<times> 'w \<Rightarrow> LManager \<times> 'w \<Rightarrow> bool" where
  "service_step env s s' \<longleftrightarrow> lm_step env s s' \<or> failover (fst s) (fst s') \<and> snd s' = snd s"

definition lm_fresh :: "LManager \<times> 'w \<Rightarrow> bool" where
  "lm_fresh s \<longleftrightarrow> (\<exists>vn b. fst s = (ReplayLog (newLManager vn b))\<lparr>CurrentLM := True\<rparr>)"

lemma lm_step_effect:
  assumes "lm_step env s s'" "CurrentLM (fst s)"
  shows "primary_effect (fst s) (fst s')"
  using assms
  by (induction rule: lm_step.induct)
    (auto intro: createRLock_primary createWLock_primary commitWLock_primary abortWLock_primary expire_tick_primary)

lemma primary_effect_CurrentLM: "primary_effect lm lm' \<Longrightarrow> CurrentLM lm' = CurrentLM lm"
  by (induction rule: primary_effect.induct) (auto simp: logs_def logs_nothing_def)

subsection \<open>Replay\<close>

text \<open>Only the log matters for what a replay builds.\<close>

lemma replay_fold_OpsLog [simp]: "OpsLog (fold replay_entry es lm) = OpsLog lm"
  by (induction es arbitrary: lm) (auto simp: replay_entry_def Let_def)

lemma replay_entry_view:
  "version_of (replay_entry e lm) =
     (if Op e = ''COMMIT'' then (version_of lm)(Key e := Version e) else version_of lm)"
  "map_get (WLocks (replay_entry e lm)) =
     (if Op e = ''WRITE'' then (map_get (WLocks lm))(Key e \<mapsto>
         \<lparr>wl_nodeID = String (Vn e), wl_LockID = LockId e, wl_version = Version e,
          wl_timeout = (case Timeout e of None \<Rightarrow> 0 | Some t \<Rightarrow> t)\<rparr>)
      else if Op e = ''COMMIT'' \<or> Op e = ''ABORT'' then (map_get (WLocks lm))(Key e := None)
      else map_get (WLocks lm))"
  by (auto simp: replay_entry_def Let_def)

lemma replay_fold_cong:
  assumes "version_of a = version_of b" "map_get (WLocks a) = map_get (WLocks b)"
  shows "version_of (fold replay_entry es a) = version_of (fold replay_entry es b) \<and>
         map_get (WLocks (fold replay_entry es a)) = map_get (WLocks (fold replay_entry es b))"
  using assms
proof (induction es arbitrary: a b)
  case (Cons e es)
  then show ?case by (simp add: replay_entry_view del: fun_upd_apply)
qed simp

lemma clear_view:
  "version_of (clearLMForReplay lm) = (\<lambda>k. 0)" "map_get (WLocks (clearLMForReplay lm)) = Map.empty"
  by (auto simp: clearLMForReplay_def)

definition replay_versions :: "OpsLogEntry list \<Rightarrow> string \<Rightarrow> uint" where
  "replay_versions log = version_of (fold replay_entry log (clearLMForReplay (newLManager \<lparr>Id = [], Host = []\<rparr> False)))"

definition replay_held :: "OpsLogEntry list \<Rightarrow> string \<rightharpoonup> WLockEntry" where
  "replay_held log = map_get (WLocks (fold replay_entry log (clearLMForReplay (newLManager \<lparr>Id = [], Host = []\<rparr> False))))"

lemma ReplayLog_view:
  "version_of (ReplayLog lm) = replay_versions (OpsLog lm)"
  "map_get (WLocks (ReplayLog lm)) = replay_held (OpsLog lm)"
  unfolding replay_versions_def replay_held_def ReplayLog_def
  by (rule replay_fold_cong[THEN conjunct1] replay_fold_cong[THEN conjunct2]; simp add: clear_view)+

lemma replay_versions_simps:
  "replay_versions [] = (\<lambda>k. 0)"
  "replay_versions (log @ [e]) =
     (if Op e = ''COMMIT'' then (replay_versions log)(Key e := Version e) else replay_versions log)"
  by (simp_all add: replay_versions_def clear_view replay_entry_view)

lemma replay_held_simps:
  "replay_held [] = Map.empty"
  "replay_held (log @ [e]) =
     (if Op e = ''WRITE'' then (replay_held log)(Key e \<mapsto>
         \<lparr>wl_nodeID = String (Vn e), wl_LockID = LockId e, wl_version = Version e,
          wl_timeout = (case Timeout e of None \<Rightarrow> 0 | Some t \<Rightarrow> t)\<rparr>)
      else if Op e = ''COMMIT'' \<or> Op e = ''ABORT'' then (replay_held log)(Key e := None)
      else replay_held log)"
  by (simp_all add: replay_held_def clear_view replay_entry_view)

lemma OpsLog_ReplayLog [simp]: "OpsLog (ReplayLog lm) = OpsLog lm"
  by (simp add: ReplayLog_def clearLMForReplay_def)

subsection \<open>The invariant of the service\<close>

text \<open>Equal up to the node that the entry names: the log does not record the client.\<close>

definition same_lock :: "WLockEntry \<Rightarrow> WLockEntry \<Rightarrow> bool" where
  "same_lock a b \<longleftrightarrow> wl_LockID a = wl_LockID b \<and> wl_version a = wl_version b \<and> wl_timeout a = wl_timeout b"

definition newer :: "uint \<Rightarrow> uint \<Rightarrow> bool" where
  "newer c v \<longleftrightarrow> c < v \<or> c = - 1 \<and> v = 0"

definition lm_inv :: "LManager \<times> 'w \<Rightarrow> bool" where
  "lm_inv s \<longleftrightarrow> (let lm = fst s in
     CurrentLM lm \<and>
     version_of lm = replay_versions (OpsLog lm) \<and>
     (\<forall>k l. map_get (WLocks lm) k = Some l \<longrightarrow> (\<exists>l'. replay_held (OpsLog lm) k = Some l' \<and> same_lock l l')) \<and>
     (\<forall>k l. replay_held (OpsLog lm) k = Some l \<longrightarrow> newer (version_of lm k) (wl_version l)))"

lemma next_version_newer: "asked = 0 \<or> c < asked \<Longrightarrow> newer c (next_version c asked)"
  using word_less_Suc[of c] by (cases "c = - 1") (auto simp: newer_def next_version_def)

lemma lm_abs_eqD:
  assumes "lm_abs lm = t"
  shows "version_of lm = committed t" "map_get (WLocks lm) = held t" "lm_readers lm = readers t"
  using assms by (auto simp: lm_abs_def)

lemma lm_inv_effect:
  assumes "primary_effect (fst s) (fst s')" "lm_inv s"
  shows "lm_inv s'"
  using assms(1)
proof cases
  case eff_same
  then show ?thesis using assms(2) lm_abs_eqD[OF eff_same(2)]
    by (auto simp: lm_inv_def Let_def logs_nothing_def lm_abs_def)
next
  case (eff_read_failed e)
  then show ?thesis using assms(2) lm_abs_eqD[OF eff_read_failed(3)]
    by (auto simp: lm_inv_def Let_def logs_def lm_abs_def replay_versions_simps replay_held_simps)
next
  case (eff_read e k node lock addr)
  then show ?thesis using assms(2) lm_abs_eqD[OF eff_read(4)]
    by (auto simp: lm_inv_def Let_def logs_def lm_abs_def replay_versions_simps replay_held_simps)
next
  case (eff_write e asked t node)
  then show ?thesis using assms(2) lm_abs_eqD[OF eff_write(7)] next_version_newer[OF eff_write(4)]
    by (auto simp: lm_inv_def Let_def logs_def lm_abs_def replay_versions_simps replay_held_simps same_lock_def)
next
  case (eff_commit e l)
  then show ?thesis using assms(2) lm_abs_eqD[OF eff_commit(5)]
    by (auto simp: lm_inv_def Let_def logs_def lm_abs_def replay_versions_simps replay_held_simps)
next
  case (eff_abort e l)
  then show ?thesis using assms(2) lm_abs_eqD[OF eff_abort(4)]
    by (auto simp: lm_inv_def Let_def logs_def lm_abs_def replay_versions_simps replay_held_simps)
next
  case (eff_expire t)
  then show ?thesis using assms(2) lm_abs_eqD[OF eff_expire(2)]
    by (auto simp: lm_inv_def Let_def logs_nothing_def lm_abs_def split: option.splits if_splits)
qed

lemma lm_inv_failover:
  assumes "failover (fst s) (fst s')" "lm_inv s"
  shows "lm_inv s'"
  using assms by (auto simp: failover_def lm_inv_def Let_def ReplayLog_view same_lock_def)

interpretation lm_service: invariant_system lm_fresh "service_step env" lm_inv for env :: "'w lm_env"
proof
  fix s :: "LManager \<times> 'w"
  assume "lm_fresh s"
  then show "lm_inv s"
    by (auto simp: lm_fresh_def lm_inv_def Let_def ReplayLog_view newLManager_def replay_versions_simps replay_held_simps)
next
  fix s t :: "LManager \<times> 'w"
  assume inv: "lm_inv s" and "service_step env s t"
  then consider "lm_step env s t" | "failover (fst s) (fst t)"
    by (auto simp: service_step_def)
  then show "lm_inv t"
  proof cases
    case 1
    have "CurrentLM (fst s)" using inv by (simp add: lm_inv_def Let_def)
    then show ?thesis using lm_inv_effect[OF lm_step_effect[OF 1] inv] by blast
  next
    case 2
    then show ?thesis using inv by (rule lm_inv_failover)
  qed
qed

lemma primary_effect_table: "primary_effect lm lm' \<Longrightarrow> table_step (lm_abs lm) (lm_abs lm')"
proof (induction rule: primary_effect.induct)
  case eff_same
  then show ?case by (simp add: table_same)
next
  case (eff_read_failed e)
  then show ?case by (simp add: table_same)
next
  case (eff_read e k node lock addr)
  then show ?case using table_read[of "lm_abs lm" k node lock addr] by (simp add: lm_abs_def)
next
  case (eff_write e asked t node)
  then show ?case
    using table_write[of "lm_abs lm" "Key e" asked 
      "\<lparr>wl_nodeID = node, wl_LockID = LockId e, wl_version = Version e, wl_timeout = t\<rparr>"]
    by (simp add: lm_abs_def)
next
  case (eff_commit e l)
  then show ?case using table_commit[of "lm_abs lm" "Key e" l "Version e"]
    by (cases "Version e = 1") (simp_all add: lm_abs_def)
next
  case (eff_abort e l)
  then show ?case using table_abort[of "lm_abs lm" "Key e" l] by (simp add: lm_abs_def)
next
  case (eff_expire t)
  then show ?case using table_expire[of "lm_abs lm" t] by (simp add: lm_abs_def)
qed

end
