(* ===== verification/Lock_Theorems.thy ===== *)
theory Lock_Theorems
  imports Lock_Safety
begin

text \<open>
  The theorems about the lock manager: what clients and backups can rely on, each with an example at
  which its hypotheses hold, and the places where the code departs from it (a mutex that stays
  locked, a replica that is nil, a log entry that comes late).
\<close>

subsection \<open>The log of a backup\<close>

lemma sift_opnum_in_order:
  assumes "log \<noteq> []" "OpNum (last log) < OpNum e"
  shows "sift_opnum (log @ [e]) (length log) = Ret (log @ [e])"
proof -
  obtain i where i: "length log = Suc i" using assms(1) by (cases log) auto
  have "(log @ [e]) ! Suc i = e" "(log @ [e]) ! i = last log"
    using i assms(1) by (auto simp: nth_append last_conv_nth)
  then show ?thesis using assms(2) i by auto
qed

lemma appendToLog_in_order:
  assumes "OpsLog lm = [] \<or> OpNum (last (OpsLog lm)) < OpNum e"
  shows "\<exists>lm'. appendToLog lm e = Ret lm' \<and> OpsLog lm' = OpsLog lm @ [e]"
  using assms sift_opnum_in_order[of "OpsLog lm" e]
  by (cases "OpsLog lm = []") (auto simp: appendToLog_def Let_def split: prod.splits)

text \<open>A backup that receives a list of entries, one after the other.\<close>

fun append_all :: "OpsLogEntry list \<Rightarrow> LManager \<Rightarrow> LManager go" where
  "append_all [] lm = Ret lm"
| "append_all (e # es) lm = go_bind (appendToLog lm e) (append_all es)"

lemma append_all_in_order:
  assumes "sorted_wrt (\<lambda>a b. OpNum a < OpNum b) (OpsLog lm @ es)"
  shows "\<exists>lm'. append_all es lm = Ret lm' \<and> OpsLog lm' = OpsLog lm @ es"
  using assms
proof (induction es arbitrary: lm)
  case (Cons e es)
  have "OpsLog lm = [] \<or> OpNum (last (OpsLog lm)) < OpNum e"
    using Cons.prems last_in_set[of "OpsLog lm"] by (cases "OpsLog lm = []") (auto simp: sorted_wrt_append)
  then obtain lm1 where lm1: "appendToLog lm e = Ret lm1" "OpsLog lm1 = OpsLog lm @ [e]"
    using appendToLog_in_order by blast
  then show ?case using Cons.IH[of lm1] Cons.prems by auto
qed simp

lemma sift_opnum_smallest:
  assumes "j < length log" "\<forall>i < j. OpNum (log ! j) < OpNum (log ! i)"
  shows "sift_opnum log j = Panic ''index out of range''"
  using assms
proof (induction log j rule: sift_opnum.induct)
  case (2 log i)
  let ?log = "log[Suc i := (log ! Suc i)\<lparr>OpNum := OpNum (log ! i)\<rparr>, i := (log ! i)\<lparr>OpNum := OpNum (log ! Suc i)\<rparr>]"
  have "OpNum (?log ! i) = OpNum (log ! Suc i)" "\<And>m. m < i \<Longrightarrow> ?log ! m = log ! m"
    using 2(2) by auto
  then have "sift_opnum ?log i = Panic ''index out of range''"
    using 2 by (intro 2(1)) auto
  then show ?case using 2(3) by simp
qed simp

subsection \<open>Logs of the primary are sorted\<close>

definition log_sorted :: "LManager \<times> 'w \<Rightarrow> bool" where
  "log_sorted s \<longleftrightarrow> CurrentLM (fst s) \<and> sorted_wrt (\<lambda>a b. OpNum a < OpNum b) (OpsLog (fst s)) \<and>
     (\<forall>e \<in> set (OpsLog (fst s)). OpNum e \<le> currOpNum (fst s))"

lemma log_sorted_effect:
  assumes "primary_effect (fst s) (fst s')" "log_sorted s" "currOpNum (fst s) \<noteq> - 1"
  shows "log_sorted s'"
proof -
  have lt: "currOpNum (fst s) < currOpNum (fst s) + 1" using assms(3) by (rule word_less_Suc)
  have "(logs_nothing (fst s) (fst s')) \<or> (\<exists>e. logs (fst s) e (fst s'))"
    using assms(1) by cases auto
  then show ?thesis
  proof
    assume "logs_nothing (fst s) (fst s')"
    then show ?thesis using assms(2) lt by (auto simp: log_sorted_def logs_nothing_def)
  next
    assume "\<exists>e. logs (fst s) e (fst s')"
    then show ?thesis using assms(2) lt
      by (fastforce simp: log_sorted_def logs_def sorted_wrt_append)
  qed
qed

lemma log_sorted_tick: "log_sorted (lm, w) \<Longrightarrow> log_sorted (expire_tick t lm, w)"
  by (simp add: log_sorted_def expire_tick_def)

interpretation lm_primary: invariant_system lm_fresh "lm_step env" log_sorted for env :: "'w lm_env"
proof
  fix s :: "LManager \<times> 'w"
  assume "lm_fresh s"
  then show "log_sorted s" by (auto simp: lm_fresh_def log_sorted_def newLManager_def)
next
  fix s t :: "LManager \<times> 'w"
  assume "log_sorted s" and st: "lm_step env s t"
  moreover have "CurrentLM (fst s)" using \<open>log_sorted s\<close> by (simp add: log_sorted_def)
  moreover have "currOpNum (fst s) \<noteq> - 1 \<or> (\<exists>t'. fst t = expire_tick t' (fst s) \<and> snd t = snd s)"
    using st by cases auto
  ultimately show "log_sorted t"
    using log_sorted_effect[OF lm_step_effect[OF st]] log_sorted_tick[of "fst s" "snd s"]
    by (metis prod.collapse)
qed

lemma reachable_mono:
  assumes "reachable init st s" "\<And>s t. st s t \<Longrightarrow> st' s t"
  shows "reachable init st' s"
  using assms(1) by (induction rule: reachable.induct) (auto intro: reachable.intros assms(2))

subsection \<open>Versions\<close>

lemma effect_versions:
  assumes "primary_effect (fst s) (fst s')" "lm_inv s"
  shows "version_of (fst s') k = version_of (fst s) k \<or> newer (version_of (fst s) k) (version_of (fst s') k)"
  using assms(1)
proof cases
  case (eff_commit e l)
  have "newer (version_of (fst s) (Key e)) (Version e)"
    using assms(2) eff_commit(3,4) by (fastforce simp: lm_inv_def Let_def same_lock_def)
  then show ?thesis using lm_abs_eqD(1)[OF eff_commit(5)] by auto
qed (auto dest: lm_abs_eqD(1) simp: lm_abs_def)

lemma step_versions:
  assumes "service_step env s s'" "lm_inv s"
  shows "version_of (fst s') k = version_of (fst s) k \<or> newer (version_of (fst s) k) (version_of (fst s') k)"
proof -
  have "CurrentLM (fst s)" using assms(2) by (simp add: lm_inv_def Let_def)
  then show ?thesis
    using assms effect_versions[OF lm_step_effect assms(2), of env s'] 
    by (auto simp: service_step_def failover_def ReplayLog_view lm_inv_def Let_def)
qed


lemma run_versions:
  assumes "(service_step env)\<^sup>*\<^sup>* s s'" "lm_inv s"
  shows "version_of (fst s) k \<le> version_of (fst s') k \<or>
    (\<exists>t. (service_step env)\<^sup>*\<^sup>* s t \<and> (service_step env)\<^sup>*\<^sup>* t s' \<and> version_of (fst t) k = - 1)"
  using assms
proof (induction rule: rtranclp_induct)
  case (step t u)
  have "lm_inv t" using step.hyps(1) step.prems by (rule lm_service.inv_rtranclp)
  from step_versions[OF step.hyps(2) this, of k]
  consider "version_of (fst t) k \<le> version_of (fst u) k" | "version_of (fst t) k = - 1"
    by (auto simp: newer_def)
  then show ?case
  proof cases
    case 1
    with step.IH[OF step.prems] step.hyps show ?thesis
      by (meson order_trans rtranclp.rtrancl_into_rtrancl)
  next
    case 2
    with step.hyps show ?thesis by blast
  qed
qed simp

subsection \<open>When the replicas answer\<close>

text \<open>The transport finds the replicas \<open>vs\<close>, every replica accepts, and the random source works.\<close>

definition replicas_accept :: "'w lm_env \<Rightarrow> Vnode option list \<Rightarrow> bool" where
  "replicas_accept env vs \<longleftrightarrow>
     (\<forall>v n k w. fst (envFindSuccessors env v n k w) = (vs, None)) \<and>
     (\<forall>v k n e w. fst (envRLock env v k n e w) = None) \<and>
     (\<forall>v k ver t n e w. fst (envWLock env v k ver t n e w) = None) \<and>
     (\<forall>v k ver n e w. fst (envCommitWLock env v k ver n e w) = None) \<and>
     (\<forall>v k ver n e w. fst (envAbortWLock env v k ver n e w) = None) \<and>
     (\<forall>w. snd (fst (envRand env w)) = None)"

lemma replicas_acceptD:
  assumes "replicas_accept env vs"
  shows "fst (envRLock env v k n e w) = None" "fst (envWLock env v k ver t n e w) = None"
    "fst (envCommitWLock env v k ver n e w) = None" "fst (envAbortWLock env v k ver n e w) = None"
  using assms by (auto simp: replicas_accept_def)

lemma replicate_to_ok:
  assumes "\<And>v w. fst (send v w) = None"
  shows "\<exists>w'. replicate_to True send vs w = Ret (None, w')"
proof (induction vs arbitrary: w)
  case (Cons v vs)
  show ?case
  proof (cases v)
    case (Some x)
    obtain w1 where "send x w = (None, w1)" using assms[of x w] by (metis prod.collapse)
    then show ?thesis using Some Cons by simp
  qed (use Cons in simp)
qed simp

lemma replicate_op_ok:
  assumes "replicas_accept env vs" "\<And>v w. fst (send v w) = None"
  shows "\<exists>w'. replicate_op env lm True send w = Ret (ReplOk, w')"
proof -
  obtain w1 where "envFindSuccessors env (LMVn lm) NUM_LM_REPLICA (string_bytes (envRingId env)) w = ((vs, None), w1)"
    using assms(1) unfolding replicas_accept_def by (metis prod.collapse)
  moreover obtain w2 where "replicate_to True send vs w1 = Ret (None, w2)"
    using replicate_to_ok[of send] assms(2) by blast
  ultimately show ?thesis by (simp add: replicate_op_def)
qed

lemma getLockID_ok:
  assumes "replicas_accept env vs"
  shows "\<exists>lid w'. getLockID env w = ((lid, None), w')"
proof -
  obtain b w1 where "envRand env w = ((b, None), w1)"
    using assms unfolding replicas_accept_def by (metis prod.collapse)
  then show ?thesis by (simp add: getLockID_def)
qed

lemma createWLock_grants:
  assumes "replicas_accept env vs" "CurrentLM lm" "\<not> verMapHeld lm" "map_get (WLocks lm) k = None"
    and "asked = 0 \<or> version_of lm k < asked"
  shows "\<exists>lid t lm' w'. createWLock env lm k asked timeout nodeID None w =
      Ret ((lid, next_version (version_of lm k) asked, timeout, CommitPoint lm, None), lm', w') \<and>
    CurrentLM lm' \<and> LMVn lm' = LMVn lm \<and> \<not> verMapHeld lm' \<and> VersionMap lm' = VersionMap lm \<and> currOpNum lm' = currOpNum lm + 1 \<and>
    map_get (WLocks lm') = (map_get (WLocks lm))(k \<mapsto> \<lparr>wl_nodeID = nodeID, wl_LockID = lid,
        wl_version = next_version (version_of lm k) asked, wl_timeout = t\<rparr>)"
proof -
  let ?v = "next_version (version_of lm k) asked"
  define lm0 where "lm0 = lm\<lparr>WLocks := Some (map_get (WLocks lm)), TimeoutTicker := True\<rparr>"
  obtain lid w1 where lid: "getLockID env w = ((lid, None), w1)" using getLockID_ok[OF assms(1)] by blast
  obtain now w2 where now: "envNow env w1 = (now, w2)" by fastforce
  let ?t = "now + lock_duration timeout"
  let ?e = "log_entry lm0 ''WRITE'' k ?v (Some ?t) None lid"
  obtain w3 where "replicate_op env lm0 True (\<lambda>x. envWLock env x k ?v timeout (String (LMVn lm0)) ?e) w2 = Ret (ReplOk, w3)"
    using replicate_op_ok[OF assms(1), where send = "\<lambda>x. envWLock env x k ?v timeout (String (LMVn lm0)) ?e" and lm = lm0 and w = w2]
      replicas_acceptD[OF assms(1)] by auto
  then have "grantWLock env lm0 k ?v timeout nodeID lid w1 =
      Ret ((lid, ?v, timeout, CommitPoint lm, None),
           lm0\<lparr>currOpNum := currOpNum lm + 1, OpsLog := OpsLog lm @ [?e],
               WLocks := Some ((map_get (WLocks lm))(k \<mapsto>
                 \<lparr>wl_nodeID = nodeID, wl_LockID = lid, wl_version = ?v, wl_timeout = ?t\<rparr>))\<rparr>, w3)"
    by (simp add: grantWLock_def Let_def now lm0_def)
  moreover have "createWLock env lm k asked timeout nodeID None w = grantWLock env lm0 k ?v timeout nodeID lid w1"
    using assms(2-5) lid
    by (auto simp: createWLock_def checkWLock_def Let_def lm0_def next_version_def)
  ultimately show ?thesis
    using assms(2,3) by (auto simp: lm0_def intro!: exI[of _ ?t])
qed

lemma commitWLock_commits:
  assumes "replicas_accept env vs" "CurrentLM lm" "\<not> verMapHeld lm" "map_get (WLocks lm) k = Some l"
  shows "\<exists>lm' w'. commitWLock env lm k (wl_version l) nodeID None w = Ret ((CommitPoint lm, None), lm', w') \<and>
    CurrentLM lm' \<and> LMVn lm' = LMVn lm \<and> \<not> verMapHeld lm' \<and> version_of lm' = (version_of lm)(k := wl_version l) \<and>
    map_get (WLocks lm') = (map_get (WLocks lm))(k := None)"
proof -
  let ?e = "log_entry lm ''COMMIT'' k (wl_version l) None None []"
  obtain w1 where "replicate_op env lm True (\<lambda>x. envCommitWLock env x k (wl_version l) (String (LMVn lm)) ?e) w = Ret (ReplOk, w1)"
    using replicate_op_ok[OF assms(1), where send = "\<lambda>x. envCommitWLock env x k (wl_version l) (String (LMVn lm)) ?e" and lm = lm and w = w]
      replicas_acceptD[OF assms(1)] by auto
  then show ?thesis using assms(2-4)
    by (auto simp: commitWLock_def checkWLock_def applyCommit_def Let_def)
qed

lemma createRLock_reads:
  assumes "replicas_accept env vs" "CurrentLM lm" "\<not> verMapHeld lm" "version_of lm k \<noteq> 0"
  shows "\<exists>lid lm' w'. createRLock env lm k nodeID addr None w = Ret ((lid, version_of lm k, CommitPoint lm, None), lm', w') \<and>
    map_of (lm_readers lm' k) nodeID = Some (lid, addr) \<and> CurrentLM lm' \<and> LMVn lm' = LMVn lm \<and> verMapHeld lm' = verMapHeld lm \<and>
    VersionMap lm' = VersionMap lm \<and> WLocks lm' = WLocks lm"
proof -
  obtain lid w1 where lid: "getLockID env w = ((lid, None), w1)" using getLockID_ok[OF assms(1)] by blast
  let ?e = "log_entry lm ''READ'' k 0 None (map_get (RLocks lm) k) lid"
  obtain w2 where "replicate_op env lm True (\<lambda>x. envRLock env x k (String (LMVn lm)) ?e) w1 = Ret (ReplOk, w2)"
    using replicate_op_ok[OF assms(1), where send = "\<lambda>x. envRLock env x k (String (LMVn lm)) ?e" and lm = lm and w = w1]
      replicas_acceptD[OF assms(1)] by auto
  then show ?thesis using assms(2-4) lid
    by (auto simp: createRLock_def grantRLock_def Let_def lm_readers_def update_conv')
qed


subsection \<open>An example\<close>

definition demo_env :: "unit lm_env" where
  "demo_env =
     \<lparr>envFindSuccessors = (\<lambda>v n k w. (([Some \<lparr>Id = [7], Host = ''b''\<rparr>, None], None), ())),
      envRLock = (\<lambda>v k n e w. (None, ())),
      envWLock = (\<lambda>v k ver t n e w. (None, ())),
      envCommitWLock = (\<lambda>v k ver n e w. (None, ())),
      envAbortWLock = (\<lambda>v k ver n e w. (None, ())),
      envInvalidateRLock = (\<lambda>v l w. (None, ())),
      envRand = (\<lambda>w. (([171, 205], None), ())),
      envNow = (\<lambda>w. (1000, ())),
      envRingId = ''ring''\<rparr>"

definition demo_primary :: LManager where
  "demo_primary = (ReplayLog (newLManager \<lparr>Id = [5], Host = ''a''\<rparr> False))\<lparr>CurrentLM := True\<rparr>"

lemma demo_env_accepts: "replicas_accept demo_env [Some \<lparr>Id = [7], Host = ''b''\<rparr>, None]"
  by (simp add: replicas_accept_def demo_env_def)

lemma demo_primary_simps:
  "CurrentLM demo_primary" "\<not> verMapHeld demo_primary" "map_get (WLocks demo_primary) k = None"
  "version_of demo_primary k = 0" "currOpNum demo_primary = 0" "OpsLog demo_primary = []"
  "LMVn demo_primary = \<lparr>Id = [5], Host = ''a''\<rparr>" "CommitPoint demo_primary = 0"
  by (auto simp: demo_primary_def ReplayLog_def newLManager_def clearLMForReplay_def version_of_def)

text \<open>The example primary after a write lock, and after the commit.\<close>

lemma demo_runs:
  obtains lm1 lm2 l where
    "lm_step demo_env (demo_primary, ()) (lm1, ())" "lm_step demo_env (lm1, ()) (lm2, ())"
    "map_get (WLocks lm1) ''k'' = Some l" "wl_version l = 1" "CurrentLM lm1" "\<not> verMapHeld lm1"
    "version_of lm1 ''k'' = 0" "version_of lm2 ''k'' = 1" "CurrentLM lm2" "\<not> verMapHeld lm2"
proof -
  obtain lid t lm1 where 1: "createWLock demo_env demo_primary ''k'' 0 5 ''n'' None () =
      Ret ((lid, 1, 5, 0, None), lm1, ())"
    "CurrentLM lm1" "\<not> verMapHeld lm1" "VersionMap lm1 = VersionMap demo_primary" "currOpNum lm1 = 1"
    "map_get (WLocks lm1) ''k'' = Some \<lparr>wl_nodeID = ''n'', wl_LockID = lid, wl_version = 1, wl_timeout = t\<rparr>"
    using createWLock_grants[OF demo_env_accepts, of demo_primary "''k''" 0 5 "''n''" "()"]
    by (auto simp: demo_primary_simps next_version_def)
  obtain lm2 where 2: "commitWLock demo_env lm1 ''k'' 1 ''n'' None () = Ret ((CommitPoint lm1, None), lm2, ())"
    "CurrentLM lm2" "\<not> verMapHeld lm2" "version_of lm2 ''k'' = 1"
    using commitWLock_commits[OF demo_env_accepts 1(2,3,6), of "''n''" "()"] by auto
  have "version_of lm1 ''k'' = version_of demo_primary ''k''" using 1(4) by (simp add: version_of_def)
  then show thesis
    using 1 2 step_wlock[OF _ 1(1)] step_commit[OF _ 2(1)]
    by (intro that[of lm1 lm2]) (auto simp: demo_primary_simps)
qed

lemma demo_fresh: "lm_fresh (demo_primary, w)"
  by (auto simp: lm_fresh_def demo_primary_def)

lemma demo_reachable:
  assumes "lm_step demo_env (demo_primary, ()) s1" "lm_step demo_env s1 s2"
  shows "reachable lm_fresh (service_step demo_env) s1" "reachable lm_fresh (service_step demo_env) s2"
    "reachable lm_fresh (lm_step demo_env) s1" "reachable lm_fresh (lm_step demo_env) s2"
proof -
  have init: "reachable lm_fresh st (demo_primary, ())" for st :: "LManager \<times> unit \<Rightarrow> LManager \<times> unit \<Rightarrow> bool"
    using demo_fresh by (rule reachable_init)
  show "reachable lm_fresh (lm_step demo_env) s1" using init assms(1) by (rule reachable_step)
  then show "reachable lm_fresh (lm_step demo_env) s2" using assms(2) by (rule reachable_step)
  then show "reachable lm_fresh (service_step demo_env) s2"
    by (rule reachable_mono) (simp add: service_step_def)
  show "reachable lm_fresh (service_step demo_env) s1"
    using \<open>reachable lm_fresh (lm_step demo_env) s1\<close> by (rule reachable_mono) (simp add: service_step_def)
qed

subsection \<open>Theorems\<close>







text \<open>A client's session. When the replicas accept, a writer that asks for a lock on a key nobody
  holds gets the version after the committed one; its commit of that version succeeds and frees the
  key; and a read lock taken then returns exactly that version and records the reader.\<close>

theorem lock_commit_read_session:
  assumes "replicas_accept env vs" "CurrentLM lm" "\<not> verMapHeld lm" "map_get (WLocks lm) k = None"
    and "version_of lm k \<noteq> - 1"
  shows "\<exists>lid lm1 w1 cp lm2 w2 rid lm3 w3.
    createWLock env lm k 0 timeout writer None w =
      Ret ((lid, version_of lm k + 1, timeout, CommitPoint lm, None), lm1, w1) \<and>
    commitWLock env lm1 k (version_of lm k + 1) writer None w1 = Ret ((cp, None), lm2, w2) \<and>
    map_get (WLocks lm2) k = None \<and>
    createRLock env lm2 k reader addr None w2 = Ret ((rid, version_of lm k + 1, CommitPoint lm2, None), lm3, w3) \<and>
    map_of (lm_readers lm3 k) reader = Some (rid, addr)"
proof -
  let ?v = "version_of lm k + 1"
  obtain lid t lm1 w1 where 1: "createWLock env lm k 0 timeout writer None w = Ret ((lid, ?v, timeout, CommitPoint lm, None), lm1, w1)"
    "CurrentLM lm1" "\<not> verMapHeld lm1"
    "map_get (WLocks lm1) k = Some \<lparr>wl_nodeID = writer, wl_LockID = lid, wl_version = ?v, wl_timeout = t\<rparr>"
    using createWLock_grants[OF assms(1-4), of 0 timeout writer w] by (auto simp: next_version_def)
  obtain lm2 w2 where 2: "commitWLock env lm1 k ?v writer None w1 = Ret ((CommitPoint lm1, None), lm2, w2)"
    "CurrentLM lm2" "\<not> verMapHeld lm2" "version_of lm2 k = ?v" "map_get (WLocks lm2) k = None"
    using commitWLock_commits[OF assms(1) 1(2-4), of writer w1] by auto
  have "?v \<noteq> 0" using assms(5) max_word_wrap[of "version_of lm k"] by blast
  then show ?thesis
    using 1 2 createRLock_reads[OF assms(1) 2(2,3), of k reader addr w2] by metis
qed

theorem lock_commit_read_session_witness:
  "\<exists>lid lm1 cp lm2 rid lm3.
    createWLock demo_env demo_primary ''k'' 0 5 ''n'' None () = Ret ((lid, 1, 5, 0, None), lm1, ()) \<and>
    commitWLock demo_env lm1 ''k'' 1 ''n'' None () = Ret ((cp, None), lm2, ()) \<and>
    createRLock demo_env lm2 ''k'' ''r'' ''h'' None () = Ret ((rid, 1, CommitPoint lm2, None), lm3, ())"
  using lock_commit_read_session[OF demo_env_accepts demo_primary_simps(1-3), of "''k''" 5 "''n''" "()" "''r''" "''h''"]
  by (auto simp: demo_primary_simps)



text \<open>C10: commit and abort need the lock. Without a write lock on the key, or with another version than
  the one that is locked, a commit and an abort fail and change nothing.\<close>

theorem commit_abort_need_the_lock:
  assumes "CurrentLM lm" "\<forall>l. map_get (WLocks lm) k = Some l \<longrightarrow> wl_version l \<noteq> version"
  shows "(\<exists>err. commitWLock env lm k version nodeID None w = Ret ((CommitPoint lm, Some err), lm, w)) \<and>
         (\<exists>err. abortWLock env lm k version nodeID None w = Ret ((CommitPoint lm, Some err), lm, w))"
  using assms by (auto simp: commitWLock_def abortWLock_def checkWLock_def split: option.splits)

theorem commit_abort_need_the_lock_witness:
  "\<exists>err. commitWLock demo_env demo_primary ''k'' 1 ''n'' None () = Ret ((0, Some err), demo_primary, ())"
  using commit_abort_need_the_lock[of demo_primary "''k''" 1 demo_env "''n''" "()"]
  by (auto simp: demo_primary_simps)



subsection \<open>Where the code departs from this\<close>

text \<open>C34: a mutex that stays locked. A request for a write lock with a version other than 0 that is not
  above the committed one is refused with \<open>verMapMut\<close> still locked; from then on every request for a
  read lock, and every request for a write lock on a key that is not locked, blocks forever.\<close>

theorem stale_version_blocks_manager:
  assumes "CurrentLM lm" "\<not> verMapHeld lm" "map_get (WLocks lm) k = None"
    and "version \<noteq> 0" "version \<le> version_of lm k"
  shows "\<exists>lm'. createWLock env lm k version timeout nodeID None w =
      Ret (([], version_of lm k, 0, CommitPoint lm,
            Some (fmt_Errorf ''Committed version is higher than requested version'' [])), lm', w) \<and>
    (\<forall>j node addr w2. createRLock env lm' j node addr None w2 = Hang) \<and>
    (\<forall>j v t node w2. map_get (WLocks lm) j = None \<longrightarrow> createWLock env lm' j v t node None w2 = Hang)"
proof -
  let ?lm' = "lm\<lparr>WLocks := Some (map_get (WLocks lm)), TimeoutTicker := True, verMapHeld := True\<rparr>"
  have "createWLock env lm k version timeout nodeID None w =
      Ret (([], version_of lm k, 0, CommitPoint lm,
            Some (fmt_Errorf ''Committed version is higher than requested version'' [])), ?lm', w)"
    using assms by (simp add: createWLock_def checkWLock_def)
  moreover have "\<forall>j node addr w2. createRLock env ?lm' j node addr None w2 = Hang"
    using assms(1) by (simp add: createRLock_def)
  moreover have "\<forall>j v t node w2. map_get (WLocks lm) j = None \<longrightarrow> createWLock env ?lm' j v t node None w2 = Hang"
    using assms(1) by (simp add: createWLock_def checkWLock_def)
  ultimately show ?thesis by blast
qed

definition demo_versioned :: LManager where
  "demo_versioned = demo_primary\<lparr>VersionMap := Some [''k'' \<mapsto> 3]\<rparr>"

theorem stale_version_blocks_manager_witness:
  "\<exists>lm'. createWLock demo_env demo_versioned ''k'' 2 5 ''n'' None () =
      Ret (([], 3, 0, 0, Some (fmt_Errorf ''Committed version is higher than requested version'' [])), lm', ()) \<and>
    createRLock demo_env lm' ''k'' ''n'' ''h'' None () = Hang"
  using stale_version_blocks_manager[of demo_versioned "''k''" 2 demo_env 5 "''n''" "()"]
  by (auto simp: demo_versioned_def demo_primary_simps version_of_def)

text \<open>Abort and missing replicas. Unlike the other operations, \<open>abortWLock\<close> does not skip the empty
  slots of the slice of successors: if the lookup answers with one in front, aborting a held lock
  panics.\<close>

theorem abort_panics_without_replica:
  assumes "CurrentLM lm" "map_get (WLocks lm) k = Some l" "wl_version l = version"
    and "envFindSuccessors env (LMVn lm) NUM_LM_REPLICA (string_bytes (envRingId env)) w = ((None # vs, None), w1)"
  shows "abortWLock env lm k version nodeID None w = Panic ''nil pointer dereference''"
  using assms by (simp add: abortWLock_def checkWLock_def applyAbort_def Let_def replicate_op_def)

definition demo_locked :: LManager where
  "demo_locked = demo_primary\<lparr>WLocks := Some [''k'' \<mapsto>
     \<lparr>wl_nodeID = ''n'', wl_LockID = ''01'', wl_version = 1, wl_timeout = 10\<rparr>]\<rparr>"

theorem abort_panics_without_replica_witness:
  "abortWLock (demo_env\<lparr>envFindSuccessors := (\<lambda>v n k w. (([None], None), ()))\<rparr>) demo_locked ''k'' 1 ''n'' None ()
     = Panic ''nil pointer dereference''"
  by (rule abort_panics_without_replica[where l = "\<lparr>wl_nodeID = ''n'', wl_LockID = ''01'', wl_version = 1, wl_timeout = 10\<rparr>"
        and vs = "[]" and ?w1.0 = "()"])
    (simp_all add: demo_locked_def demo_primary_simps)

text \<open>A backup and late entries. An entry whose number is smaller than all those of a non-empty log
  makes \<open>appendToLog\<close> read the element before the first one: the backup panics.\<close>

theorem late_entry_panics_backup:
  assumes "OpsLog lm \<noteq> []" "\<forall>x \<in> set (OpsLog lm). OpNum e < OpNum x"
  shows "appendToLog lm e = Panic ''index out of range''"
proof -
  have "sift_opnum (OpsLog lm @ [e]) (length (OpsLog lm)) = Panic ''index out of range''"
    using assms(2) by (intro sift_opnum_smallest) (auto simp: nth_append)
  then show ?thesis using assms(1) by (auto simp: appendToLog_def Let_def)
qed

theorem late_entry_panics_backup_witness:
  "appendToLog ((newLManager \<lparr>Id = [7], Host = ''b''\<rparr> False)\<lparr>OpsLog := [log_entry (demo_locked\<lparr>currOpNum := 1\<rparr>) ''ABORT'' ''k'' 1 None None []]\<rparr>)
     (log_entry demo_primary ''WRITE'' ''k'' 1 (Some 0) None ''01'') = Panic ''index out of range''"
  by (rule late_entry_panics_backup) (simp_all add: demo_primary_simps)

end
