(* ===== verification/KV_Store.thy ===== *)
theory KV_Store
  imports Find_Succ "HOL-Library.AList"
begin

text \<open>
  \<open>obj_server.go\<close> and \<open>obj_server_repl.go\<close>: the object store of a vnode and its replication. The map
  from keys to version lists is an association list: Go leaves open in which order a map is visited,
  the list fixes one. The requests a store sends to other vnodes, whose results the code throws
  away, are a list of messages next to the new state. Every operation holds \<open>kvLock\<close> and is atomic.
\<close>

subsection \<open>State\<close>

record KVStoreValue =
  Ver :: uint
  Val :: bytes

record KVStore =
  kv :: "(string \<times> KVStoreValue list) list"
  pred_list :: "Vnode option list"
  succ_list :: "Vnode option list"

text \<open>What the store asks of its vnode and ring.\<close>

record kv_env =
  kvVn :: Vnode
  kvPredecessor :: "Vnode option"
  kvSuccessors :: "Vnode option list"
  kvIsLocal :: "Vnode \<Rightarrow> bool"
  kvHash :: "bytes \<Rightarrow> bytes"
  kvNumSuccessors :: nat
  kvLookup :: "int \<Rightarrow> bytes \<Rightarrow> vnodes_result"

datatype kv_msg =
    MSet Vnode string uint bytes
  | MSyncKeys Vnode Vnode string "uint list"
  | MMissingKeys Vnode Vnode string "uint list"
  | MBulkSet Vnode string "KVStoreValue list"

definition KVStore_init :: "kv_env \<Rightarrow> KVStore" where
  "KVStore_init env =
     \<lparr>kv = [], pred_list = replicate (kvNumSuccessors env + 1) None,
      succ_list = replicate (kvNumSuccessors env) None\<rparr>"

subsection \<open>Reading and writing\<close>

text \<open>The scan of a version list from the front.\<close>

fun find_version :: "KVStoreValue list \<Rightarrow> uint \<Rightarrow> bytes option" where
  "find_version [] version = None"
| "find_version (i # is) version = (if Ver i = version then Some (Val i) else find_version is version)"

definition KVStore_get :: "KVStore \<Rightarrow> string \<Rightarrow> uint \<Rightarrow> go_error + bytes" where
  "KVStore_get kvs k version =
     (case map_of (kv kvs) k of
        None \<Rightarrow> Inl (fmt_Errorf ''Key not found'' [])
      | Some kvLst \<Rightarrow>
          (case find_version kvLst version of
             Some val \<Rightarrow> Inr val
           | None \<Rightarrow> Inl (fmt_Errorf ''Key value with requested version not found'' [])))"

text \<open>
  \<open>incSync\<close>: an owner of the key sends the value to its successors that are not in this process. The
  errors of \<open>incSyncToSucc\<close> are never stored, so the result is always nil.
\<close>

definition incSync :: "kv_env \<Rightarrow> string \<Rightarrow> uint \<Rightarrow> bytes \<Rightarrow> kv_msg list" where
  "incSync env k version value =
     (let key_hash = kvHash env (string_bytes k);
          owner = (case kvPredecessor env of
                     None \<Rightarrow> True
                   | Some p \<Rightarrow> betweenRightIncl (Id p) (Id (kvVn env)) key_hash)
      in if owner then
           [MSet s k version value. Some s \<leftarrow> kvSuccessors env, \<not> kvIsLocal env s]
         else [])"

definition KVStore_set :: "kv_env \<Rightarrow> KVStore \<Rightarrow> string \<Rightarrow> uint \<Rightarrow> bytes
    \<Rightarrow> go_error option \<times> KVStore \<times> kv_msg list" where
  "KVStore_set env kvs k version value =
     (let kvVal = \<lparr>Ver = version, Val = value\<rparr>
      in case map_of (kv kvs) k of
           None \<Rightarrow>
             (None, kvs\<lparr>kv := AList.update k [kvVal] (kv kvs)\<rparr>, incSync env k version value)
         | Some [] \<Rightarrow>
             (None, kvs\<lparr>kv := AList.update k [kvVal] (kv kvs)\<rparr>, incSync env k version value)
         | Some (m # ms) \<Rightarrow>
             if Ver m \<ge> version then
               (Some (fmt_Errorf ''Lower version than current max version'' []), kvs, [])
             else
               (None, kvs\<lparr>kv := AList.update k (kvVal # m # ms) (kv kvs)\<rparr>,
                incSync env k version value))"

definition KVStore_list :: "KVStore \<Rightarrow> string list" where
  "KVStore_list kvs = map fst (kv kvs)"

text \<open>\<open>bulkSet\<close>: one round of its loop on the version list of the key, then the whole.\<close>

definition bulk_push :: "KVStoreValue \<Rightarrow> KVStoreValue list \<Rightarrow> KVStoreValue list" where
  "bulk_push val kvLst =
     (case kvLst of
        [] \<Rightarrow> [val]
      | m # ms \<Rightarrow> if Ver m \<ge> Ver val then kvLst @ [val] else val # kvLst)"

definition bulkSet :: "KVStore \<Rightarrow> string \<Rightarrow> KVStoreValue list \<Rightarrow> go_error option \<times> KVStore" where
  "bulkSet kvs k valLst =
     (if valLst = [] then (Some (fmt_Errorf ''Empty list of values'' []), kvs)
      else
        (let kvLst = (case map_of (kv kvs) k of None \<Rightarrow> [] | Some l \<Rightarrow> l)
         in (None, kvs\<lparr>kv := AList.update k (fold bulk_push valLst kvLst) (kv kvs)\<rparr>)))"

definition purgeVersions :: "KVStore \<Rightarrow> string \<Rightarrow> uint \<Rightarrow> go_error option \<times> KVStore" where
  "purgeVersions kvs k maxVersion =
     (case map_of (kv kvs) k of
        None \<Rightarrow> (Some (fmt_Errorf ''Key not found'' []), kvs)
      | Some kvLst \<Rightarrow>
          (let kvLst' = filter (\<lambda>i. \<not> Ver i < maxVersion) kvLst
           in (None, kvs\<lparr>kv := (if kvLst' = [] then AList.delete k (kv kvs)
                                else AList.update k kvLst' (kv kvs))\<rparr>)))"

definition updatePredSuccList :: "KVStore \<Rightarrow> Vnode option list \<Rightarrow> Vnode option list \<Rightarrow> KVStore" where
  "updatePredSuccList kvs preds succs =
     kvs\<lparr>pred_list := go_copy (pred_list kvs) preds, succ_list := go_copy (succ_list kvs) succs\<rparr>"

subsection \<open>Replication\<close>

definition sendSyncKeys :: "kv_env \<Rightarrow> KVStore \<Rightarrow> Vnode \<Rightarrow> string \<Rightarrow> kv_msg list" where
  "sendSyncKeys env kvs target k =
     (case map_of (kv kvs) k of
        None \<Rightarrow> []
      | Some kvLst \<Rightarrow>
          if kvIsLocal env target then [] else [MSyncKeys target (kvVn env) k (map Ver kvLst)])"

text \<open>The number of predecessors that are known, and the last one of the first \<open>n\<close>.\<close>

definition num_pred :: "KVStore \<Rightarrow> nat" where
  "num_pred kvs = length (filter (\<lambda>p. p \<noteq> None) (pred_list kvs))"

fun last_known :: "Vnode option list \<Rightarrow> nat \<Rightarrow> Vnode option" where
  "last_known ps 0 = None"
| "last_known ps (Suc n) = (if ps ! n \<noteq> None then ps ! n else last_known ps n)"

definition localRepl :: "kv_env \<Rightarrow> KVStore \<Rightarrow> kv_msg list go" where
  "localRepl env kvs =
     (let n = min (num_pred kvs) (kvNumSuccessors env)
      in go_bind (go_index (pred_list kvs) 0) (\<lambda>first. case first of
           None \<Rightarrow> Ret []
         | Some first_pred \<Rightarrow>
             go_bind (go_index (pred_list kvs) 1) (\<lambda>second.
               let second_pred = (case second of None \<Rightarrow> first_pred | Some p \<Rightarrow> p)
               in go_bind (go_index (succ_list kvs) 0) (\<lambda>first_succ.
                    case last_known (pred_list kvs) n of
                      None \<Rightarrow> Ret []
                    | Some last_pred \<Rightarrow>
                        Ret (concat (map (\<lambda>k.
                          let key_hash = kvHash env (string_bytes k)
                          in (case first_succ of
                                None \<Rightarrow> []
                              | Some s \<Rightarrow>
                                  if betweenRightIncl (Id last_pred) (Id (kvVn env)) key_hash
                                  then sendSyncKeys env kvs s k else [])
                             @ (if betweenRightIncl (Id second_pred) (Id first_pred) key_hash
                                then sendSyncKeys env kvs first_pred k else []))
                          (KVStore_list kvs)))))))"

text \<open>One key of \<open>globalRepl\<close>: keys outside the replication range go to their owner.\<close>

definition global_key :: "kv_env \<Rightarrow> KVStore \<Rightarrow> Vnode \<Rightarrow> string \<Rightarrow> kv_msg list go" where
  "global_key env kvs last_pred k =
     (if betweenRightIncl (Id last_pred) (Id (kvVn env)) (kvHash env (string_bytes k)) then Ret []
      else
        go_bind (kvLookup env 1 (string_bytes k)) (\<lambda>(nodes, err).
          if err \<noteq> None then Ret []
          else
            go_bind (go_index (case nodes of None \<Rightarrow> [] | Some ns \<Rightarrow> ns) 0) (\<lambda>s.
              Ret (case s of None \<Rightarrow> [] | Some v \<Rightarrow> sendSyncKeys env kvs v k))))"

fun global_keys :: "kv_env \<Rightarrow> KVStore \<Rightarrow> Vnode \<Rightarrow> string list \<Rightarrow> kv_msg list go" where
  "global_keys env kvs last_pred [] = Ret []"
| "global_keys env kvs last_pred (k # keys) =
     go_bind (global_key env kvs last_pred k) (\<lambda>ms.
     go_bind (global_keys env kvs last_pred keys) (\<lambda>ms'. Ret (ms @ ms')))"

definition globalRepl :: "kv_env \<Rightarrow> KVStore \<Rightarrow> kv_msg list go" where
  "globalRepl env kvs =
     (if num_pred kvs \<le> kvNumSuccessors env then Ret []
      else
        go_bind (go_index (pred_list kvs) (int (num_pred kvs) - 1)) (\<lambda>last_pred.
          case last_pred of
            None \<Rightarrow> Ret []
          | Some p \<Rightarrow> global_keys env kvs p (KVStore_list kvs)))"

definition handleSyncKeys :: "kv_env \<Rightarrow> KVStore \<Rightarrow> Vnode option \<Rightarrow> string \<Rightarrow> uint list \<Rightarrow> kv_msg list" where
  "handleSyncKeys env kvs ownerVn k ver =
     (case ownerVn of
        None \<Rightarrow> []
      | Some owner \<Rightarrow>
          (case map_of (kv kvs) k of
             None \<Rightarrow> if kvIsLocal env owner then [] else [MMissingKeys owner (kvVn env) k ver]
           | Some kvLst \<Rightarrow>
               (let retVer = filter (\<lambda>version. find_version kvLst version = None) ver
                in if retVer = [] then []
                   else if kvIsLocal env owner then []
                   else [MMissingKeys owner (kvVn env) k retVer])))"

definition handleMissingKeys :: "kv_env \<Rightarrow> KVStore \<Rightarrow> Vnode option \<Rightarrow> string \<Rightarrow> uint list \<Rightarrow> kv_msg list" where
  "handleMissingKeys env kvs replVn k ver =
     (case replVn of
        None \<Rightarrow> []
      | Some repl \<Rightarrow>
          (case map_of (kv kvs) k of
             None \<Rightarrow> []
           | Some kvLst \<Rightarrow>
               (let valueLst = concat (map (\<lambda>version. case find_version kvLst version of
                      None \<Rightarrow> [] | Some val \<Rightarrow> [\<lparr>Ver = version, Val = val\<rparr>]) ver)
                in if kvIsLocal env repl then [] else [MBulkSet repl k valueLst])))"

end
