(* ===== verification/KV_Theorems.thy ===== *)
theory KV_Theorems
  imports KV_Store
begin

text \<open>
  The object store as a versioned store: the interface \<open>versioned_store\<close> that clients rely on, its
  interpretation on \<open>set\<close> and \<open>get\<close>, the invariant of the store under every operation, and the
  replication protocol: what a write sends, and that a round of synchronisation converges.
\<close>

subsection \<open>Versioned stores, abstractly\<close>

text \<open>
  What a client of a store relies on: a write of a version above the newest one succeeds and is read
  back, any other is refused, and nothing else changes.
\<close>

locale versioned_store =
  fixes inv :: "'s \<Rightarrow> bool"
    and look :: "'s \<Rightarrow> 'k \<Rightarrow> 'v::linorder \<Rightarrow> 'a option"
    and newest :: "'s \<Rightarrow> 'k \<Rightarrow> 'v option"
    and put :: "'s \<Rightarrow> 'k \<Rightarrow> 'v \<Rightarrow> 'a \<Rightarrow> 's option"
  assumes put_accepts: "inv s \<Longrightarrow> put s k v a \<noteq> None \<longleftrightarrow> (\<forall>m. newest s k = Some m \<longrightarrow> m < v)"
    and put_inv: "inv s \<Longrightarrow> put s k v a = Some s' \<Longrightarrow> inv s'"
    and look_put: "inv s \<Longrightarrow> put s k v a = Some s' \<Longrightarrow>
      look s' k' v' = (if k' = k \<and> v' = v then Some a else look s k' v')"
    and newest_put: "inv s \<Longrightarrow> put s k v a = Some s' \<Longrightarrow>
      newest s' k' = (if k' = k then Some v else newest s k')"
    and look_newest: "inv s \<Longrightarrow> look s k v = Some a \<Longrightarrow> \<exists>m. newest s k = Some m \<and> v \<le> m"
begin

fun put_all :: "'s \<Rightarrow> 'k \<Rightarrow> ('v \<times> 'a) list \<Rightarrow> 's option" where
  "put_all s k [] = Some s"
| "put_all s k ((v, a) # vs) = (case put s k v a of None \<Rightarrow> None | Some s' \<Rightarrow> put_all s' k vs)"

lemma put_keeps:
  assumes "inv s" "put s k v a = Some s'" "look s k' v' = Some b"
  shows "look s' k' v' = Some b"
proof -
  have "v' \<noteq> v" if "k' = k"
    using that look_newest[OF assms(1,3)] put_accepts[OF assms(1), of k v a] assms(2) by force
  then show ?thesis using look_put[OF assms(1,2)] assms(3) by auto
qed

lemma put_all_reads:
  assumes "inv s" "sorted_wrt (<) (map fst vs)" "\<And>m v. newest s k = Some m \<Longrightarrow> v \<in> fst ` set vs \<Longrightarrow> m < v"
  shows "\<exists>s'. put_all s k vs = Some s' \<and> inv s' \<and>
    (\<forall>v a. (v, a) \<in> set vs \<longrightarrow> look s' k v = Some a) \<and>
    (\<forall>k' v' b. look s k' v' = Some b \<longrightarrow> look s' k' v' = Some b)"
  using assms
proof (induction vs arbitrary: s)
  case (Cons p vs)
  obtain v a where p: "p = (v, a)" by fastforce
  have "put s k v a \<noteq> None" using Cons.prems(3) p put_accepts[OF Cons.prems(1)] by force
  then obtain s1 where s1: "put s k v a = Some s1" by blast
  have inv1: "inv s1" using put_inv Cons.prems(1) s1 by blast
  have new1: "newest s1 k = Some v" using newest_put[OF Cons.prems(1) s1] by simp
  have "\<exists>s'. put_all s1 k vs = Some s' \<and> inv s' \<and>
    (\<forall>v a. (v, a) \<in> set vs \<longrightarrow> look s' k v = Some a) \<and>
    (\<forall>k' v' b. look s1 k' v' = Some b \<longrightarrow> look s' k' v' = Some b)"
    using Cons.prems(2) p new1 by (intro Cons.IH[OF inv1]) auto
  then obtain s' where s': "put_all s1 k vs = Some s'" "inv s'"
    "\<And>v a. (v, a) \<in> set vs \<Longrightarrow> look s' k v = Some a"
    "\<And>k' v' b. look s1 k' v' = Some b \<Longrightarrow> look s' k' v' = Some b" by blast
  have "look s1 k v = Some a" using look_put[OF Cons.prems(1) s1] by simp
  then have "look s' k v = Some a" using s'(4) by blast
  moreover have "look s' k' v' = Some b" if "look s k' v' = Some b" for k' v' b
    using s'(4)[OF put_keeps[OF Cons.prems(1) s1 that]] .
  ultimately show ?case using p s1 s' by auto
qed simp

end

subsection \<open>The store as a versioned store\<close>

definition kv_ok :: "KVStore \<Rightarrow> bool" where
  "kv_ok kvs \<longleftrightarrow> distinct (map fst (kv kvs)) \<and>
     (\<forall>k l. map_of (kv kvs) k = Some l \<longrightarrow> l \<noteq> [] \<and> (\<forall>x \<in> set l. Ver x \<le> Ver (hd l)))"

definition kv_look :: "KVStore \<Rightarrow> string \<Rightarrow> uint \<Rightarrow> bytes option" where
  "kv_look kvs k v = (case KVStore_get kvs k v of Inl e \<Rightarrow> None | Inr val \<Rightarrow> Some val)"

definition kv_newest :: "KVStore \<Rightarrow> string \<Rightarrow> uint option" where
  "kv_newest kvs k = (case map_of (kv kvs) k of None \<Rightarrow> None | Some [] \<Rightarrow> None | Some (m # ms) \<Rightarrow> Some (Ver m))"

definition kv_put :: "kv_env \<Rightarrow> KVStore \<Rightarrow> string \<Rightarrow> uint \<Rightarrow> bytes \<Rightarrow> KVStore option" where
  "kv_put env kvs k v a = (case KVStore_set env kvs k v a of (None, kvs', ms) \<Rightarrow> Some kvs' | (Some e, _) \<Rightarrow> None)"

lemma kv_look_eq: "kv_look kvs k v = (case map_of (kv kvs) k of None \<Rightarrow> None | Some l \<Rightarrow> find_version l v)"
  by (auto simp: kv_look_def KVStore_get_def split: option.splits)

lemma find_version_Ver: "find_version l v = Some a \<Longrightarrow> \<exists>x \<in> set l. Ver x = v \<and> Val x = a"
  by (induction l) (auto split: if_splits)

lemma find_version_None: "find_version l v = None \<longleftrightarrow> v \<notin> Ver ` set l"
  by (induction l) auto

lemma find_version_append:
  "find_version (l @ l') v = (case find_version l v of None \<Rightarrow> find_version l' v | Some a \<Rightarrow> Some a)"
  by (induction l) auto

lemma kv_put_Some:
  "kv_put env kvs k v a = Some kvs' \<longleftrightarrow>
     (\<forall>m. kv_newest kvs k = Some m \<longrightarrow> m < v) \<and>
     kvs' = kvs\<lparr>kv := AList.update k (\<lparr>Ver = v, Val = a\<rparr> #
        (case map_of (kv kvs) k of None \<Rightarrow> [] | Some l \<Rightarrow> l)) (kv kvs)\<rparr>"
  by (auto simp: kv_put_def KVStore_set_def kv_newest_def split: option.splits list.splits)

lemma kv_ok_put:
  assumes "kv_ok kvs" "kv_put env kvs k v a = Some kvs'"
  shows "kv_ok kvs'"
proof -
  let ?l = "case map_of (kv kvs) k of None \<Rightarrow> [] | Some l \<Rightarrow> l"
  have "\<forall>x \<in> set ?l. Ver x \<le> v"
    using assms by (fastforce simp: kv_ok_def kv_put_Some kv_newest_def split: option.splits list.splits)
  then show ?thesis using assms
    by (auto simp: kv_ok_def kv_put_Some update_conv' distinct_update split: if_splits)
qed

interpretation kv_store: versioned_store kv_ok kv_look kv_newest "kv_put env" for env
proof
  fix s k v a
  show "kv_put env s k v a \<noteq> None \<longleftrightarrow> (\<forall>m. kv_newest s k = Some m \<longrightarrow> m < v)"
    using kv_put_Some[of env s k v a] by (metis not_None_eq)
next
  fix s k v a s'
  assume "kv_ok s" "kv_put env s k v a = Some s'"
  then show "kv_ok s'" by (rule kv_ok_put)
next
  fix s k v a s' k' v'
  assume "kv_ok s" "kv_put env s k v a = Some s'"
  then show "kv_look s' k' v' = (if k' = k \<and> v' = v then Some a else kv_look s k' v')"
    by (auto simp: kv_look_eq kv_put_Some update_conv' split: option.splits)
next
  fix s k v a s' k'
  assume "kv_ok s" "kv_put env s k v a = Some s'"
  then show "kv_newest s' k' = (if k' = k then Some v else kv_newest s k')"
    by (auto simp: kv_put_Some kv_newest_def update_conv')
next
  fix s k v a
  assume "kv_ok s" "kv_look s k v = Some a"
  then obtain l x where l: "map_of (kv s) k = Some l" "x \<in> set l" "Ver x = v"
    by (auto simp: kv_look_eq split: option.splits dest: find_version_Ver)
  then have "Ver x \<le> Ver (hd l)" "l \<noteq> []" using \<open>kv_ok s\<close> by (auto simp: kv_ok_def)
  then show "\<exists>m. kv_newest s k = Some m \<and> v \<le> m"
    using l by (cases l) (auto simp: kv_newest_def)
qed

subsection \<open>Every operation\<close>

inductive kv_step :: "kv_env \<Rightarrow> KVStore \<Rightarrow> KVStore \<Rightarrow> bool" for env where
  kv_step_set: "KVStore_set env kvs k version value = (err, kvs', ms) \<Longrightarrow> kv_step env kvs kvs'"
| kv_step_bulk: "bulkSet kvs k vals = (err, kvs') \<Longrightarrow> kv_step env kvs kvs'"
| kv_step_purge: "purgeVersions kvs k maxVersion = (err, kvs') \<Longrightarrow> kv_step env kvs kvs'"
| kv_step_lists: "kv_step env kvs (updatePredSuccList kvs preds succs)"

definition kv_init :: "kv_env \<Rightarrow> KVStore \<Rightarrow> bool" where
  "kv_init env kvs \<longleftrightarrow> kvs = KVStore_init env"

text \<open>A version list with its newest version in front, and what a round of \<open>bulkSet\<close> keeps of it.\<close>

definition newest_first :: "KVStoreValue list \<Rightarrow> bool" where
  "newest_first l \<longleftrightarrow> (\<forall>x \<in> set l. Ver x \<le> Ver (hd l))"

lemma newest_first_push: "newest_first l \<Longrightarrow> newest_first (bulk_push x l) \<and> bulk_push x l \<noteq> []"
  by (cases l) (auto simp: newest_first_def bulk_push_def)

lemma newest_first_bulk:
  "newest_first l \<Longrightarrow> vals \<noteq> [] \<Longrightarrow> newest_first (fold bulk_push vals l) \<and> fold bulk_push vals l \<noteq> []"
proof (induction vals arbitrary: l)
  case (Cons x vals)
  then show ?case using newest_first_push[of l x] by (cases vals) auto
qed simp

lemma push_find:
  assumes "newest_first l" "find_version l v = Some a"
  shows "find_version (bulk_push x l) v = Some a"
proof -
  obtain y where "y \<in> set l" "Ver y = v" using find_version_Ver[OF assms(2)] by blast
  then show ?thesis using assms
    by (cases l) (auto simp: bulk_push_def newest_first_def find_version_append split: option.splits)
qed

lemma bulk_find:
  "newest_first l \<Longrightarrow> find_version l v = Some a \<Longrightarrow> find_version (fold bulk_push vals l) v = Some a"
  by (induction vals arbitrary: l) (auto simp: newest_first_push push_find)

lemma bulk_versions: "Ver ` set (fold bulk_push vals l) = Ver ` set vals \<union> Ver ` set l"
  by (induction vals arbitrary: l) (auto simp: bulk_push_def split: list.splits)

lemma newest_first_filter: "newest_first l \<Longrightarrow> newest_first (filter (\<lambda>i. \<not> Ver i < b) l)"
  by (cases l) (auto simp: newest_first_def)

lemma find_version_filter:
  "find_version (filter (\<lambda>i. \<not> Ver i < b) l) v = (if v < b then None else find_version l v)"
  by (induction l) auto

lemma kv_ok_iff: "kv_ok kvs \<longleftrightarrow> distinct (map fst (kv kvs)) \<and>
    (\<forall>k l. map_of (kv kvs) k = Some l \<longrightarrow> l \<noteq> [] \<and> newest_first l)"
  by (simp add: kv_ok_def newest_first_def)

lemma kv_ok_update:
  assumes "kv_ok kvs" "newest_first l" "l \<noteq> []"
  shows "kv_ok (kvs\<lparr>kv := AList.update k l (kv kvs)\<rparr>)"
  using assms by (auto simp: kv_ok_iff update_conv' distinct_update simp del: map_of_eq_Some_iff)

lemma kv_ok_bulk:
  assumes "kv_ok kvs" "bulkSet kvs k vals = (err, kvs')"
  shows "kv_ok kvs'"
proof (cases "vals = []")
  case False
  let ?l = "case map_of (kv kvs) k of None \<Rightarrow> [] | Some l \<Rightarrow> l"
  have "newest_first ?l"
    using assms(1) by (cases "map_of (kv kvs) k") (simp_all add: kv_ok_iff newest_first_def)
  from newest_first_bulk[OF this False] show ?thesis
    using assms False kv_ok_update[OF assms(1)] by (auto simp: bulkSet_def Let_def)
qed (use assms in \<open>simp add: bulkSet_def\<close>)

lemma kv_ok_purge:
  assumes "kv_ok kvs" "purgeVersions kvs k b = (err, kvs')"
  shows "kv_ok kvs'"
  using assms newest_first_filter
  by (fastforce simp: purgeVersions_def kv_ok_iff update_conv' delete_conv' distinct_update distinct_delete Let_def
      split: if_splits option.splits)

lemma kv_ok_set:
  assumes "kv_ok kvs" "KVStore_set env kvs k v a = (err, kvs', ms)"
  shows "kv_ok kvs'"
proof (cases err)
  case None
  then show ?thesis using kv_ok_put[OF assms(1), of env k v a kvs'] assms(2) by (simp add: kv_put_def)
next
  case Some
  then show ?thesis using assms by (auto simp: KVStore_set_def Let_def split: option.splits list.splits if_splits)
qed

definition kv_wf :: "kv_env \<Rightarrow> KVStore \<Rightarrow> bool" where
  "kv_wf env kvs \<longleftrightarrow> kv_ok kvs \<and> length (pred_list kvs) = kvNumSuccessors env + 1 \<and>
     length (succ_list kvs) = kvNumSuccessors env"

lemma kv_step_lengths:
  assumes "kv_step env s t"
  shows "length (pred_list t) = length (pred_list s) \<and> length (succ_list t) = length (succ_list s)"
  using assms
proof cases
  case (kv_step_set k version val err ms)
  then show ?thesis by (auto simp: KVStore_set_def Let_def split: option.splits list.splits if_splits)
next
  case (kv_step_bulk k vals err)
  then show ?thesis by (auto simp: bulkSet_def Let_def split: if_splits)
next
  case (kv_step_purge k maxVersion err)
  then show ?thesis by (auto simp: purgeVersions_def Let_def split: option.splits if_splits)
next
  case (kv_step_lists preds succs)
  then show ?thesis by (simp add: updatePredSuccList_def)
qed

interpretation kv_machine: invariant_system "kv_init env" "kv_step env" "kv_wf env" for env
proof
  fix s assume "kv_init env s"
  then show "kv_wf env s" by (simp add: kv_init_def KVStore_init_def kv_ok_def kv_wf_def)
next
  fix s t assume s: "kv_wf env s" and st: "kv_step env s t"
  from st have "kv_ok t"
  proof cases
    case (kv_step_lists preds succs)
    then show ?thesis using s by (simp add: kv_ok_def updatePredSuccList_def kv_wf_def)
  qed (use s in \<open>auto simp: kv_wf_def intro: kv_ok_set kv_ok_bulk kv_ok_purge\<close>)
  then show "kv_wf env t" using s kv_step_lengths[OF st] by (simp add: kv_wf_def)
qed

lemma look_set:
  assumes "kv_ok kvs" "KVStore_set env kvs k v a = (err, kvs', ms)" "kv_look kvs j u = Some b"
  shows "kv_look kvs' j u = Some b"
proof (cases err)
  case None
  then show ?thesis using kv_store.put_keeps[OF assms(1), of env k v a kvs'] assms(2,3) by (simp add: kv_put_def)
next
  case Some
  then show ?thesis using assms by (auto simp: KVStore_set_def Let_def split: option.splits list.splits if_splits)
qed

lemma look_bulk:
  assumes "kv_ok kvs" "bulkSet kvs k vals = (err, kvs')" "kv_look kvs j u = Some b"
  shows "kv_look kvs' j u = Some b"
proof (cases "vals = [] \<or> j \<noteq> k")
  case True
  then show ?thesis using assms
    by (auto simp: bulkSet_def kv_look_eq update_conv' Let_def split: if_splits)
next
  case False
  then obtain l where l: "map_of (kv kvs) k = Some l" "find_version l u = Some b"
    using assms(3) by (auto simp: kv_look_eq split: option.splits)
  then have "newest_first l" using assms(1) by (simp add: kv_ok_iff)
  from bulk_find[OF this l(2)] show ?thesis using assms(2) l False
    by (auto simp: bulkSet_def kv_look_eq update_conv')
qed

lemma look_purge:
  assumes "purgeVersions kvs k bound = (err, kvs')"
  shows "kv_look kvs' j u = (if j = k \<and> u < bound then None else kv_look kvs j u)"
proof (cases "map_of (kv kvs) k")
  case (Some l)
  let ?l = "filter (\<lambda>i. \<not> Ver i < bound) l"
  have find: "find_version ?l u = (if u < bound then None else find_version l u)"
    by (rule find_version_filter)
  show ?thesis
  proof (cases "?l = []")
    case True
    then have "kvs' = kvs\<lparr>kv := AList.delete k (kv kvs)\<rparr>" using assms Some by (simp add: purgeVersions_def)
    then show ?thesis using Some find True by (auto simp: kv_look_eq delete_conv' split: if_splits)
  next
    case False
    then have "kvs' = kvs\<lparr>kv := AList.update k ?l (kv kvs)\<rparr>" using assms Some by (simp add: purgeVersions_def)
    then show ?thesis using Some find by (simp add: kv_look_eq update_conv')
  qed
qed (use assms in \<open>auto simp: purgeVersions_def kv_look_eq\<close>)


subsection \<open>Synchronisation\<close>

text \<open>
  One round of synchronisation of a key from the store \<open>own\<close> to the store \<open>repl\<close>, with every message
  delivered: the owner announces its versions, the replica asks for those it misses, the owner
  sends their values.
\<close>

definition sync_round :: "kv_env \<Rightarrow> KVStore \<Rightarrow> kv_env \<Rightarrow> KVStore \<Rightarrow> string \<Rightarrow> KVStore" where
  "sync_round eo own er repl k =
     (case sendSyncKeys eo own (kvVn er) k of
        [MSyncKeys _ ov _ ver] \<Rightarrow>
          (case handleSyncKeys er repl (Some ov) k ver of
             [MMissingKeys _ rv _ miss] \<Rightarrow>
               (case handleMissingKeys eo own (Some rv) k miss of
                  [MBulkSet _ _ vals] \<Rightarrow> snd (bulkSet repl k vals)
                | _ \<Rightarrow> repl)
           | _ \<Rightarrow> repl)
      | _ \<Rightarrow> repl)"

definition missing_values :: "KVStoreValue list \<Rightarrow> uint list \<Rightarrow> KVStoreValue list" where
  "missing_values l ver = concat (map (\<lambda>version. case find_version l version of
     None \<Rightarrow> [] | Some val \<Rightarrow> [\<lparr>Ver = version, Val = val\<rparr>]) ver)"

lemma missing_values_mem:
  "x \<in> set (missing_values l ver) \<longleftrightarrow> Ver x \<in> set ver \<and> find_version l (Ver x) = Some (Val x)"
  by (auto simp: missing_values_def split: option.splits) (metis KVStoreValue.surjective old.unit.exhaust)

text \<open>The values a replica lacks arrive unchanged.\<close>

lemma fold_push_new:
  assumes "newest_first l" "find_version l v = None"
    and "\<And>x. x \<in> set vals \<Longrightarrow> Ver x = v \<Longrightarrow> Val x = a" "v \<in> Ver ` set vals"
  shows "find_version (fold bulk_push vals l) v = Some a"
  using assms
proof (induction vals arbitrary: l)
  case (Cons x vals)
  note push = newest_first_push[OF Cons.prems(1), of x]
  show ?case
  proof (cases "Ver x = v")
    case True
    have "find_version (bulk_push x l) v = Some a"
      using True Cons.prems(2) Cons.prems(3)[of x]
      by (cases l) (auto simp: bulk_push_def find_version_append split: if_splits)
    then show ?thesis using bulk_find push by simp
  next
    case False
    have "find_version (bulk_push x l) v = None"
      using False Cons.prems(2) by (cases l) (auto simp: bulk_push_def find_version_append)
    then have "find_version (fold bulk_push vals (bulk_push x l)) v = Some a"
      using push Cons.prems(3,4) False by (intro Cons.IH) auto
    then show ?thesis by simp
  qed
qed simp


lemma sync_round_eq:
  assumes "\<not> kvIsLocal eo (kvVn er)" "\<not> kvIsLocal er (kvVn eo)" "map_of (kv own) k = Some l"
  shows "sync_round eo own er repl k =
    (case map_of (kv repl) k of
       None \<Rightarrow> snd (bulkSet repl k (missing_values l (map Ver l)))
     | Some lr \<Rightarrow>
         (let miss = filter (\<lambda>v. find_version lr v = None) (map Ver l)
          in if miss = [] then repl else snd (bulkSet repl k (missing_values l miss))))"
  using assms unfolding missing_values_def
  by (auto simp: sync_round_def sendSyncKeys_def handleSyncKeys_def handleMissingKeys_def Let_def split: option.splits)

lemma bulkSet_look_new:
  assumes "kv_ok repl" "kv_look repl k v = None" "find_version l v = Some a" "v \<in> set miss"
  shows "kv_look (snd (bulkSet repl k (missing_values l miss))) k v = Some a"
proof -
  let ?vals = "missing_values l miss" and ?l = "case map_of (kv repl) k of None \<Rightarrow> [] | Some x \<Rightarrow> x"
  have mem: "\<lparr>Ver = v, Val = a\<rparr> \<in> set ?vals" using assms(3,4) by (simp add: missing_values_mem)
  then have "v \<in> Ver ` set ?vals" by force
  moreover have "newest_first ?l"
    using assms(1) by (cases "map_of (kv repl) k") (simp_all add: kv_ok_iff newest_first_def)
  moreover have "find_version ?l v = None"
    using assms(2) by (cases "map_of (kv repl) k") (simp_all add: kv_look_eq)
  moreover have "Val x = a" if "x \<in> set ?vals" "Ver x = v" for x
    using that assms(3) by (simp add: missing_values_mem)
  ultimately have "find_version (fold bulk_push ?vals ?l) v = Some a" by (intro fold_push_new) auto
  moreover have "?vals \<noteq> []" using mem by auto
  ultimately show ?thesis by (simp add: bulkSet_def kv_look_eq update_conv' Let_def)
qed

lemma sync_round_ok:
  assumes "kv_ok repl"
  shows "kv_ok (sync_round eo own er repl k)"
  using assms kv_ok_bulk[OF assms, of k, OF prod.collapse[symmetric]]
  by (auto simp: sync_round_def split: list.splits kv_msg.splits)

lemma sync_round_keeps:
  assumes "kv_ok repl" "kv_look repl j v = Some b"
  shows "kv_look (sync_round eo own er repl k) j v = Some b"
  using assms look_bulk[OF assms(1) _ assms(2), of k, OF prod.collapse[symmetric]]
  by (auto simp: sync_round_def split: list.splits kv_msg.splits) 

lemma sync_round_brings:
  assumes "kv_ok repl" "\<not> kvIsLocal eo (kvVn er)" "\<not> kvIsLocal er (kvVn eo)"
    and "kv_look own k v = Some a" "kv_look repl k v = None"
  shows "kv_look (sync_round eo own er repl k) k v = Some a"
proof -
  obtain l where l: "map_of (kv own) k = Some l" "find_version l v = Some a"
    using assms(4) by (auto simp: kv_look_eq split: option.splits)
  then have v: "v \<in> set (map Ver l)" using find_version_Ver by force
  show ?thesis
  proof (cases "map_of (kv repl) k")
    case None
    then show ?thesis
      using sync_round_eq[OF assms(2,3) l(1)] bulkSet_look_new[OF assms(1,5) l(2) v] by simp
  next
    case (Some lr)
    let ?miss = "filter (\<lambda>v. find_version lr v = None) (map Ver l)"
    have "v \<in> set ?miss" using v assms(5) Some by (auto simp: kv_look_eq)
    moreover have "?miss \<noteq> []" using calculation by (metis list.set(1) empty_iff)
    ultimately show ?thesis
      using sync_round_eq[OF assms(2,3) l(1), of repl] Some bulkSet_look_new[OF assms(1,5) l(2), of ?miss]
      by (simp add: Let_def)
  qed
qed


subsection \<open>Background replication\<close>

lemma last_known_Some: "last_known ps n = Some p \<Longrightarrow> \<exists>i < n. ps ! i = Some p"
  by (induction n) (auto split: if_splits intro: less_SucI)

lemma last_known_first: "0 < n \<Longrightarrow> ps ! 0 \<noteq> None \<Longrightarrow> last_known ps n \<noteq> None"
  by (induction n) (auto split: if_splits, metis gr0I option.distinct(1))

lemma num_pred_pos: "pred_list kvs \<noteq> [] \<Longrightarrow> pred_list kvs ! 0 \<noteq> None \<Longrightarrow> 0 < num_pred kvs"
  by (cases "pred_list kvs") (auto simp: num_pred_def)

lemma sendSyncKeys_mem:
  "map_of (kv kvs) k = Some l \<Longrightarrow> \<not> kvIsLocal env t \<Longrightarrow>
   sendSyncKeys env kvs t k = [MSyncKeys t (kvVn env) k (map Ver l)]"
  by (simp add: sendSyncKeys_def)

lemma map_of_KVStore_list: "map_of (kv kvs) k = Some l \<Longrightarrow> k \<in> set (KVStore_list kvs)"
  by (force simp: KVStore_list_def dest: map_of_SomeD)

lemma localRepl_eq:
  assumes "kv_wf env kvs" "1 \<le> kvNumSuccessors env" "pred_list kvs ! 0 = Some p"
  shows "\<exists>last_pred. last_known (pred_list kvs) (min (num_pred kvs) (kvNumSuccessors env)) = Some last_pred \<and>
    localRepl env kvs = Ret (concat (map (\<lambda>k.
      (case succ_list kvs ! 0 of None \<Rightarrow> []
       | Some s \<Rightarrow> if betweenRightIncl (Id last_pred) (Id (kvVn env)) (kvHash env (string_bytes k))
                  then sendSyncKeys env kvs s k else [])
      @ (if betweenRightIncl (Id (case pred_list kvs ! 1 of None \<Rightarrow> p | Some q \<Rightarrow> q)) (Id p) (kvHash env (string_bytes k))
         then sendSyncKeys env kvs p k else [])) (KVStore_list kvs)))"
proof -
  have len: "2 \<le> length (pred_list kvs)" "1 \<le> length (succ_list kvs)" using assms(1,2) by (auto simp: kv_wf_def)
  then have "0 < num_pred kvs" using num_pred_pos[of kvs] assms(3) by force
  then obtain q where q: "last_known (pred_list kvs) (min (num_pred kvs) (kvNumSuccessors env)) = Some q"
    using last_known_first[of "min (num_pred kvs) (kvNumSuccessors env)" "pred_list kvs"] assms(2,3) by auto
  then show ?thesis using len assms(3)
    by (auto simp: localRepl_def go_index_def Let_def)
qed


lemma kv_look_get: "kv_look kvs k v = Some a \<longleftrightarrow> KVStore_get kvs k v = Inr a"
  by (auto simp: kv_look_def split: sum.splits)

lemma kv_newest_look: "kv_newest kvs k = Some m \<Longrightarrow> \<exists>a. kv_look kvs k m = Some a"
  by (auto simp: kv_newest_def kv_look_eq split: option.splits list.splits)

text \<open>A list of writes of one key.\<close>

fun set_all :: "kv_env \<Rightarrow> KVStore \<Rightarrow> string \<Rightarrow> (uint \<times> bytes) list \<Rightarrow> KVStore option" where
  "set_all env kvs k [] = Some kvs"
| "set_all env kvs k ((v, a) # vs) =
     (case KVStore_set env kvs k v a of
        (None, kvs', ms) \<Rightarrow> set_all env kvs' k vs
      | (Some err, kvs', ms) \<Rightarrow> None)"

lemma set_all_put_all: "set_all env kvs k vs = kv_store.put_all env kvs k vs"
proof (induction env kvs k vs rule: set_all.induct)
  case (2 env kvs k v a vs)
  obtain err kvs' ms where set: "KVStore_set env kvs k v a = (err, kvs', ms)" by (metis prod_cases3)
  then have "kv_put env kvs k v a = (case err of None \<Rightarrow> Some kvs' | Some e \<Rightarrow> None)"
    by (simp add: kv_put_def split: option.splits)
  then show ?case using 2 set by (cases err) auto
qed simp

subsection \<open>An example\<close>

definition demo_kv_env :: kv_env where
  "demo_kv_env =
     \<lparr>kvVn = \<lparr>Id = [50], Host = ''a''\<rparr>, kvPredecessor = Some \<lparr>Id = [10], Host = ''c''\<rparr>,
      kvSuccessors = [Some \<lparr>Id = [90], Host = ''b''\<rparr>, None], kvIsLocal = (\<lambda>v. Host v = ''a''),
      kvHash = (\<lambda>k. [20]), kvNumSuccessors = 2,
      kvLookup = (\<lambda>n k. Ret (Some [Some \<lparr>Id = [90], Host = ''b''\<rparr>], None))\<rparr>"

definition demo_kv_env2 :: kv_env where
  "demo_kv_env2 = demo_kv_env\<lparr>kvVn := \<lparr>Id = [90], Host = ''b''\<rparr>, kvIsLocal := (\<lambda>v. Host v = ''b'')\<rparr>"

definition demo_kvs :: KVStore where
  "demo_kvs = \<lparr>kv = [(''x'', [\<lparr>Ver = 2, Val = [7]\<rparr>, \<lparr>Ver = 1, Val = [5]\<rparr>])],
     pred_list = [Some \<lparr>Id = [10], Host = ''c''\<rparr>, None, None],
     succ_list = [Some \<lparr>Id = [90], Host = ''b''\<rparr>, None]\<rparr>"

lemma demo_kvs_reachable: "reachable (kv_init demo_kv_env) (kv_step demo_kv_env) demo_kvs"
proof -
  let ?R = "reachable (kv_init demo_kv_env) (kv_step demo_kv_env)"
  have 0: "?R (KVStore_init demo_kv_env)" by (rule reachable_init) (simp add: kv_init_def)
  let ?s1 = "fst (snd (KVStore_set demo_kv_env (KVStore_init demo_kv_env) ''x'' 1 [5]))"
  let ?s2 = "fst (snd (KVStore_set demo_kv_env ?s1 ''x'' 2 [7]))"
  have 1: "?R ?s1" by (rule reachable_step[OF 0]) (rule kv_step_set, rule prod_eqI, simp, rule prod_eqI, simp_all)
  have 2: "?R ?s2" by (rule reachable_step[OF 1]) (rule kv_step_set, rule prod_eqI, simp, rule prod_eqI, simp_all)
  have "updatePredSuccList ?s2 (pred_list demo_kvs) (succ_list demo_kvs) = demo_kvs"
    by code_simp
  then show ?thesis using reachable_step[OF 2 kv_step_lists[of _ _ "pred_list demo_kvs" "succ_list demo_kvs"]] by simp
qed

subsection \<open>Theorems\<close>

text \<open>C19: reading what was written. In every reachable state of a store, \<open>set\<close> succeeds exactly when the
  version is above all versions stored under the key; then \<open>get\<close> of that version returns the value and
  every other key and version reads as before. Otherwise it fails, changes nothing and sends nothing.\<close>

theorem set_then_get:
  assumes "reachable (kv_init env) (kv_step env) kvs" "KVStore_set env kvs k version val = (err, kvs', ms)"
  shows "(err = None \<longleftrightarrow> (\<forall>v a. KVStore_get kvs k v = Inr a \<longrightarrow> v < version)) \<and>
    (err = None \<longrightarrow> KVStore_get kvs' k version = Inr val \<and>
       (\<forall>j v a. (j, v) \<noteq> (k, version) \<longrightarrow> (KVStore_get kvs' j v = Inr a \<longleftrightarrow> KVStore_get kvs j v = Inr a))) \<and>
    (err \<noteq> None \<longrightarrow> kvs' = kvs \<and> ms = [])"
proof -
  have ok: "kv_ok kvs" using kv_machine.reachable_inv[OF assms(1)] by (simp add: kv_wf_def)
  have put: "kv_put env kvs k version val = (if err = None then Some kvs' else None)"
    using assms(2) by (auto simp: kv_put_def split: option.splits)
  have newest: "kv_look kvs k m \<noteq> None" if "kv_newest kvs k = Some m" for m
    using kv_newest_look[OF that] by auto
  have "err = None \<longleftrightarrow> (\<forall>m. kv_newest kvs k = Some m \<longrightarrow> m < version)"
    using kv_store.put_accepts[OF ok, of env k version val] put by (auto split: if_splits)
  also have "\<dots> \<longleftrightarrow> (\<forall>v a. kv_look kvs k v = Some a \<longrightarrow> v < version)"
    using newest kv_store.look_newest[OF ok, of k] by (fastforce dest: order_le_less_trans)
  finally have "err = None \<longleftrightarrow> (\<forall>v a. KVStore_get kvs k v = Inr a \<longrightarrow> v < version)"
    by (simp add: kv_look_get)
  moreover have "KVStore_get kvs' k version = Inr val \<and>
       (\<forall>j v a. (j, v) \<noteq> (k, version) \<longrightarrow> (KVStore_get kvs' j v = Inr a \<longleftrightarrow> KVStore_get kvs j v = Inr a))"
    if "err = None"
    using kv_store.look_put[OF ok, of env k version val kvs'] put that
    by (auto simp flip: kv_look_get)
  moreover have "kvs' = kvs \<and> ms = []" if "err \<noteq> None"
    using that assms(2) by (auto simp: KVStore_set_def Let_def split: option.splits list.splits if_splits)
  ultimately show ?thesis by blast
qed

theorem set_then_get_witness:
  "KVStore_get (fst (snd (KVStore_set demo_kv_env demo_kvs ''x'' 5 [1]))) ''x'' 5 = Inr [1]"
proof -
  have "KVStore_set demo_kv_env demo_kvs ''x'' 5 [1] =
      (None, fst (snd (KVStore_set demo_kv_env demo_kvs ''x'' 5 [1])), snd (snd (KVStore_set demo_kv_env demo_kvs ''x'' 5 [1])))"
    by code_simp
  from set_then_get[OF demo_kvs_reachable this] show ?thesis by simp
qed

text \<open>C20: stored values are immutable. A value that can be read stays readable unchanged under every
  \<open>set\<close>, every \<open>bulkSet\<close> of a synchronisation and every purge that does not reach its version.\<close>

theorem stored_values_stable:
  assumes "reachable (kv_init env) (kv_step env) kvs" "KVStore_get kvs k v = Inr a"
  shows "(KVStore_set env kvs j u b = (err, kvs1, ms) \<longrightarrow> KVStore_get kvs1 k v = Inr a) \<and>
    (bulkSet kvs j vals = (err2, kvs2) \<longrightarrow> KVStore_get kvs2 k v = Inr a) \<and>
    (purgeVersions kvs j bound = (err3, kvs3) \<longrightarrow> j \<noteq> k \<or> bound \<le> v \<longrightarrow> KVStore_get kvs3 k v = Inr a)"
proof -
  have ok: "kv_ok kvs" using kv_machine.reachable_inv[OF assms(1)] by (simp add: kv_wf_def)
  have look: "kv_look kvs k v = Some a" using assms(2) by (simp add: kv_look_get)
  show ?thesis
    using look_set[OF ok _ look] look_bulk[OF ok _ look] look_purge[of kvs j bound err3 kvs3 k v] look
    by (auto simp flip: kv_look_get)
qed

theorem stored_values_stable_witness:
  "KVStore_get (snd (bulkSet demo_kvs ''x'' [\<lparr>Ver = 1, Val = [9]\<rparr>])) ''x'' 1 = Inr [5]"
proof -
  have "KVStore_get demo_kvs ''x'' 1 = Inr [5]" by code_simp
  from stored_values_stable[OF demo_kvs_reachable this] show ?thesis by (metis prod.collapse)
qed

text \<open>Purging. \<open>purgeVersions\<close> makes exactly the versions of the key below the bound unreadable; it
  fails only for a key that is not stored.\<close>

theorem purge_removes_old_versions:
  assumes "reachable (kv_init env) (kv_step env) kvs" "purgeVersions kvs k bound = (err, kvs')"
  shows "(KVStore_get kvs' j v = Inr a \<longleftrightarrow> KVStore_get kvs j v = Inr a \<and> (j = k \<longrightarrow> bound \<le> v)) \<and>
    (err = None \<longleftrightarrow> k \<in> set (KVStore_list kvs))"
proof -
  have "err = None \<longleftrightarrow> k \<in> set (KVStore_list kvs)"
    using assms(2) by (auto simp: purgeVersions_def KVStore_list_def Let_def map_of_eq_None_iff dest: map_of_SomeD
        split: option.splits intro: rev_image_eqI)
  then show ?thesis using look_purge[OF assms(2), of j v] by (auto simp flip: kv_look_get split: if_splits)
qed

theorem purge_removes_old_versions_witness:
  "KVStore_get (snd (purgeVersions demo_kvs ''x'' 2)) ''x'' 1 \<noteq> Inr [5]"
  using purge_removes_old_versions[OF demo_kvs_reachable prod.collapse[symmetric], of "''x''" 2 "''x''" 1 "[5]"]
  by (simp add: word_le_nat_alt)

text \<open>C21: histories. Writing a list of strictly increasing versions above the newest stored one, every
  write succeeds, and afterwards every version of the list and everything that could be read before
  reads back.\<close>

theorem increasing_writes_all_readable:
  assumes "reachable (kv_init env) (kv_step env) kvs" "sorted_wrt (<) (map fst vs)"
    and "\<And>v a u. KVStore_get kvs k v = Inr a \<Longrightarrow> u \<in> fst ` set vs \<Longrightarrow> v < u"
  shows "\<exists>kvs'. set_all env kvs k vs = Some kvs' \<and>
    (\<forall>v a. (v, a) \<in> set vs \<longrightarrow> KVStore_get kvs' k v = Inr a) \<and>
    (\<forall>j v a. KVStore_get kvs j v = Inr a \<longrightarrow> KVStore_get kvs' j v = Inr a)"
proof -
  have ok: "kv_ok kvs" using kv_machine.reachable_inv[OF assms(1)] by (simp add: kv_wf_def)
  have "m < v" if m: "kv_newest kvs k = Some m" and v: "v \<in> fst ` set vs" for m v
  proof -
    obtain a where "kv_look kvs k m = Some a" using kv_newest_look[OF m] by blast
    then show ?thesis using assms(3) v by (simp add: kv_look_get)
  qed
  then have "\<exists>kvs'. kv_store.put_all env kvs k vs = Some kvs' \<and> kv_ok kvs' \<and>
      (\<forall>v a. (v, a) \<in> set vs \<longrightarrow> kv_look kvs' k v = Some a) \<and>
      (\<forall>j v a. kv_look kvs j v = Some a \<longrightarrow> kv_look kvs' j v = Some a)"
    by (intro kv_store.put_all_reads ok assms(2))
  then show ?thesis by (auto simp: kv_look_get set_all_put_all)
qed

theorem increasing_writes_all_readable_witness:
  "\<exists>kvs'. set_all demo_kv_env demo_kvs ''y'' [(1, [1]), (4, [2])] = Some kvs' \<and>
     KVStore_get kvs' ''y'' 4 = Inr [2]"
proof -
  have "KVStore_get demo_kvs ''y'' v \<noteq> Inr a" for v a by (simp add: KVStore_get_def demo_kvs_def)
  then show ?thesis
    using increasing_writes_all_readable[OF demo_kvs_reachable, of "[(1, [1]), (4, [2])]" "''y''"] by auto
qed

text \<open>C22: replication of a write. When the vnode owns the key (it has no predecessor, or the hash of the
  key lies after the predecessor), a successful \<open>set\<close> sends the value to every successor that is not
  in this process and to nobody else, and a replica that has only lower versions stores it.\<close>

theorem owner_write_reaches_replicas:
  assumes "KVStore_set env kvs k version val = (None, kvs', ms)"
    and "\<And>p. kvPredecessor env = Some p \<Longrightarrow>
      betweenRightIncl (Id p) (Id (kvVn env)) (kvHash env (string_bytes k))"
    and "reachable (kv_init env2) (kv_step env2) repl" "\<And>v a. KVStore_get repl k v = Inr a \<Longrightarrow> v < version"
  shows "set ms = {MSet s k version val | s. Some s \<in> set (kvSuccessors env) \<and> \<not> kvIsLocal env s} \<and>
    (\<exists>repl' ms'. KVStore_set env2 repl k version val = (None, repl', ms') \<and>
                KVStore_get repl' k version = Inr val)"
proof
  have "ms = incSync env k version val"
    using assms(1) by (auto simp: KVStore_set_def Let_def split: option.splits list.splits if_splits)
  then show "set ms = {MSet s k version val | s. Some s \<in> set (kvSuccessors env) \<and> \<not> kvIsLocal env s}"
    using assms(2) by (auto simp: incSync_def Let_def split: option.splits)
next
  have ok: "kv_ok repl" using kv_machine.reachable_inv[OF assms(3)] by (simp add: kv_wf_def)
  obtain err repl' ms' where set: "KVStore_set env2 repl k version val = (err, repl', ms')"
    by (metis prod_cases3)
  have "m < version" if m: "kv_newest repl k = Some m" for m
  proof -
    obtain a where "kv_look repl k m = Some a" using kv_newest_look[OF m] by blast
    then show ?thesis using assms(4) by (simp add: kv_look_get)
  qed
  then have "kv_put env2 repl k version val \<noteq> None" using kv_store.put_accepts[OF ok] by blast
  then have err: "err = None" "kv_put env2 repl k version val = Some repl'"
    using set by (auto simp: kv_put_def split: option.splits)
  with kv_store.look_put[OF ok err(2), of k version] set
  show "\<exists>repl' ms'. KVStore_set env2 repl k version val = (None, repl', ms') \<and>
                KVStore_get repl' k version = Inr val" by (simp add: kv_look_get)
qed

theorem owner_write_reaches_replicas_witness:
  "set (snd (snd (KVStore_set demo_kv_env demo_kvs ''x'' 3 [1]))) =
    {MSet s ''x'' 3 [1] | s. Some s \<in> set (kvSuccessors demo_kv_env) \<and> \<not> kvIsLocal demo_kv_env s}"
proof -
  have 1: "KVStore_set demo_kv_env demo_kvs ''x'' 3 [1] =
      (None, fst (snd (KVStore_set demo_kv_env demo_kvs ''x'' 3 [1])), snd (snd (KVStore_set demo_kv_env demo_kvs ''x'' 3 [1])))"
    by code_simp
  have 2: "reachable (kv_init demo_kv_env2) (kv_step demo_kv_env2) (KVStore_init demo_kv_env2)"
    by (rule reachable_init) (simp add: kv_init_def)
  show ?thesis
    by (rule owner_write_reaches_replicas[OF 1 _ 2, THEN conjunct1])
      (auto simp: demo_kv_env_def KVStore_get_def KVStore_init_def betweenRightIncl_def)
qed

text \<open>C23: synchronisation converges. After one complete round of the exchange of a key between two stores
  of different processes, the replica holds every version the owner holds: with the owner's value
  where it had none, and with its own value, unchanged, where it had one.\<close>

theorem sync_round_converges:
  assumes "reachable (kv_init er) (kv_step er) repl"
    and "\<not> kvIsLocal eo (kvVn er)" "\<not> kvIsLocal er (kvVn eo)"
    and "KVStore_get own k v = Inr a"
  shows "KVStore_get (sync_round eo own er repl k) k v =
    (case KVStore_get repl k v of Inr b \<Rightarrow> Inr b | Inl _ \<Rightarrow> Inr a)"
proof -
  have ok: "kv_ok repl" using kv_machine.reachable_inv[OF assms(1)] by (simp add: kv_wf_def)
  have own: "kv_look own k v = Some a" using assms(4) by (simp add: kv_look_get)
  show ?thesis
  proof (cases "KVStore_get repl k v")
    case (Inl e)
    then have "kv_look repl k v = None" by (simp add: kv_look_def)
    from sync_round_brings[OF ok assms(2,3) own this] show ?thesis using Inl by (simp add: kv_look_get)
  next
    case (Inr b)
    then have "kv_look repl k v = Some b" by (simp add: kv_look_get)
    from sync_round_keeps[OF ok this] show ?thesis using Inr by (simp add: kv_look_get)
  qed
qed

theorem sync_round_converges_witness:
  "KVStore_get (sync_round demo_kv_env demo_kvs demo_kv_env2 (KVStore_init demo_kv_env2) ''x'') ''x'' 1 = Inr [5]"
proof -
  have "KVStore_get demo_kvs ''x'' 1 = Inr [5]" by code_simp
  moreover have "reachable (kv_init demo_kv_env2) (kv_step demo_kv_env2) (KVStore_init demo_kv_env2)"
    by (rule reachable_init) (simp add: kv_init_def)
  ultimately show ?thesis
    using sync_round_converges[of demo_kv_env2 "KVStore_init demo_kv_env2" demo_kv_env demo_kvs "''x''" 1 "[5]"]
    by (simp add: KVStore_init_def KVStore_get_def demo_kv_env_def demo_kv_env2_def)
qed



end
