(* ===== verification/System.thy ===== *)
theory System
  imports Client_Theorems Lock_Theorems KV_Theorems
begin

text \<open>
  The pieces together: an object client that talks to the lock manager of \<open>lm_server.go\<close> and to the
  stores of \<open>obj_server.go\<close> on the replicas of a ring, the first of which is the master. The world
  holds the state of the primary lock manager and of every store. A write at the master is sent to
  the other replicas; \<open>arrives\<close> says which of these messages are delivered.
\<close>

record sys =
  sysLM :: LManager
  sysStore :: "Vnode \<Rightarrow> KVStore"

text \<open>The parameters that do not change: the lock manager's environment, the stores', the replicas.\<close>

record sys_conf =
  scLM :: "unit lm_env"
  scKV :: "Vnode \<Rightarrow> kv_env"
  scReplicas :: "Vnode list"
  scArrives :: "Vnode \<Rightarrow> bool"
  scIntn :: "nat \<Rightarrow> nat"
  scAddr :: string

definition lost :: go_error where
  "lost = StringError ''connection lost''"

definition deliver :: "sys_conf \<Rightarrow> kv_msg list \<Rightarrow> (Vnode \<Rightarrow> KVStore) \<Rightarrow> (Vnode \<Rightarrow> KVStore)" where
  "deliver c ms st = fold (\<lambda>m st. case m of
     MSet x k v a \<Rightarrow> if scArrives c x then st(x := fst (snd (KVStore_set (scKV c x) (st x) k v a))) else st
   | _ \<Rightarrow> st) ms st"

definition sys_env :: "sys_conf \<Rightarrow> sys client_env" where
  "sys_env c =
     \<lparr>clLookup = (\<lambda>n k w. ((map Some (scReplicas c), None), w)),
      clRLock = (\<lambda>v k n w. case createRLock (scLM c) (sysLM w) k n (scAddr c) None () of
          Ret (out, lm, _) \<Rightarrow> (out, w\<lparr>sysLM := lm\<rparr>) | _ \<Rightarrow> (([], 0, 0, Some lost), w)),
      clWLock = (\<lambda>v k ver t n w. case createWLock (scLM c) (sysLM w) k ver t n None () of
          Ret (out, lm, _) \<Rightarrow> (out, w\<lparr>sysLM := lm\<rparr>) | _ \<Rightarrow> (([], 0, 0, 0, Some lost), w)),
      clCommitWLock = (\<lambda>v k ver n w. case commitWLock (scLM c) (sysLM w) k ver n None () of
          Ret (out, lm, _) \<Rightarrow> (out, w\<lparr>sysLM := lm\<rparr>) | _ \<Rightarrow> ((0, Some lost), w)),
      clAbortWLock = (\<lambda>v k ver n w. case abortWLock (scLM c) (sysLM w) k ver n None () of
          Ret (out, lm, _) \<Rightarrow> (out, w\<lparr>sysLM := lm\<rparr>) | _ \<Rightarrow> ((0, Some lost), w)),
      clGet = (\<lambda>v k ver w. (KVStore_get (sysStore w v) k ver, w)),
      clSet = (\<lambda>v k ver a w. case KVStore_set (scKV c v) (sysStore w v) k ver a of
          (err, st, ms) \<Rightarrow> (err, w\<lparr>sysStore := deliver c ms ((sysStore w)(v := st))\<rparr>)),
      clIsLocalVnode = (\<lambda>v. False),
      clIntn = (\<lambda>m w. (scIntn c m, w)),
      clRingId = envRingId (scLM c), clLocalVnode = \<lparr>Id = [], Host = scAddr c\<rparr>,
      clNumSuccessors = int (length (scReplicas c))\<rparr>"

definition sys_master :: "sys_conf \<Rightarrow> sys \<Rightarrow> KVStore" where
  "sys_master c w = sysStore w (hd (scReplicas c))"

definition sys_locked :: "sys \<Rightarrow> string \<Rightarrow> uint option" where
  "sys_locked w k = map_option wl_version (map_get (WLocks (sysLM w)) k)"

definition sys_ver :: "sys \<Rightarrow> string \<Rightarrow> uint" where
  "sys_ver w = version_of (sysLM w)"

definition sys_look :: "sys_conf \<Rightarrow> sys \<Rightarrow> string \<Rightarrow> uint \<Rightarrow> bytes option" where
  "sys_look c w = kv_look (sys_master c w)"

text \<open>
  The replicas hold nothing the master does not hold, and all calls of the lock manager get through.
  Errors are retryable or not by their text, and the text for an unknown key has the host name of the
  lock manager in it: the host name must not make it look retryable.
\<close>

definition plain_host :: "Vnode \<Rightarrow> bool" where
  "plain_host v \<longleftrightarrow>
     \<not> isRetryable (Some (fmt_Errorf ''[%s] ReadLock not possible. Key not present in LM'' [FStr (Host v)]))"

definition sys_inv :: "sys_conf \<Rightarrow> Vnode list \<Rightarrow> sys \<Rightarrow> bool" where
  "sys_inv c lmr w \<longleftrightarrow>
     replicas_accept (scLM c) (map Some lmr) \<and> scReplicas c \<noteq> [] \<and> (\<forall>m > 0. scIntn c m < m) \<and>
     kvIsLocal (scKV c (hd (scReplicas c))) (hd (scReplicas c)) \<and>
     CurrentLM (sysLM w) \<and> plain_host (LMVn (sysLM w)) \<and> \<not> verMapHeld (sysLM w) \<and> (\<forall>x. kv_ok (sysStore w x)) \<and>
     (\<forall>x k v a. kv_look (sysStore w x) k v = Some a \<longrightarrow> kv_look (sys_master c w) k v = Some a)"

lemma abort_accepts:
  assumes "replicas_accept env (map Some vs)" "CurrentLM lm" "map_get (WLocks lm) k = Some l"
  shows "\<exists>lm' w'. abortWLock env lm k (wl_version l) nodeID None w = Ret ((CommitPoint lm, None), lm', w') \<and>
    CurrentLM lm' \<and> LMVn lm' = LMVn lm \<and> verMapHeld lm' = verMapHeld lm \<and> VersionMap lm' = VersionMap lm \<and>
    map_get (WLocks lm') = (map_get (WLocks lm))(k := None)"
proof -
  let ?send = "\<lambda>x. envAbortWLock env x k (wl_version l) (String (LMVn lm)) (log_entry lm ''ABORT'' k (wl_version l) None None [])"
  obtain w1 where w1: "envFindSuccessors env (LMVn lm) NUM_LM_REPLICA (string_bytes (envRingId env)) w = ((map Some vs, None), w1)"
    using assms(1) unfolding replicas_accept_def by (metis prod.collapse)
  have "\<exists>w2. replicate_to False ?send (map Some vs) w1 = Ret (None, w2)" for w1
  proof (induction vs arbitrary: w1)
    case (Cons v vs)
    obtain w2 where "?send v w1 = (None, w2)" using replicas_acceptD(4)[OF assms(1)] by (metis prod.collapse)
    then show ?case using Cons by simp
  qed simp
  then obtain w2 where "replicate_to False ?send (map Some vs) w1 = Ret (None, w2)" by blast
  then show ?thesis using assms(2,3) w1
    by (auto simp: abortWLock_def checkWLock_def applyAbort_def Let_def replicate_op_def)
qed

text \<open>What a delivered write leaves true of the replicas.\<close>

definition store_inv :: "KVStore \<Rightarrow> (Vnode \<Rightarrow> KVStore) \<Rightarrow> bool" where
  "store_inv mst st \<longleftrightarrow> (\<forall>x. kv_ok (st x)) \<and>
     (\<forall>x k v a. kv_look (st x) k v = Some a \<longrightarrow> kv_look mst k v = Some a)"

lemma set_look:
  assumes "kv_ok s" "KVStore_set env s k v a = (err, s', ms)" "kv_look s' j u = Some b"
  shows "kv_look s j u = Some b \<or> j = k \<and> u = v \<and> b = a"
proof (cases err)
  case None
  then have "kv_put env s k v a = Some s'" using assms(2) by (simp add: kv_put_def)
  from kv_store.look_put[OF assms(1) this, of j u] assms(3) show ?thesis by (auto split: if_splits)
next
  case Some
  then show ?thesis using assms by (auto simp: KVStore_set_def Let_def split: option.splits list.splits if_splits)
qed

lemma deliver_keeps:
  assumes "store_inv mst st" "kv_look mst k v = Some a"
    and "\<forall>m \<in> set ms. \<exists>x. m = MSet x k v a \<and> x \<noteq> h"
  shows "store_inv mst (deliver c ms st) \<and> deliver c ms st h = st h"
  using assms(1,3)
proof (induction ms arbitrary: st)
  case (Cons m ms)
  obtain x where m: "m = MSet x k v a" "x \<noteq> h" using Cons.prems(2) by auto
  obtain err s' out where s': "KVStore_set (scKV c x) (st x) k v a = (err, s', out)" by (metis prod_cases3)
  have ok: "kv_ok (st x)" using Cons.prems(1) by (simp add: store_inv_def)
  have "store_inv mst (st(x := s'))"
    using Cons.prems(1) kv_ok_set[OF ok s'] set_look[OF ok s'] assms(2) by (auto simp: store_inv_def) blast
  moreover have "deliver c (m # ms) st = deliver c ms (if scArrives c x then st(x := s') else st)"
    using m s' by (simp add: deliver_def)
  moreover have "(st(x := s')) h = st h" using m(2) by simp
  moreover define st' where "st' = (if scArrives c x then st(x := s') else st)"
  ultimately have "store_inv mst st'" "st' h = st h" "deliver c (m # ms) st = deliver c ms st'"
    using Cons.prems(1) by auto
  then show ?case using Cons.IH[of st'] Cons.prems(2) by simp
qed (simp add: deliver_def)


lemma incSync_mem: "m \<in> set (incSync env k v a) \<Longrightarrow> \<exists>x. m = MSet x k v a \<and> \<not> kvIsLocal env x"
  by (auto simp: incSync_def Let_def split: if_splits option.splits)

lemma sys_set_ok:
  assumes "sys_inv c lmr w" "\<forall>u b. sys_look c w k u = Some b \<longrightarrow> u < v"
  shows "\<exists>w'. clSet (sys_env c) (hd (scReplicas c)) k v a w = (None, w') \<and> sys_inv c lmr w' \<and>
    sys_ver w' = sys_ver w \<and> sys_locked w' = sys_locked w \<and>
    sys_look c w' = (sys_look c w)(k := (sys_look c w k)(v \<mapsto> a))"
proof -
  let ?h = "hd (scReplicas c)"
  have ok: "kv_ok (sysStore w ?h)" using assms(1) by (simp add: sys_inv_def)
  obtain err s' ms where s': "KVStore_set (scKV c ?h) (sysStore w ?h) k v a = (err, s', ms)" by (metis prod_cases3)
  have "\<forall>m. kv_newest (sysStore w ?h) k = Some m \<longrightarrow> m < v"
    using assms(2) kv_newest_look unfolding sys_look_def sys_master_def by metis
  then have err: "err = None"
    using kv_store.put_accepts[OF ok, of "scKV c ?h" k v a] s' by (auto simp: kv_put_def split: option.splits)
  then have put: "kv_put (scKV c ?h) (sysStore w ?h) k v a = Some s'" using s' by (simp add: kv_put_def)
  have look: "kv_look s' = (kv_look (sysStore w ?h))(k := (kv_look (sysStore w ?h) k)(v \<mapsto> a))"
    using kv_store.look_put[OF ok put] by (auto simp: fun_eq_iff)
  have keeps: "kv_look s' j u = Some b" if "kv_look (sysStore w ?h) j u = Some b" for j u b
    using kv_store.put_keeps[OF ok put that] .
  have "ms = incSync (scKV c ?h) k v a"
    using s' err by (auto simp: KVStore_set_def Let_def split: option.splits list.splits if_splits)
  then have ms: "\<forall>m \<in> set ms. \<exists>x. m = MSet x k v a \<and> x \<noteq> ?h"
    using incSync_mem assms(1) by (fastforce simp: sys_inv_def)
  have "store_inv s' ((sysStore w)(?h := s'))"
    using assms(1) kv_ok_put[OF ok put] keeps by (simp add: store_inv_def sys_inv_def sys_master_def)
  from deliver_keeps[OF this _ ms, of c] look
  have "store_inv s' (deliver c ms ((sysStore w)(?h := s')))" "deliver c ms ((sysStore w)(?h := s')) ?h = s'"
    by auto
  then show ?thesis using s' err look assms(1)
    by (auto simp: sys_env_def sys_inv_def sys_ver_def sys_locked_def sys_look_def sys_master_def store_inv_def)
qed

lemma sys_set_low:
  assumes "sys_inv c lmr w" "sys_look c w k u = Some b" "v \<le> u"
  shows "\<exists>e. clSet (sys_env c) (hd (scReplicas c)) k v a w = (Some e, w) \<and> \<not> isRetryable (Some e)"
proof -
  let ?h = "hd (scReplicas c)"
  have ok: "kv_ok (sysStore w ?h)" using assms(1) by (simp add: sys_inv_def)
  obtain m where m: "kv_newest (sysStore w ?h) k = Some m" "v \<le> m"
    using kv_store.look_newest[OF ok] assms(2,3) unfolding sys_look_def sys_master_def by (meson order_trans)
  then have "KVStore_set (scKV c ?h) (sysStore w ?h) k v a =
      (Some (fmt_Errorf ''Lower version than current max version'' []), sysStore w ?h, [])"
    by (auto simp: KVStore_set_def kv_newest_def split: option.splits list.splits)
  moreover have "\<not> isRetryable (Some (fmt_Errorf ''Lower version than current max version'' []))"
    by code_simp
  ultimately show ?thesis by (auto simp: sys_env_def deliver_def)
qed


lemma sys_lm_update:
  assumes "sys_inv c lmr w" "CurrentLM lm" "LMVn lm = LMVn (sysLM w)" "\<not> verMapHeld lm"
  shows "sys_inv c lmr (w\<lparr>sysLM := lm\<rparr>) \<and> sys_look c (w\<lparr>sysLM := lm\<rparr>) = sys_look c w"
  using assms by (simp add: sys_inv_def sys_look_def sys_master_def)

lemma sys_wlock:
  assumes "sys_inv c lmr w" "sys_locked w k = None"
  shows "\<exists>lid cp w'. clWLock (sys_env c) x k 0 t me w = ((lid, sys_ver w k + 1, t, cp, None), w') \<and>
    sys_inv c lmr w' \<and> sys_ver w' = sys_ver w \<and> sys_locked w' = (sys_locked w)(k \<mapsto> sys_ver w k + 1) \<and>
    sys_look c w' = sys_look c w"
proof -
  have pre: "replicas_accept (scLM c) (map Some lmr)" "CurrentLM (sysLM w)" "\<not> verMapHeld (sysLM w)"
    "map_get (WLocks (sysLM w)) k = None"
    using assms by (simp_all add: sys_inv_def sys_locked_def)
  obtain lid tm lm' where lm': "createWLock (scLM c) (sysLM w) k 0 t me None () =
      Ret ((lid, sys_ver w k + 1, t, CommitPoint (sysLM w), None), lm', ())"
    "CurrentLM lm'" "LMVn lm' = LMVn (sysLM w)" "\<not> verMapHeld lm'" "VersionMap lm' = VersionMap (sysLM w)"
    "map_get (WLocks lm') = (map_get (WLocks (sysLM w)))(k \<mapsto>
       \<lparr>wl_nodeID = me, wl_LockID = lid, wl_version = sys_ver w k + 1, wl_timeout = tm\<rparr>)"
    using createWLock_grants[OF pre, of 0 t me "()"] by (auto simp: next_version_def sys_ver_def)
  then show ?thesis using sys_lm_update[OF assms(1) lm'(2-4)]
    by (auto simp: sys_env_def sys_ver_def sys_locked_def version_of_def fun_eq_iff)
qed

lemma sys_commit:
  assumes "sys_inv c lmr w" "sys_locked w k = Some v"
  shows "\<exists>cp w'. clCommitWLock (sys_env c) x k v me w = ((cp, None), w') \<and> sys_inv c lmr w' \<and>
    sys_ver w' = (sys_ver w)(k := v) \<and> sys_locked w' = (sys_locked w)(k := None) \<and> sys_look c w' = sys_look c w"
proof -
  obtain l where l: "map_get (WLocks (sysLM w)) k = Some l" "wl_version l = v"
    using assms(2) by (auto simp: sys_locked_def)
  have pre: "replicas_accept (scLM c) (map Some lmr)" "CurrentLM (sysLM w)" "\<not> verMapHeld (sysLM w)"
    using assms(1) by (simp_all add: sys_inv_def)
  obtain lm' where lm': "commitWLock (scLM c) (sysLM w) k v me None () = Ret ((CommitPoint (sysLM w), None), lm', ())"
    "CurrentLM lm'" "LMVn lm' = LMVn (sysLM w)" "\<not> verMapHeld lm'" "version_of lm' = (version_of (sysLM w))(k := v)"
    "map_get (WLocks lm') = (map_get (WLocks (sysLM w)))(k := None)"
    using commitWLock_commits[OF pre l(1), of me "()"] l(2) by auto
  then show ?thesis using sys_lm_update[OF assms(1) lm'(2-4)]
    by (auto simp: sys_env_def sys_ver_def sys_locked_def fun_eq_iff)
qed

lemma sys_abort:
  assumes "sys_inv c lmr w" "sys_locked w k = Some v"
  shows "\<exists>cp w'. clAbortWLock (sys_env c) x k v me w = ((cp, None), w') \<and> sys_inv c lmr w' \<and>
    sys_ver w' = sys_ver w \<and> sys_locked w' = (sys_locked w)(k := None) \<and> sys_look c w' = sys_look c w"
proof -
  obtain l where l: "map_get (WLocks (sysLM w)) k = Some l" "wl_version l = v"
    using assms(2) by (auto simp: sys_locked_def)
  have pre: "replicas_accept (scLM c) (map Some lmr)" "CurrentLM (sysLM w)" "\<not> verMapHeld (sysLM w)"
    using assms(1) by (simp_all add: sys_inv_def)
  obtain lm' where lm': "abortWLock (scLM c) (sysLM w) k v me None () = Ret ((CommitPoint (sysLM w), None), lm', ())"
    "CurrentLM lm'" "LMVn lm' = LMVn (sysLM w)" "\<not> verMapHeld lm'" "VersionMap lm' = VersionMap (sysLM w)"
    "map_get (WLocks lm') = (map_get (WLocks (sysLM w)))(k := None)"
    using abort_accepts[OF pre(1,2) l(1), of me "()"] l(2) pre(3) by auto
  then show ?thesis using sys_lm_update[OF assms(1) lm'(2-4)]
    by (auto simp: sys_env_def sys_ver_def sys_locked_def version_of_def fun_eq_iff)
qed

lemma sys_rlock:
  assumes "sys_inv c lmr w" "sys_ver w k \<noteq> 0"
  shows "\<exists>lid cp w'. clRLock (sys_env c) x k me w = ((lid, sys_ver w k, cp, None), w') \<and> sys_inv c lmr w' \<and>
    sys_ver w' = sys_ver w \<and> sys_locked w' = sys_locked w \<and> sys_look c w' = sys_look c w"
proof -
  have pre: "replicas_accept (scLM c) (map Some lmr)" "CurrentLM (sysLM w)" "\<not> verMapHeld (sysLM w)"
    using assms(1) by (simp_all add: sys_inv_def)
  obtain lid lm' where lm': "createRLock (scLM c) (sysLM w) k me (scAddr c) None () =
      Ret ((lid, version_of (sysLM w) k, CommitPoint (sysLM w), None), lm', ())"
    "CurrentLM lm'" "LMVn lm' = LMVn (sysLM w)" "\<not> verMapHeld lm'" "VersionMap lm' = VersionMap (sysLM w)" "WLocks lm' = WLocks (sysLM w)"
    using createRLock_reads[OF pre, of k me "scAddr c" "()"] assms(2) pre(3) by (auto simp: sys_ver_def)
  then show ?thesis using sys_lm_update[OF assms(1) lm'(2-4)]
    by (auto simp: sys_env_def sys_ver_def sys_locked_def version_of_def fun_eq_iff)
qed

lemma sys_rlock_absent:
  assumes "sys_inv c lmr w" "sys_ver w k = 0"
  shows "\<exists>lid v cp e. clRLock (sys_env c) x k me w = ((lid, v, cp, Some e), w) \<and> \<not> isRetryable (Some e)"
  using assms by (simp add: sys_env_def createRLock_def sys_inv_def sys_ver_def plain_host_def)

interpretation system: store_service "sys_env c" "sys_inv c lmr" sys_ver sys_locked "sys_look c" "scReplicas c"
  for c :: sys_conf and lmr :: "Vnode list"
proof
  fix w assume "sys_inv c lmr w"
  then show "scReplicas c \<noteq> []" by (simp add: sys_inv_def)
next
  fix w n b assume "sys_inv c lmr w"
  show "clLookup (sys_env c) n b w = ((map Some (scReplicas c), None), w)" by (simp add: sys_env_def)
next
  fix w x assume "sys_inv c lmr w" "x \<in> set (scReplicas c)"
  show "\<not> clIsLocalVnode (sys_env c) x" by (simp add: sys_env_def)
next
  fix w and m :: nat assume "sys_inv c lmr w" "0 < m"
  then show "\<exists>r < m. clIntn (sys_env c) m w = (r, w)" by (simp add: sys_env_def sys_inv_def)
next
  fix w k v a assume "sys_inv c lmr w" "sys_look c w k v = Some a"
  then show "clGet (sys_env c) (hd (scReplicas c)) k v w = (Inr a, w)"
    by (simp add: sys_env_def sys_look_def sys_master_def kv_look_get)
next
  fix w x k v assume "sys_inv c lmr w" "x \<in> set (scReplicas c)"
  then have "\<forall>b. KVStore_get (sysStore w x) k v = Inr b \<longrightarrow> sys_look c w k v = Some b"
    by (simp add: sys_inv_def sys_look_def flip: kv_look_get)
  then show "\<exists>r. clGet (sys_env c) x k v w = (r, w) \<and> (\<forall>b. r = Inr b \<longrightarrow> sys_look c w k v = Some b)"
    by (simp add: sys_env_def)
qed (fact sys_wlock sys_set_ok sys_set_low sys_commit sys_abort sys_rlock sys_rlock_absent)+


subsection \<open>An example\<close>

definition demo_node :: Vnode where
  "demo_node = \<lparr>Id = [50], Host = ''a''\<rparr>"

definition demo_node2 :: Vnode where
  "demo_node2 = \<lparr>Id = [90], Host = ''b''\<rparr>"

definition demo_sys_conf :: sys_conf where
  "demo_sys_conf =
     \<lparr>scLM = demo_env\<lparr>envFindSuccessors := (\<lambda>v n k w. (([Some demo_node2], None), ()))\<rparr>,
      scKV = (\<lambda>x. if x = demo_node then demo_kv_env else demo_kv_env2),
      scReplicas = [demo_node, demo_node2], scArrives = (\<lambda>x. True), scIntn = (\<lambda>m. m - 1), scAddr = ''c''\<rparr>"

definition demo_sys :: sys where
  "demo_sys = \<lparr>sysLM = demo_primary, sysStore = (\<lambda>x. KVStore_init demo_kv_env)\<rparr>"

text \<open>The same world where version 1 of the key \<open>x\<close> is in the store of the master but not committed.\<close>

definition demo_orphan :: sys where
  "demo_orphan = demo_sys\<lparr>sysStore := (\<lambda>x. if x = demo_node
     then (KVStore_init demo_kv_env)\<lparr>kv := [(''x'', [\<lparr>Ver = 1, Val = [9]\<rparr>])]\<rparr> else KVStore_init demo_kv_env)\<rparr>"

lemma demo_sys_conf_ok:
  "replicas_accept (scLM demo_sys_conf) (map Some [demo_node2])" "scReplicas demo_sys_conf \<noteq> []"
  "\<forall>m > 0. scIntn demo_sys_conf m < m" "hd (scReplicas demo_sys_conf) = demo_node"
  "kvIsLocal (scKV demo_sys_conf demo_node) demo_node"
  by (auto simp: demo_sys_conf_def replicas_accept_def demo_env_def demo_node_def demo_kv_env_def)

lemma demo_plain: "plain_host (LMVn demo_primary)"
  unfolding plain_host_def demo_primary_simps by code_simp

lemma demo_sys_inv: "sys_inv demo_sys_conf [demo_node2] demo_sys"
  using demo_sys_conf_ok demo_plain
  by (auto simp: sys_inv_def demo_sys_def demo_primary_simps kv_ok_def KVStore_init_def kv_look_def KVStore_get_def)

lemma demo_orphan_inv: "sys_inv demo_sys_conf [demo_node2] demo_orphan"
  using demo_sys_conf_ok demo_plain
  by (auto simp: sys_inv_def demo_orphan_def demo_sys_def demo_primary_simps kv_ok_def KVStore_init_def
      kv_look_def KVStore_get_def sys_master_def split: if_splits)

lemma demo_sys_simps:
  "sys_locked demo_sys k = None" "sys_ver demo_sys k = 0" "sys_look demo_sys_conf demo_sys k v = None"
  "sys_locked demo_orphan k = None" "sys_ver demo_orphan k = 0"
  "sys_look demo_sys_conf demo_orphan ''x'' 1 = Some [9]"
  by (simp_all add: sys_locked_def sys_ver_def sys_look_def sys_master_def demo_sys_def demo_orphan_def
      demo_primary_simps KVStore_init_def kv_look_def KVStore_get_def demo_sys_conf_ok)

subsection \<open>Theorems\<close>



text \<open>C35: an orphaned version. If the master stores the version after the committed one (a writer stored
  its value and failed before its commit, and its lock expired), then every \<open>Set\<close> of the key fails
  with a permanent error and leaves the same situation behind: the key cannot be written any more.\<close>

theorem orphaned_version_blocks_key:
  assumes "sys_inv c lmr w" "sys_locked w k = None" "sys_look c w k (sys_ver w k + 1) = Some b"
  shows "\<exists>e lm1 w1. KVC_Set (Suc fuel) (sys_env c) lm k a w = Ret (Some e, lm1, w1) \<and> sys_inv c lmr w1 \<and>
    sys_locked w1 k = None \<and> sys_look c w1 k (sys_ver w1 k + 1) = Some b"
  using system.orphan_blocks_service[OF assms, of fuel lm a] assms(3) by auto

theorem orphaned_version_blocks_key_witness:
  "\<exists>e lm1 w1. KVC_Set 1 (sys_env demo_sys_conf) newLManagerClient ''x'' [4, 2] demo_orphan = Ret (Some e, lm1, w1) \<and>
    sys_look demo_sys_conf w1 ''x'' (sys_ver w1 ''x'' + 1) = Some [9]"
  using orphaned_version_blocks_key[OF demo_orphan_inv, of "''x''" "[9]" 0 newLManagerClient "[4, 2]"]
  by (auto simp: demo_sys_simps)

text \<open>Cached read locks. As long as a client has a read lock of a key in its cache, \<open>Get\<close> returns the
  value of that version without asking the lock manager, even when later versions have been
  committed: reads are only as fresh as the invalidations that reach this cache.\<close>

theorem cached_lock_reads_old_version:
  assumes "sys_inv c lmr w" "map_of (cRLocks lm) k = Some r" "rv_version r < sys_ver w k"
    and "sys_look c w k (rv_version r) = Some old"
  shows "KVC_Get (Suc fuel) (sys_env c) lm k retry w = Ret (Inr old, lm, w)"
  by (rule system.stale_get_service[OF assms(1,2,4)])

definition demo_stale :: sys where
  "demo_stale = demo_orphan\<lparr>sysLM := demo_primary\<lparr>VersionMap := Some [''x'' \<mapsto> 2]\<rparr>\<rparr>"

theorem cached_lock_reads_old_version_witness:
  "KVC_Get 1 (sys_env demo_sys_conf)
     \<lparr>cRLocks = [(''x'', \<lparr>rv_lockID = ''01'', rv_version = 1\<rparr>)], cWLocks = []\<rparr> ''x'' True demo_stale =
   Ret (Inr [9], \<lparr>cRLocks = [(''x'', \<lparr>rv_lockID = ''01'', rv_version = 1\<rparr>)], cWLocks = []\<rparr>, demo_stale)"
proof -
  have "sys_inv demo_sys_conf [demo_node2] demo_stale"
    using demo_orphan_inv demo_plain by (auto simp: sys_inv_def demo_stale_def sys_master_def demo_primary_simps)
  moreover have "sys_look demo_sys_conf demo_stale ''x'' 1 = Some [9]" "sys_ver demo_stale ''x'' = 2"
    using demo_sys_simps(6) by (auto simp: sys_look_def sys_master_def demo_stale_def sys_ver_def version_of_def)
  ultimately show ?thesis
    using cached_lock_reads_old_version[of demo_sys_conf "[demo_node2]" demo_stale
        "\<lparr>cRLocks = [(''x'', \<lparr>rv_lockID = ''01'', rv_version = 1\<rparr>)], cWLocks = []\<rparr>" "''x''"
        "\<lparr>rv_lockID = ''01'', rv_version = 1\<rparr>" "[9]" 0 True]
    by (simp add: word_less_nat_alt)
qed

end
