(* ===== verification/Vnode_Maint.thy ===== *)
theory Vnode_Maint
  imports Lock_Manager KV_Store
begin

text \<open>
  \<open>vnode.go\<close>: how a vnode keeps its view of the ring. The calls to other vnodes are the fields of a
  record over a world \<open>'w\<close>; the arguments of \<open>Notify\<close>, \<open>ClearPredecessor\<close> and \<open>SkipSuccessor\<close> are
  pointers the caller has just taken and so never nil. Calls of the delegate are a list of events.
  Operations are atomic: the locks they hold are not state.
\<close>

record 'w trans =
  tPing :: "Vnode \<Rightarrow> 'w \<Rightarrow> (bool \<times> go_error option) \<times> 'w"
  tGetPredecessor :: "Vnode \<Rightarrow> 'w \<Rightarrow> (Vnode option \<times> go_error option) \<times> 'w"
  tGetPredecessorList :: "Vnode \<Rightarrow> 'w \<Rightarrow> (Vnode option list \<times> go_error option) \<times> 'w"
  tNotify :: "Vnode \<Rightarrow> Vnode \<Rightarrow> 'w \<Rightarrow> (Vnode option list \<times> go_error option) \<times> 'w"
  tSkipSuccessor :: "Vnode \<Rightarrow> Vnode \<Rightarrow> 'w \<Rightarrow> go_error option \<times> 'w"
  tClearPredecessor :: "Vnode \<Rightarrow> Vnode \<Rightarrow> 'w \<Rightarrow> go_error option \<times> 'w"

datatype delegate_event =
    NewPredecessor Vnode Vnode "Vnode option"
  | Leaving Vnode "Vnode option" "Vnode option"
  | PredecessorLeaving Vnode Vnode
  | SuccessorLeaving Vnode Vnode

definition invokeDelegate :: "Config \<Rightarrow> delegate_event \<Rightarrow> delegate_event list" where
  "invokeDelegate conf e = (if HasDelegate conf then [e] else [])"

text \<open>
  \<open>Ping\<close> through the transports of \<open>transport.go\<close> and \<open>net.go\<close>: the client side (with \<open>networkCall\<close>), the
  server side, and the local transport at host \<open>h\<close>.
\<close>

definition serve_Ping :: "localVnode option \<Rightarrow> Vnode \<Rightarrow> bool \<times> go_error option" where
  "serve_Ping obj target =
     (case obj of
        Some vn \<Rightarrow> (True, None)
      | None \<Rightarrow> (False, wire_error (Some (target_not_found target))))"

definition tcp_Ping :: "bool \<Rightarrow> bool \<times> go_error option \<Rightarrow> bool \<times> go_error option" where
  "tcp_Ping conn resp =
     (if \<not> conn then (False, Some (StringError ''dial''))
      else case resp of
             (b, Some err) \<Rightarrow> (False, Some err)
           | (b, None) \<Rightarrow> (b, None))"

definition net_Ping :: "network \<Rightarrow> string \<Rightarrow> Vnode \<Rightarrow> bool \<times> go_error option" where
  "net_Ping net h target =
     (case Registered net h (String target) of
        Some vn \<Rightarrow> (True, None)
      | None \<Rightarrow>
          tcp_Ping (Conn net h (Host target))
            (serve_Ping (Registered net (Host target) (String target)) target))"

subsection \<open>Initial state and timer\<close>

text \<open>\<open>genId\<close>: the hash of the host name and the index as two big-endian bytes.\<close>

definition genId :: "Config \<Rightarrow> nat \<Rightarrow> bytes" where
  "genId conf idx =
     HashFunc conf (string_bytes (Hostname conf) @ [of_nat (idx div 256), of_nat idx])"

definition vnode_init :: "Config \<Rightarrow> nat \<Rightarrow> localVnode" where
  "vnode_init conf idx =
     \<lparr>Id = genId conf idx, Host = Hostname conf,
      successors = replicate (nat (NumSuccessors conf)) None,
      predecessors = replicate (nat (NumSuccessors conf + 1)) None,
      finger = replicate (nat (hashBits conf)) None,
      last_finger = 0, predecessor = None, stabilized = 0, timer = False\<rparr>"

definition vnode_schedule :: "localVnode \<Rightarrow> localVnode" where
  "vnode_schedule vn = vn\<lparr>timer := True\<rparr>"

definition clearTimer :: "localVnode \<Rightarrow> localVnode" where
  "clearTimer vn = vn\<lparr>timer := False\<rparr>"

subsection \<open>Successors\<close>

text \<open>
  The loop of \<open>checkNewSuccessor\<close> over the known successors when the first does not answer:
  \<open>AllDead\<close> returns the error, \<open>Live\<close> is the \<open>goto\<close>, \<open>Ended\<close> falls out of the loop.
\<close>

datatype succ_scan = AllDead | Live | Ended

fun scan_successors :: "'w trans \<Rightarrow> int \<Rightarrow> int list \<Rightarrow> localVnode \<Rightarrow> 'w \<Rightarrow> (succ_scan \<times> localVnode \<times> 'w) go" where
  "scan_successors tr known [] vn w = Ret (Ended, vn, w)"
| "scan_successors tr known (i # is) vn w =
     go_bind (go_index (successors vn) 0) (\<lambda>p.
     go_bind (deref p) (\<lambda>s.
       (case tPing tr s w of
          ((alive, _), w1) \<Rightarrow>
            if \<not> alive then
              (if i + 1 = known then Ret (AllDead, vn, w1)
               else
                 scan_successors tr known is
                   (vn\<lparr>successors := (go_copy (successors vn) (tl (successors vn)))[nat (known - 1 - i) := None]\<rparr>) w1)
            else Ret (Live, vn, w1))))"

fun checkNewSuccessor :: "nat \<Rightarrow> 'w trans \<Rightarrow> localVnode \<Rightarrow> 'w \<Rightarrow> (go_error option \<times> localVnode \<times> 'w) go" where
  "checkNewSuccessor 0 tr vn w = Hang"
| "checkNewSuccessor (Suc fuel) tr vn w =
     go_bind (go_index (successors vn) 0) (\<lambda>p. case p of
       None \<Rightarrow> Panic ''Node has no successor!''
     | Some succ \<Rightarrow>
         (case tGetPredecessor tr succ w of
            ((_, Some err), w1) \<Rightarrow>
              (let known = knownSuccessors vn
               in if known > 1 then
                    go_bind (scan_successors tr known [0..known - 1] vn w1) (\<lambda>(r, vn1, w2).
                      (case r of
                         AllDead \<Rightarrow> Ret (Some (fmt_Errorf ''All known successors dead!'' []), vn1, w2)
                       | Live \<Rightarrow> checkNewSuccessor fuel tr vn1 w2
                       | Ended \<Rightarrow> Ret (Some err, vn1, w2)))
                  else Ret (Some err, vn, w1))
          | ((None, None), w1) \<Rightarrow> Ret (None, vn, w1)
          | ((Some maybe_suc, None), w1) \<Rightarrow>
              if between (Id vn) (Id succ) (Id maybe_suc) then
                (case tPing tr maybe_suc w1 of
                   ((alive, err), w2) \<Rightarrow>
                     if alive \<and> err = None then
                       Ret (None, vn\<lparr>successors := Some maybe_suc # butlast (successors vn)\<rparr>, w2)
                     else Ret (err, vn, w2))
              else Ret (None, vn, w1)))"

text \<open>
  The loop that copies the list of a neighbour behind the first entry of an own list, up to a nil or
  to this vnode itself.
\<close>

fun update_list :: "string \<Rightarrow> Vnode option list \<Rightarrow> nat \<Rightarrow> Vnode option list \<Rightarrow> Vnode option list go" where
  "update_list self [] idx own = Ret own"
| "update_list self (None # ss) idx own = Ret own"
| "update_list self (Some s # ss) idx own =
     (if String s = self then Ret own
      else if idx + 1 \<ge> length own then Panic ''index out of range''
      else update_list self ss (idx + 1) (own[idx + 1 := Some s]))"

definition notifySuccessor :: "'w trans \<Rightarrow> Config \<Rightarrow> localVnode \<Rightarrow> 'w \<Rightarrow> (go_error option \<times> localVnode \<times> 'w) go" where
  "notifySuccessor tr conf vn w =
     go_bind (go_index (successors vn) 0) (\<lambda>p.
     go_bind (deref p) (\<lambda>succ.
       (case tNotify tr succ (GetVnode vn) w of
          ((_, Some err), w1) \<Rightarrow> Ret (Some err, vn, w1)
        | ((slist, None), w1) \<Rightarrow>
            (let max_succ = NumSuccessors conf
             in go_bind (if int (length slist) > max_succ - 1 then go_prefix slist (max_succ - 1)
                         else Ret slist) (\<lambda>slist'.
                go_bind (update_list (String (GetVnode vn)) slist' 0 (successors vn)) (\<lambda>ss.
                  Ret (None, vn\<lparr>successors := ss\<rparr>, w1)))))))"

definition SkipSuccessor :: "Config \<Rightarrow> localVnode \<Rightarrow> Vnode \<Rightarrow> (localVnode \<times> delegate_event list) go" where
  "SkipSuccessor conf vn s =
     go_bind (go_index (successors vn) 0) (\<lambda>p.
     go_bind (deref p) (\<lambda>first.
       if String first = String s then
         (let known = knownSuccessors vn
          in Ret (vn\<lparr>successors := (go_copy (successors vn) (tl (successors vn)))[nat (known - 1) := None]\<rparr>,
                  invokeDelegate conf (SuccessorLeaving (GetVnode vn) first)))
       else Ret (vn, [])))"

subsection \<open>Predecessors\<close>

definition GetPredecessor :: "localVnode \<Rightarrow> Vnode option" where
  "GetPredecessor vn = predecessor vn"

text \<open>The known predecessors; the loop reads \<open>NumSuccessors + 1\<close> entries.\<close>

definition GetPredecessorList :: "Config \<Rightarrow> localVnode \<Rightarrow> Vnode option list go" where
  "GetPredecessorList conf vn =
     (if NumSuccessors conf + 1 > int (length (predecessors vn)) then Panic ''index out of range''
      else Ret (filter (\<lambda>p. p \<noteq> None) (take (nat (NumSuccessors conf + 1)) (predecessors vn))))"

text \<open>What \<open>Notify\<close> sees of its ring: the local vnodes and the result of looking up the lock manager.\<close>

record ring_view =
  rvVnodes :: "localVnode list"
  rvLookup :: vnodes_result

text \<open>
  The lock manager's part of \<open>Notify\<close>; the boolean says that the version map is sent to the new lock
  manager. An error of the lookup is only printed: the first element of the result is read anyway.
\<close>

definition lm_status :: "ring_view \<Rightarrow> Config \<Rightarrow> localVnode \<Rightarrow> LManager \<Rightarrow> Vnode \<Rightarrow> (LManager \<times> bool) go" where
  "lm_status rv conf vn lm maybe_pred =
     (if block lm then Ret (lm, False)
      else
        go_bind (nearestVnode (rvVnodes rv) (string_bytes (RingId conf))) (\<lambda>nearest.
        go_bind (go_index (successors nearest) 0) (\<lambda>s.
          if s \<noteq> None \<and>
             (case predecessor vn of None \<Rightarrow> True | Some p \<Rightarrow> bytes_Compare (Id p) (Id maybe_pred) \<noteq> 0) then
            go_bind (rvLookup rv) (\<lambda>(nodes, err).
            go_bind (go_index (case nodes of None \<Rightarrow> [] | Some ns \<Rightarrow> ns) 0) (\<lambda>q.
            go_bind (deref q) (\<lambda>first.
              Ret (if String (GetVnode vn) = String first then
                     (if CurrentLM lm then (lm, False) else ((ReplayLog lm)\<lparr>CurrentLM := True\<rparr>, False))
                   else
                     (if CurrentLM lm then (lm\<lparr>CurrentLM := False\<rparr>, True) else (lm, False))))))
          else Ret (lm, False))))"

definition Notify :: "ring_view \<Rightarrow> Config \<Rightarrow> localVnode \<Rightarrow> LManager \<Rightarrow> Vnode
    \<Rightarrow> (Vnode option list \<times> localVnode \<times> LManager \<times> bool \<times> delegate_event list) go" where
  "Notify rv conf vn lm maybe_pred =
     (if (case predecessor vn of None \<Rightarrow> True | Some p \<Rightarrow> between (Id p) (Id vn) (Id maybe_pred)) then
        go_bind (lm_status rv conf vn lm maybe_pred) (\<lambda>(lm', sent).
          if predecessors vn = [] then Panic ''index out of range''
          else
            (let vn' = vn\<lparr>predecessor := Some maybe_pred, predecessors := (predecessors vn)[0 := Some maybe_pred]\<rparr>
             in go_bind (CopyOfSuccessors vn') (\<lambda>ss.
                  Ret (ss, vn', lm', sent,
                       invokeDelegate conf (NewPredecessor (GetVnode vn) maybe_pred (predecessor vn))))))
      else go_bind (CopyOfSuccessors vn) (\<lambda>ss. Ret (ss, vn, lm, False, [])))"

definition checkPredecessor :: "'w trans \<Rightarrow> localVnode \<Rightarrow> 'w \<Rightarrow> (go_error option \<times> localVnode \<times> 'w) go" where
  "checkPredecessor tr vn w =
     (case predecessor vn of
        None \<Rightarrow> Ret (None, vn, w)
      | Some p \<Rightarrow>
          (case tPing tr p w of
             ((res, Some err), w1) \<Rightarrow> Ret (Some err, vn, w1)
           | ((res, None), w1) \<Rightarrow>
               if \<not> res then
                 (if predecessors vn = [] then Panic ''index out of range''
                  else Ret (None, vn\<lparr>predecessor := None, predecessors := (predecessors vn)[0 := None]\<rparr>, w1))
               else Ret (None, vn, w1)))"

definition updatePredecessorList :: "'w trans \<Rightarrow> Config \<Rightarrow> localVnode \<Rightarrow> 'w \<Rightarrow> (go_error option \<times> localVnode \<times> 'w) go" where
  "updatePredecessorList tr conf vn w =
     (case predecessor vn of
        None \<Rightarrow> Ret (None, vn, w)
      | Some p \<Rightarrow>
          (case tGetPredecessorList tr p w of
             ((_, Some err), w1) \<Rightarrow> Ret (Some err, vn, w1)
           | ((plist, None), w1) \<Rightarrow>
               (let max_pred = NumSuccessors conf + 1
                in go_bind (if int (length plist) > max_pred - 1 then go_prefix plist (max_pred - 1)
                            else Ret plist) (\<lambda>plist'.
                   go_bind (update_list (String (GetVnode vn)) plist' 0 (predecessors vn)) (\<lambda>ps.
                     Ret (None, vn\<lparr>predecessors := ps\<rparr>, w1))))))"

definition ClearPredecessor :: "Config \<Rightarrow> localVnode \<Rightarrow> Vnode \<Rightarrow> (localVnode \<times> delegate_event list) go" where
  "ClearPredecessor conf vn p =
     (case predecessor vn of
        None \<Rightarrow> Ret (vn, [])
      | Some old \<Rightarrow>
          if String old = String p then
            (if predecessors vn = [] then Panic ''index out of range''
             else Ret (vn\<lparr>predecessor := None, predecessors := (predecessors vn)[0 := None]\<rparr>,
                       invokeDelegate conf (PredecessorLeaving (GetVnode vn) old)))
          else Ret (vn, []))"

subsection \<open>Fingers\<close>

text \<open>The loop that fills the following entries while the node is still their successor.\<close>

function fill_fingers :: "Vnode option \<Rightarrow> int \<Rightarrow> localVnode \<Rightarrow> localVnode go" where
  "fill_fingers node hb vn =
     (let next = last_finger vn + 1
      in if next \<ge> hb then Ret vn
         else
           go_bind (deref node) (\<lambda>nd.
             if betweenRightIncl (Id vn) (Id nd) (powerOffset (Id vn) next hb) then
               (if next < 0 \<or> next \<ge> int (length (finger vn)) then Panic ''index out of range''
                else fill_fingers node hb (vn\<lparr>finger := (finger vn)[nat next := node], last_finger := next\<rparr>))
             else Ret vn))"
  by pat_completeness auto

termination
  by (relation "measure (\<lambda>(node, hb, vn). nat (hb - last_finger vn))") auto

definition fixFingerTable :: "find_rpc \<Rightarrow> Config \<Rightarrow> localVnode \<Rightarrow> (go_error option \<times> localVnode) go" where
  "fixFingerTable rpc conf vn =
     (let hb = hashBits conf;
          offset = powerOffset (Id vn) (last_finger vn) hb
      in go_bind (FindSuccessors rpc conf vn 1 offset) (\<lambda>(nodes, err).
           (case nodes of
              None \<Rightarrow> Ret (err, vn)
            | Some [] \<Rightarrow> Ret (err, vn)
            | Some (node # _) \<Rightarrow>
                if err \<noteq> None then Ret (err, vn)
                else if last_finger vn < 0 \<or> last_finger vn \<ge> int (length (finger vn)) then
                  Panic ''index out of range''
                else
                  go_bind (fill_fingers node hb (vn\<lparr>finger := (finger vn)[nat (last_finger vn) := node]\<rparr>)) (\<lambda>vn1.
                    Ret (None, vn1\<lparr>last_finger :=
                      (if last_finger vn1 + 1 = hb then 0 else last_finger vn1 + 1)\<rparr>)))))"

subsection \<open>Leaving and the periodic task\<close>

definition leave :: "'w trans \<Rightarrow> Config \<Rightarrow> localVnode \<Rightarrow> 'w \<Rightarrow> (go_error option \<times> delegate_event list \<times> 'w) go" where
  "leave tr conf vn w =
     go_bind (go_index (successors vn) 0) (\<lambda>succ.
       let ev = invokeDelegate conf (Leaving (GetVnode vn) (predecessor vn) succ);
           (err, w1) = (case predecessor vn of
                          None \<Rightarrow> (None, w)
                        | Some p \<Rightarrow> tSkipSuccessor tr p (GetVnode vn) w)
       in go_bind (deref succ) (\<lambda>s.
            let (err2, w2) = tClearPredecessor tr s (GetVnode vn) w1
            in Ret (mergeErrors err err2, ev, w2)))"

text \<open>The store's view of its vnode.\<close>

record store_ring =
  srIsLocal :: "Vnode \<Rightarrow> bool"
  srLookup :: "int \<Rightarrow> bytes \<Rightarrow> vnodes_result"

definition store_env :: "store_ring \<Rightarrow> Config \<Rightarrow> localVnode \<Rightarrow> kv_env" where
  "store_env sr conf vn =
     \<lparr>kvVn = GetVnode vn, kvPredecessor = predecessor vn, kvSuccessors = successors vn,
      kvIsLocal = srIsLocal sr, kvHash = HashFunc conf, kvNumSuccessors = nat (NumSuccessors conf),
      kvLookup = srLookup sr\<rparr>"

text \<open>
  \<open>stabilize\<close>: errors of the five steps are logged and dropped. The two replications run as
  goroutines of their own; their messages are part of the result. A shutdown request ends the
  sequence of timers (\<open>True\<close> is the message on \<open>shutdownComplete\<close>).
\<close>

definition stabilize :: "nat \<Rightarrow> 'w trans \<Rightarrow> find_rpc \<Rightarrow> store_ring \<Rightarrow> Config \<Rightarrow> bool \<Rightarrow> int \<Rightarrow> localVnode \<Rightarrow> KVStore \<Rightarrow> 'w
    \<Rightarrow> (bool \<times> localVnode \<times> KVStore \<times> kv_msg list \<times> 'w) go" where
  "stabilize fuel tr rpc sr conf shutdown now vn kvs w =
     (let vn0 = clearTimer vn
      in if shutdown then Ret (True, vn0, kvs, [], w)
         else
           go_bind (checkNewSuccessor fuel tr vn0 w) (\<lambda>(_, vn1, w1).
           go_bind (notifySuccessor tr conf vn1 w1) (\<lambda>(_, vn2, w2).
           go_bind (fixFingerTable rpc conf vn2) (\<lambda>(_, vn3).
           go_bind (checkPredecessor tr vn3 w2) (\<lambda>(_, vn4, w3).
           go_bind (updatePredecessorList tr conf vn4 w3) (\<lambda>(_, vn5, w4).
             let kvs' = updatePredSuccList kvs (predecessors vn5) (successors vn5);
                 env = store_env sr conf vn5
             in go_bind (localRepl env kvs') (\<lambda>ms1.
                go_bind (globalRepl env kvs') (\<lambda>ms2.
                  Ret (False, vnode_schedule (vn5\<lparr>stabilized := now\<rparr>), kvs', ms1 @ ms2, w4)))))))))"

end
