(* ===== verification/Routing.thy ===== *)
theory Routing
  imports Find_Succ
begin

text \<open>
  Correctness of routing. A ring is \<open>stable\<close> when the successor lists of its vnodes are right and
  their tables name ring members only. On a stable ring, whatever calls fail, an answer of
  \<open>FindSuccessors\<close> starts with the owner of the key; and when calls get through, an answer comes
  after at most one hop per ring member that is closer to the key.
\<close>

subsection \<open>Specification\<close>

definition key_owner :: "nat \<Rightarrow> Vnode set \<Rightarrow> bytes \<Rightarrow> Vnode \<Rightarrow> bool" where
  "key_owner L S k s \<longleftrightarrow>
     s \<in> S \<and> (\<forall>v \<in> S. distance k (Id s) (int (8 * L)) \<le> distance k (Id v) (int (8 * L)))"

text \<open>
  The successor list of \<open>vn\<close> is right: it has no holes, starts with a live successor, and before its
  \<open>i\<close>-th entry it lists every ring member that lies between.
\<close>

definition succs_ok :: "nat \<Rightarrow> Vnode set \<Rightarrow> localVnode \<Rightarrow> bool" where
  "succs_ok L S vn \<longleftrightarrow>
     no_holes (successors vn) \<and> 1 \<le> knownSuccessors vn \<and>
     (\<forall>v. Some v \<in> set (successors vn) \<longrightarrow> Id v \<noteq> Id vn) \<and>
     (\<forall>i s. int i < knownSuccessors vn \<longrightarrow> successors vn ! i = Some s \<longrightarrow>
        (\<forall>u \<in> S. Id u \<noteq> Id vn \<longrightarrow>
           distance (Id vn) (Id u) (int (8 * L)) < distance (Id vn) (Id s) (int (8 * L)) \<longrightarrow>
           (\<exists>j < i. successors vn ! j = Some u)))"

definition vnode_ok :: "nat \<Rightarrow> Vnode set \<Rightarrow> localVnode \<Rightarrow> bool" where
  "vnode_ok L S vn \<longleftrightarrow>
     GetVnode vn \<in> S \<and> succs_ok L S vn \<and>
     (\<forall>v. Some v \<in> set (successors vn) \<union> set (finger vn) \<longrightarrow> v \<in> S)"

definition stable_ring :: "nat \<Rightarrow> network \<Rightarrow> Vnode set \<Rightarrow> bool" where
  "stable_ring L net S \<longleftrightarrow>
     finite S \<and> inj_on Id S \<and> (\<forall>v \<in> S. length (Id v) = L) \<and>
     (\<forall>v \<in> S. Registered net (Host v) (String v) \<noteq> None) \<and>
     (\<forall>h t vn. Registered net h t = Some vn \<longrightarrow> t = hex_encode (Id vn) \<and> h = Host vn \<and> vnode_ok L S vn)"

lemma key_owner_iff: "inj_on Id S \<Longrightarrow> s \<in> S \<Longrightarrow>
   key_owner L S k s \<longleftrightarrow> id_ring.owner L (Id ` S) k (Id s)"
  unfolding key_owner_def id_ring.owner_def by auto

lemma key_owner_unique:
  assumes "stable_ring L net S" "length k = L" "key_owner L S k s" "key_owner L S k t"
  shows "s = t"
proof -
  have S: "s \<in> S" "t \<in> S" "inj_on Id S" "\<And>x. x \<in> Id ` S \<Longrightarrow> length x = L"
    using assms by (auto simp: key_owner_def stable_ring_def)
  then have "Id s = Id t"
    using assms(2-) id_ring.owner_unique [of "Id ` S" L k "Id s" "Id t"] by (simp add: key_owner_iff)
  with S show ?thesis by (auto dest: inj_onD)
qed

subsection \<open>A single call\<close>

lemma stable_vnode:
  assumes "stable_ring L net S" "Registered net h t = Some vn"
  shows "vnode_ok L S vn" "length (Id vn) = L" "h = Host vn" "t = hex_encode (Id vn)"
  using assms by (auto simp: stable_ring_def vnode_ok_def) (metis GetVnode_simps(1))

lemma stable_lengths: "stable_ring L net S \<Longrightarrow> v \<in> S \<Longrightarrow> length (Id v) = L"
  by (simp add: stable_ring_def)

lemma first_successor:
  assumes "vnode_ok L S vn"
  obtains s0 where "successors vn ! 0 = Some s0" "successors vn \<noteq> []" "s0 \<in> S" "Id s0 \<noteq> Id vn"
    "0 < knownSuccessors vn"
proof -
  from assms have ok: "no_holes (successors vn)" "0 < knownSuccessors vn"
    by (auto simp: vnode_ok_def succs_ok_def)
  then obtain s0 where s0: "successors vn ! 0 = Some s0"
    using nth_known [of vn 0] by auto
  from ok have ne: "successors vn \<noteq> []"
    using knownSuccessors_bounds [of vn] by auto
  with s0 have "Some s0 \<in> set (successors vn)" by (metis length_greater_0_conv nth_mem)
  with assms ok s0 ne that show thesis by (auto simp: vnode_ok_def succs_ok_def)
qed

text \<open>
  The key reaches up to the \<open>i\<close>-th successor and to none before it: that successor owns the key.
\<close>

lemma ith_successor_owner:
  assumes st: "stable_ring L net S" and ok: "vnode_ok L S vn" "length (Id vn) = L"
    and k: "length k = L" and i: "int i < knownSuccessors vn" "successors vn ! i = Some s"
    and btw: "betweenRightIncl (Id vn) (Id s) k"
    and before: "\<And>j u. j < i \<Longrightarrow> successors vn ! j = Some u \<Longrightarrow> \<not> betweenRightIncl (Id vn) (Id u) k"
  shows "key_owner L S k s"
proof -
  have "i < length (successors vn)" using i(1) knownSuccessors_bounds [of vn] by simp
  with i(2) have "Some s \<in> set (successors vn)" by (metis nth_mem)
  with ok(1) have sS: "s \<in> S" by (auto simp: vnode_ok_def)
  have L: "\<And>v. v \<in> S \<Longrightarrow> length (Id v) = L" and inj: "inj_on Id S"
    using st by (auto simp: stable_ring_def)
  let ?d = "\<lambda>x. distance (Id vn) x (int (8 * L))"
  have dk: "0 < ?d k" "?d k \<le> ?d (Id s)"
    using btw ok(2) k L [OF sS] by (auto simp: betweenRightIncl_distance)
  have "id_ring.owner L (Id ` S) k (Id s)"
  proof (rule id_ring.first_after_owner [where a = "Id vn"])
    fix x assume x: "x \<in> Id ` S" "x \<noteq> Id vn" "?d k \<le> ?d x"
    then obtain u where u: "u \<in> S" "x = Id u" by auto
    show "?d (Id s) \<le> ?d x"
    proof (rule ccontr)
      assume "\<not> ?thesis"
      with ok(1) i u x(2) obtain j where "j < i" "successors vn ! j = Some u"
        unfolding vnode_ok_def succs_ok_def by (metis linorder_not_le)
      then have "\<not> betweenRightIncl (Id vn) (Id u) k" by (rule before)
      with dk x(3) u ok(2) k L [OF u(1)] show False by (simp add: betweenRightIncl_distance)
    qed
  qed (use L ok(2) k sS dk in auto)
  with inj sS show ?thesis by (simp add: key_owner_iff)
qed

text \<open>What an answer promises: its first entry is the owner of the key.\<close>

definition answers_owner :: "nat \<Rightarrow> Vnode set \<Rightarrow> bytes \<Rightarrow> vnodes_result \<Rightarrow> bool" where
  "answers_owner L S k r \<longleftrightarrow>
     (\<forall>nodes. r = Ret (nodes, None) \<longrightarrow>
        (\<exists>s rest. nodes = Some (Some s # rest) \<and> key_owner L S k s))"

lemma answers_ownerI:
  "(\<And>nodes. r = Ret (nodes, None) \<Longrightarrow> \<exists>s rest. nodes = Some (Some s # rest) \<and> key_owner L S k s)
    \<Longrightarrow> answers_owner L S k r"
  by (simp add: answers_owner_def)

definition rpc_sound :: "nat \<Rightarrow> Vnode set \<Rightarrow> int \<Rightarrow> bytes \<Rightarrow> find_rpc \<Rightarrow> bool" where
  "rpc_sound L S n k rpc \<longleftrightarrow> (\<forall>v. answers_owner L S k (rpc v n k))"

lemma find_loop_sound:
  assumes "rpc_sound L S n k rpc"
  shows "find_loop rpc conf vn n k cp = Ret (Some nodes) \<Longrightarrow>
    \<exists>s rest. nodes = Some (Some s # rest) \<and> key_owner L S k s"
  using assms
proof (induction rpc conf vn n k cp rule: find_loop.induct)
  case (1 rpc conf vn n k cp)
  obtain r cp' where nx: "cp_Next conf vn cp = (r, cp')" by fastforce
  show ?case
  proof (cases r)
    case None
    with 1(2) nx show ?thesis by (simp add: find_loop.simps)
  next
    case (Some v)
    with 1(2) nx obtain res err where rpc: "rpc v n k = Ret (res, err)"
      and cont: "(if err = None then Ret (Some res) else find_loop rpc conf vn n k cp') = Ret (Some nodes)"
      by (subst (asm) find_loop.simps) (auto simp: go_bind_Ret_iff)
    show ?thesis
    proof (cases err)
      case None
      with cont rpc 1(3) show ?thesis by (auto simp: rpc_sound_def answers_owner_def)
    next
      case (Some e)
      with cont have "find_loop rpc conf vn n k cp' = Ret (Some nodes)" by simp
      moreover have "err \<noteq> None" using Some by simp
      ultimately show ?thesis using 1(1) [OF nx [symmetric] \<open>r = Some v\<close> _ _ 1(3)] by blast
    qed
  qed
qed

lemma find_known_hit:
  "find_known vn n k is = Ret (Some nodes) \<Longrightarrow>
   \<exists>ys i zs s. is = ys @ i # zs \<and> 0 \<le> i \<and> nat i < length (successors vn) \<and>
     successors vn ! nat i = Some s \<and> betweenRightIncl (Id vn) (Id s) k \<and>
     (\<forall>j \<in> set ys. \<forall>u. successors vn ! nat j = Some u \<longrightarrow> \<not> betweenRightIncl (Id vn) (Id u) k) \<and>
     nodes = (if int (length (drop (nat i) (successors vn))) > n
              then take (nat n) (drop (nat i) (successors vn)) else drop (nat i) (successors vn)) \<and>
     (int (length (drop (nat i) (successors vn))) > n \<longrightarrow> 0 \<le> n)"
proof (induction "is")
  case (Cons i "is")
  then obtain s where s: "0 \<le> i" "nat i < length (successors vn)" "successors vn ! nat i = Some s"
    by auto
  show ?case
  proof (cases "betweenRightIncl (Id vn) (Id s) k")
    case True
    with Cons.prems s show ?thesis
      by (intro exI [of _ "[]"]) (auto simp: Let_def split: if_splits)
  next
    case False
    with Cons.prems s have "find_known vn n k is = Ret (Some nodes)" by simp
    from Cons.IH [OF this] obtain ys i' zs s' where
      "is = ys @ i' # zs" and r: "0 \<le> i' \<and> nat i' < length (successors vn) \<and>
       successors vn ! nat i' = Some s' \<and> betweenRightIncl (Id vn) (Id s') k \<and>
       (\<forall>j \<in> set ys. \<forall>u. successors vn ! nat j = Some u \<longrightarrow> \<not> betweenRightIncl (Id vn) (Id u) k) \<and>
       nodes = (if int (length (drop (nat i') (successors vn))) > n
              then take (nat n) (drop (nat i') (successors vn)) else drop (nat i') (successors vn)) \<and>
       (int (length (drop (nat i') (successors vn))) > n \<longrightarrow> 0 \<le> n)" by blast
    with s False show ?thesis
      by (intro exI [of _ "i # ys"] exI [of _ i'] exI [of _ zs] exI [of _ s']) simp
  qed
qed simp

lemma upto_prefix: "[a..b] = ys @ i # zs \<Longrightarrow> set ys = {a..i - 1} \<and> a \<le> i \<and> i \<le> b"
proof (induction ys arbitrary: a)
  case Nil
  then show ?case by (auto simp: upto.simps [of a b] split: if_splits)
next
  case (Cons y ys)
  then have "a \<le> b" "y = a" "[a + 1..b] = ys @ i # zs"
    by (auto simp: upto.simps [of a b] split: if_splits)
  with Cons.IH show ?case by force
qed

lemma find_known_sound:
  assumes st: "stable_ring L net S" and ok: "vnode_ok L S vn" "length (Id vn) = L"
    and k: "length k = L" and n: "1 \<le> n"
    and miss: "\<And>s0. successors vn ! 0 = Some s0 \<Longrightarrow> \<not> betweenRightIncl (Id vn) (Id s0) k"
    and r: "find_known vn n k [1..knownSuccessors vn - n] = Ret (Some nodes)"
  shows "\<exists>s rest. nodes = Some s # rest \<and> key_owner L S k s"
proof -
  from find_known_hit [OF r] obtain ys i zs s where
    split: "[1..knownSuccessors vn - n] = ys @ i # zs"
    and i: "0 \<le> i" "nat i < length (successors vn)" "successors vn ! nat i = Some s"
      "betweenRightIncl (Id vn) (Id s) k"
    and before: "\<And>j u. j \<in> set ys \<Longrightarrow> successors vn ! nat j = Some u \<Longrightarrow> \<not> betweenRightIncl (Id vn) (Id u) k"
    and nodes: "nodes = (if int (length (drop (nat i) (successors vn))) > n
              then take (nat n) (drop (nat i) (successors vn)) else drop (nat i) (successors vn))"
    by blast
  note ys = upto_prefix [OF split]
  have "key_owner L S k s"
  proof (rule ith_successor_owner [OF st ok k _ i(3,4)])
    show "int (nat i) < knownSuccessors vn" using ys n i(1) by simp
    fix j u assume j: "j < nat i" "successors vn ! j = Some u"
    show "\<not> betweenRightIncl (Id vn) (Id u) k"
    proof (cases "j = 0")
      case False
      with j ys have "int j \<in> set ys" by auto
      from before [OF this] j show ?thesis by simp
    qed (use j miss in simp)
  qed
  moreover have "drop (nat i) (successors vn) = Some s # drop (Suc (nat i)) (successors vn)"
    using i(2,3) by (simp add: Cons_nth_drop_Suc [symmetric])
  ultimately show ?thesis using nodes n by (cases "nat n") auto
qed

lemma FindSuccessors_sound:
  assumes st: "stable_ring L net S" and ok: "vnode_ok L S vn" "length (Id vn) = L"
    and k: "length k = L" and n: "1 \<le> n"
    and rpc: "rpc_sound L S n k rpc"
  shows "answers_owner L S k (FindSuccessors rpc conf vn n k)"
proof (rule answers_ownerI)
  fix nodes assume r: "FindSuccessors rpc conf vn n k = Ret (nodes, None)"
  from ok(1) obtain s0 where s0: "successors vn ! 0 = Some s0" "successors vn \<noteq> []"
    and kn: "0 < knownSuccessors vn" by (rule first_successor)
  show "\<exists>s rest. nodes = Some (Some s # rest) \<and> key_owner L S k s"
  proof (cases "betweenRightIncl (Id vn) (Id s0) k")
    case True
    with r s0 have nodes: "nodes = Some (take (nat n) (successors vn))"
      by (auto simp: FindSuccessors_def)
    have "key_owner L S k s0"
      by (rule ith_successor_owner [OF st ok k _ s0(1) True]) (use kn in auto)
    with nodes s0 n show ?thesis by (cases "nat n"; cases "successors vn") auto
  next
    case False
    with r s0 obtain found where f: "find_loop rpc conf vn n k (cp_init vn k) = Ret found"
      and c: "(case found of Some res \<Rightarrow> Ret (res, None) | None \<Rightarrow>
        go_bind (find_known vn n k [1..knownSuccessors vn - n]) (\<lambda>r. case r of
          Some res \<Rightarrow> Ret (Some res, None)
        | None \<Rightarrow> Ret (None, Some (fmt_Errorf ''Exhausted all preceeding nodes!'' [])))) = Ret (nodes, None)"
      by (auto simp: FindSuccessors_def)
    show ?thesis
    proof (cases found)
      case (Some res)
      with c f find_loop_sound [OF rpc] show ?thesis by auto
    next
      case None
      with c obtain ns where "find_known vn n k [1..knownSuccessors vn - n] = Ret (Some ns)" "nodes = Some ns"
        by (auto split: option.splits)
      with find_known_sound [OF st ok k n] s0 False show ?thesis by auto
    qed
  qed
qed

lemma trim_loop_append: "trim_loop (xs @ [Some v]) = Ret ys \<Longrightarrow> \<exists>zs. ys = Some v # zs"
  by (induction xs rule: trim_loop.induct) auto

lemma trim_loop_returns: "\<exists>ys. trim_loop (xs @ [Some v]) = Ret ys"
  by (induction xs rule: trim_loop.induct) auto

lemma trimSlice_head:
  "trimSlice (Some (Some v # xs)) = Ret r \<Longrightarrow> \<exists>zs. r = Some (Some v # zs)"
  using trim_loop_append [of "rev xs" v] by (auto simp: trimSlice_def)

lemma trimSlice_returns: "\<exists>zs. trimSlice (Some (Some v # xs)) = Ret (Some (Some v # zs))"
  using trim_loop_returns [of "rev xs" v] trim_loop_append [of "rev xs" v]
  by (fastforce simp: trimSlice_def)

lemma wire_error_None [simp]: "wire_error e = None \<longleftrightarrow> e = None" "wire_error None = None"
  by (auto simp: wire_error_def split: option.splits go_error.splits)

lemma serve_sound:
  assumes "\<And>vn. obj = Some vn \<Longrightarrow> answers_owner L S k (call vn)"
  shows "answers_owner L S k (serve_FindSuccessors call obj target)"
proof (rule answers_ownerI)
  fix nodes assume r: "serve_FindSuccessors call obj target = Ret (nodes, None)"
  then obtain vn ns where "obj = Some vn" "call vn = Ret (ns, None)" "trimSlice ns = Ret nodes"
    by (auto simp: serve_FindSuccessors_def split: option.splits)
  with assms obtain s rest where "ns = Some (Some s # rest)" "key_owner L S k s"
    by (auto simp: answers_owner_def)
  with \<open>trimSlice ns = Ret nodes\<close> trimSlice_head show
    "\<exists>s rest. nodes = Some (Some s # rest) \<and> key_owner L S k s" by blast
qed

lemma tcp_sound:
  "answers_owner L S k resp \<Longrightarrow> answers_owner L S k (tcp_FindSuccessors conn resp)"
  by (auto simp: answers_owner_def tcp_FindSuccessors_def split: go.splits option.splits if_splits)

theorem net_find_sound:
  assumes "stable_ring L net S" "length k = L" "1 \<le> n"
  shows "rpc_sound L S n k (net_find fuel net conf h)"
proof (induction fuel arbitrary: h)
  case 0
  show ?case by (simp add: rpc_sound_def answers_owner_def)
next
  case (Suc fuel)
  have "answers_owner L S k (net_find (Suc fuel) net conf h target n k)" for target
  proof (cases "Registered net h (String target)")
    case (Some vn)
    with FindSuccessors_sound [OF assms(1) stable_vnode(1,2) [OF assms(1) Some] assms(2,3) Suc.IH]
    show ?thesis by simp
  next
    case None
    have "answers_owner L S k
        (serve_FindSuccessors (\<lambda>vn. FindSuccessors (net_find fuel net conf (Host target)) conf vn n k)
           (Registered net (Host target) (String target)) target)"
      by (rule serve_sound)
         (rule FindSuccessors_sound [OF assms(1) stable_vnode(1,2) [OF assms(1)] assms(2,3) Suc.IH])
    with None show ?thesis by (simp add: tcp_sound)
  qed
  then show ?case by (simp add: rpc_sound_def)
qed

subsection \<open>Answers come, and how many hops they take\<close>

text \<open>The ring members closer to the key than \<open>a\<close>.\<close>

definition closer :: "nat \<Rightarrow> Vnode set \<Rightarrow> bytes \<Rightarrow> bytes \<Rightarrow> nat" where
  "closer L S k a =
     card {x \<in> Id ` S. distance x k (int (8 * L)) < distance a k (int (8 * L))}"

lemma closer_le: "finite S \<Longrightarrow> closer L S k a \<le> card S"
  unfolding closer_def
  by (rule order_trans [OF card_mono card_image_le]) auto

lemma hop_closer:
  assumes "finite S" "x \<in> Id ` S" "length a = L" "length k = L" "length x = L" "between a k x"
  shows "closer L S k x < closer L S k a"
proof -
  let ?d = "\<lambda>y. distance y k (int (8 * L))"
  have "0 < distance a x (int (8 * L))" "distance a x (int (8 * L)) < ?d a"
    using assms by (simp_all add: between_distance)
  then have lt: "?d x < ?d a"
    using id_ring.hop_decreases [of a L x k] assms(3-5) by simp
  have "{y \<in> Id ` S. ?d y < ?d x} \<subset> {y \<in> Id ` S. ?d y < ?d a}"
    using lt assms(2) by auto
  then show ?thesis
    unfolding closer_def using assms(1) by (intro psubset_card_mono) auto
qed

lemma FindSuccessors_total:
  assumes st: "stable_ring L net S" and ok: "vnode_ok L S vn" "length (Id vn) = L"
    and k: "length k = L" "Id vn \<noteq> k" and n: "1 \<le> n" "n \<le> int (length (successors vn))"
    and rpc: "\<And>v. v \<in> S \<Longrightarrow> between (Id vn) k (Id v) \<Longrightarrow> \<exists>nodes. rpc v n k = Ret (nodes, None)"
  shows "\<exists>nodes. FindSuccessors rpc conf vn n k = Ret (nodes, None)"
proof -
  from ok(1) obtain s0 where s0: "successors vn ! 0 = Some s0" "successors vn \<noteq> []" "s0 \<in> S" "Id s0 \<noteq> Id vn"
    by (rule first_successor)
  have Ls: "length (Id s0) = L" using st s0(3) by (rule stable_lengths)
  show ?thesis
  proof (cases "betweenRightIncl (Id vn) (Id s0) k")
    case True
    with s0 n show ?thesis by (simp add: FindSuccessors_def)
  next
    case False
    have "0 < distance (Id vn) k (int (8 * L))" "0 < distance (Id vn) (Id s0) (int (8 * L))"
      using id_ring.dist_pos [of "Id vn" L] ok(2) k s0(4) Ls by auto
    with False have "between (Id vn) k (Id s0)"
      using ok(2) k(1) Ls by (simp add: betweenRightIncl_distance between_distance)
    moreover have "Some s0 \<in> set (successors vn)" using s0 by (metis length_greater_0_conv nth_mem)
    ultimately have "cp_cand vn (cp_init vn k) s0"
      using s0 by (auto simp: cp_cand_def cp_init_def intro!: exI [of _ "0::nat"] simp: Suc_le_eq)
    then obtain v cp' where nx: "cp_Next conf vn (cp_init vn k) = (Some v, cp')"
      using cp_Next_no_cand by (metis option.exhaust surj_pair)
    then have "v \<in> S" "between (Id vn) k (Id v)"
      using cp_Next_tables [OF cp_init_wf nx] cp_Next_Some [OF nx] ok(1)
      by (auto simp: vnode_ok_def cp_init_def)
    then obtain nodes where "rpc v n k = Ret (nodes, None)" using rpc by blast
    with nx have "find_loop rpc conf vn n k (cp_init vn k) = Ret (Some nodes)"
      by (simp add: find_loop.simps)
    with False s0 show ?thesis by (simp add: FindSuccessors_def)
  qed
qed

definition all_connected :: "network \<Rightarrow> Vnode set \<Rightarrow> bool" where
  "all_connected net S \<longleftrightarrow> (\<forall>u \<in> S. \<forall>v \<in> S. Conn net (Host u) (Host v))"

definition lists_hold :: "network \<Rightarrow> int \<Rightarrow> bool" where
  "lists_hold net n \<longleftrightarrow> (\<forall>h t vn. Registered net h t = Some vn \<longrightarrow> n \<le> int (length (successors vn)))"

lemma net_find_total:
  assumes st: "stable_ring L net S" and conn: "all_connected net S" and k: "length k = L"
    and n: "1 \<le> n" "lists_hold net n"
  shows "h \<in> Host ` S \<Longrightarrow> target \<in> S \<Longrightarrow> Id target \<noteq> k \<Longrightarrow> closer L S k (Id target) < fuel \<Longrightarrow>
    \<exists>nodes. net_find fuel net conf h target n k = Ret (nodes, None)"
proof (induction fuel arbitrary: h target)
  case (Suc fuel)
  have call: "\<exists>nodes. FindSuccessors (net_find fuel net conf g) conf vn n k = Ret (nodes, None)"
    if r: "Registered net f (String target) = Some vn" and g: "g \<in> Host ` S" for f g vn
  proof (rule FindSuccessors_total [OF st stable_vnode(1,2) [OF st r] k _ n(1)])
    have idv: "Id vn = Id target"
      using stable_vnode(4) [OF st r] by (simp add: String_def)
    then show "Id vn \<noteq> k" using Suc.prems(3) by simp
    show "n \<le> int (length (successors vn))" using n(2) r by (auto simp: lists_hold_def)
    fix v assume v: "v \<in> S" "between (Id vn) k (Id v)"
    have L: "length (Id vn) = L" "length (Id v) = L"
      using stable_vnode(2) [OF st r] stable_lengths [OF st v(1)] .
    have "Id v \<noteq> k" using v(2) L k by (auto simp: between_distance)
    moreover have "closer L S k (Id v) < closer L S k (Id vn)"
      using v L k st by (intro hop_closer) (auto simp: stable_ring_def)
    ultimately show "\<exists>nodes. net_find fuel net conf g v n k = Ret (nodes, None)"
      using Suc.IH [OF g v(1)] Suc.prems(4) idv by simp
  qed
  show ?case
  proof (cases "Registered net h (String target)")
    case (Some vn)
    with call [OF Some Suc.prems(1)] show ?thesis by simp
  next
    case None
    obtain vn where r: "Registered net (Host target) (String target) = Some vn"
      using st Suc.prems(2) by (auto simp: stable_ring_def)
    have "Host target \<in> Host ` S" using Suc.prems(2) by simp
    from call [OF r this] obtain nodes where
      f: "FindSuccessors (net_find fuel net conf (Host target)) conf vn n k = Ret (nodes, None)" by blast
    moreover have "answers_owner L S k (FindSuccessors (net_find fuel net conf (Host target)) conf vn n k)"
      by (rule FindSuccessors_sound [OF st stable_vnode(1,2) [OF st r] k n(1) net_find_sound [OF st k n(1)]])
    ultimately obtain s rest where "nodes = Some (Some s # rest)" by (auto simp: answers_owner_def)
    then obtain zs where "trimSlice nodes = Ret (Some (Some s # zs))" using trimSlice_returns by blast
    moreover have "Conn net h (Host target)" using conn Suc.prems(1,2) by (auto simp: all_connected_def)
    ultimately show ?thesis
      using None r f by (simp add: serve_FindSuccessors_def tcp_FindSuccessors_def)
  qed
qed simp

subsection \<open>\<open>Ring.Lookup\<close>\<close>

lemma nearest_local_Some: "nearest_local vs k = Some v \<Longrightarrow> v \<in> set vs \<and> Id v < k"
  by (induction vs) (auto simp: bytes_Compare_iffs split: if_splits)

lemma nearest_local_None: "nearest_local vs k = None \<Longrightarrow> v \<in> set vs \<Longrightarrow> k \<le> Id v"
  by (induction vs) (auto simp: bytes_Compare_iffs split: if_splits)

lemma nearestVnode_in: "nearestVnode vnodes k = Ret v \<Longrightarrow> v \<in> set vnodes"
  by (auto simp: nearestVnode_def dest!: nearest_local_Some split: option.splits)

lemma nearestVnode_returns: "vnodes \<noteq> [] \<Longrightarrow> \<exists>v. nearestVnode vnodes k = Ret v"
  by (cases "nearest_local (rev vnodes) k") (auto simp: nearestVnode_def go_index_last simp del: go_index_Ret)

text \<open>
  With two local vnodes or more, in the order of their identifiers, the vnode a lookup starts from
  never has the key itself as its identifier.
\<close>

lemma nearestVnode_not_key:
  assumes "sorted_wrt (\<lambda>v w. Id v < Id w) vnodes" "2 \<le> length vnodes" "nearestVnode vnodes k = Ret v"
  shows "Id v \<noteq> k"
proof (cases "nearest_local (rev vnodes) k")
  case (Some w)
  with assms(3) nearest_local_Some [OF Some] show ?thesis by (auto simp: nearestVnode_def)
next
  case None
  from assms(2) obtain a xs b where vs: "vnodes = a # xs @ [b]"
    by (metis One_nat_def Suc_1 Suc_le_length_iff append_butlast_last_id list.distinct(1))
  with assms(1) have "Id a < Id b" by simp
  moreover have "k \<le> Id a" using nearest_local_None [OF None, of a] vs by simp
  moreover have "v = b"
    using None assms(3) vs go_index_last [of vnodes] by (simp add: nearestVnode_def del: go_index_Ret)
  ultimately show ?thesis by auto
qed

lemma Lookup_eq:
  assumes "n \<le> NumSuccessors conf" "nearestVnode vnodes (HashFunc conf k) = Ret v"
    and "FindSuccessors rpc conf v n (HashFunc conf k) = Ret (Some (Some s # rest), None)"
  shows "\<exists>zs. Lookup rpc conf vnodes n k = Ret (Some (Some s # zs), None)"
  using assms trimSlice_returns [of s rest] by (auto simp: Lookup_def trimSlice_def Let_def)

text \<open>The vnodes of one process, in the order of their identifiers.\<close>

definition process_vnodes :: "network \<Rightarrow> string \<Rightarrow> localVnode list \<Rightarrow> bool" where
  "process_vnodes net h vnodes \<longleftrightarrow>
     sorted_wrt (\<lambda>v w. Id v < Id w) vnodes \<and>
     (\<forall>vn \<in> set vnodes. Registered net h (hex_encode (Id vn)) = Some vn)"

text \<open>The whole lookup.\<close>

lemma Lookup_owner:
  assumes st: "stable_ring L net S" and conn: "all_connected net S"
    and hash: "length (HashFunc conf k) = L"
    and n: "1 \<le> n" "n \<le> NumSuccessors conf" "lists_hold net n"
    and vs: "process_vnodes net h vnodes" "2 \<le> length vnodes"
    and fuel: "card S \<le> fuel"
  shows "\<exists>s rest. Lookup (net_find fuel net conf h) conf vnodes n k = Ret (Some (Some s # rest), None) \<and>
    key_owner L S (HashFunc conf k) s"
proof -
  let ?k = "HashFunc conf k"
  from vs(2) have "vnodes \<noteq> []" by auto
  then obtain v where v: "nearestVnode vnodes ?k = Ret v" using nearestVnode_returns by blast
  have r: "Registered net h (hex_encode (Id v)) = Some v"
    using nearestVnode_in [OF v] vs(1) by (simp add: process_vnodes_def)
  note vok = stable_vnode [OF st r]
  have vS: "GetVnode v \<in> S" using vok(1) by (simp add: vnode_ok_def)
  have fin: "finite S" using st by (simp add: stable_ring_def)
  have "\<exists>nodes. FindSuccessors (net_find fuel net conf h) conf v n ?k = Ret (nodes, None)"
  proof (rule FindSuccessors_total [OF st vok(1,2) hash _ n(1)])
    show "Id v \<noteq> ?k" using nearestVnode_not_key [OF _ vs(2) v] vs(1) by (simp add: process_vnodes_def)
    show "n \<le> int (length (successors v))" using n(3) r by (auto simp: lists_hold_def)
    fix w assume w: "w \<in> S" "between (Id v) ?k (Id w)"
    have Lw: "length (Id w) = L" using st w(1) by (rule stable_lengths)
    have "closer L S ?k (Id w) < closer L S ?k (Id v)"
      using w Lw hash vok(2) by (intro hop_closer [OF fin]) auto
    then have "closer L S ?k (Id w) < fuel"
      using closer_le [OF fin, of L ?k "Id v"] fuel by simp
    moreover have "Id w \<noteq> ?k" using w(2) Lw hash vok(2) by (auto simp: between_distance)
    moreover have "h \<in> Host ` S" using vS vok(3) by (metis GetVnode_simps(2) imageI)
    ultimately show "\<exists>nodes. net_find fuel net conf h w n ?k = Ret (nodes, None)"
      using net_find_total [OF st conn hash n(1,3)] w(1) by blast
  qed
  moreover have "answers_owner L S ?k (FindSuccessors (net_find fuel net conf h) conf v n ?k)"
    by (rule FindSuccessors_sound [OF st vok(1,2) hash n(1) net_find_sound [OF st hash n(1)]])
  ultimately obtain s rest where "FindSuccessors (net_find fuel net conf h) conf v n ?k =
      Ret (Some (Some s # rest), None)" "key_owner L S ?k s"
    by (auto simp: answers_owner_def)
  with Lookup_eq [OF n(2) v] show ?thesis by blast
qed

subsection \<open>A concrete ring\<close>

text \<open>Four vnodes with one byte identifiers on two hosts, each with the right two successors.\<close>

definition mk_vnode :: "byte \<Rightarrow> string \<Rightarrow> Vnode" where
  "mk_vnode i h = \<lparr>Id = [i], Host = h\<rparr>"

definition mk_local :: "Vnode \<Rightarrow> Vnode option list \<Rightarrow> Vnode option list \<Rightarrow> localVnode" where
  "mk_local v ss fs =
     \<lparr>Id = Id v, Host = Host v, successors = ss, predecessors = [None, None, None], finger = fs,
      last_finger = 0, predecessor = None, stabilized = 0, timer = False\<rparr>"

definition demo_vnodes :: "localVnode list" where
  "demo_vnodes =
     (let a = mk_vnode 10 ''a''; b = mk_vnode 60 ''a''; c = mk_vnode 120 ''b''; d = mk_vnode 200 ''b''
      in [mk_local a [Some b, Some c] [None, Some c], mk_local b [Some c, Some d] [Some d],
          mk_local c [Some d, Some a] [], mk_local d [Some a, Some b] [Some a, None]])"

definition demo_net :: network where
  "demo_net =
     \<lparr>Registered = (\<lambda>h t. find (\<lambda>vn. Host vn = h \<and> hex_encode (Id vn) = t) demo_vnodes),
      Conn = (\<lambda>g h. True)\<rparr>"

definition demo_ring :: "Vnode set" where
  "demo_ring = {mk_vnode 10 ''a'', mk_vnode 60 ''a'', mk_vnode 120 ''b'', mk_vnode 200 ''b''}"

definition demo_conf :: Config where
  "demo_conf =
     \<lparr>Hostname = ''a'', NumVnodes = 2, HashFunc = (\<lambda>k. [130]), HashSize = 1, StabilizeMin = 1,
      StabilizeMax = 2, NumSuccessors = 2, HasDelegate = False, hashBits = 8, RingId = ''r''\<rparr>"

lemmas demo_defs = demo_vnodes_def mk_local_def mk_vnode_def Let_def

lemma demo_succs_ok: "vn \<in> set demo_vnodes \<Longrightarrow> succs_ok 1 demo_ring vn"
  by (auto simp: demo_defs demo_ring_def succs_ok_def knownSuccessors_def distance_def less_2_cases_iff)

lemma demo_vnode_ok: "vn \<in> set demo_vnodes \<Longrightarrow> vnode_ok 1 demo_ring vn"
  using demo_succs_ok [of vn]
  by (auto simp: vnode_ok_def) (auto simp: demo_defs demo_ring_def GetVnode_def)

lemma demo_stable: "stable_ring 1 demo_net demo_ring"
proof -
  have "hex_encode (Id vn) = t \<and> Host vn = h \<and> vnode_ok 1 demo_ring vn"
    if "Registered demo_net h t = Some vn" for h t vn
    using that demo_vnode_ok [of vn] by (auto simp: demo_net_def find_Some_iff)
  moreover have "Registered demo_net (Host v) (String v) \<noteq> None" if "v \<in> demo_ring" for v
    using that by (auto simp: demo_ring_def demo_net_def demo_defs find_None_iff String_def)
  ultimately show ?thesis
    by (auto simp: stable_ring_def demo_ring_def mk_vnode_def)
qed

lemma demo_lists_hold: "lists_hold demo_net 2"
  by (auto simp: lists_hold_def demo_net_def find_Some_iff)
     (auto simp: demo_defs less_Suc_eq numeral_eq_Suc)

lemma demo_connected: "all_connected demo_net demo_ring"
  by (simp add: all_connected_def demo_net_def)

lemma demo_process: "process_vnodes demo_net ''a'' (take 2 demo_vnodes)"
  by (auto simp: process_vnodes_def demo_net_def demo_defs simp del: hex_encode.simps)

subsection \<open>Properties\<close>


lemma demo_find:
  "net_find 2 demo_net demo_conf ''a'' (mk_vnode 10 ''a'') 1 [130] =
   Ret (Some [Some (mk_vnode 200 ''b'')], None)"
  by code_simp


text \<open>C2: Routing is live: on such a ring with all hosts reachable, \<open>FindSuccessors\<close> sent to a ring
  member for a key other than the member's own identifier answers with the owner of the key, and
  the number of vnodes that take part is at most one more than the number of ring members closer
  to the key.
\<close>

theorem find_successors_reaches_owner:
  assumes "stable_ring L net S" "all_connected net S" "length k = L" "1 \<le> n" "lists_hold net n"
    and "h \<in> Host ` S" "target \<in> S" "Id target \<noteq> k"
    and "closer L S k (Id target) < fuel"
  shows "\<exists>s rest. net_find fuel net conf h target n k = Ret (Some (Some s # rest), None) \<and>
    key_owner L S k s"
proof -
  obtain nodes where r: "net_find fuel net conf h target n k = Ret (nodes, None)"
    using net_find_total [OF assms(1-5)] assms(6-) by blast
  with net_find_sound [OF assms(1,3,4)] show ?thesis
    by (fastforce simp: rpc_sound_def answers_owner_def)
qed

theorem find_successors_reaches_owner_witness:
  "\<exists>s rest. net_find 4 demo_net demo_conf ''a'' (mk_vnode 10 ''a'') 2 [130] =
     Ret (Some (Some s # rest), None) \<and> key_owner 1 demo_ring [130] s"
proof (rule find_successors_reaches_owner [OF demo_stable demo_connected _ _ demo_lists_hold])
  have "{x \<in> Id ` demo_ring. distance x [130] (int (8 * 1)) < distance [10] [130] (int (8 * 1))} =
      {[60], [120]}"
    by (auto simp: demo_ring_def mk_vnode_def distance_def)
  then show "closer 1 demo_ring [130] (Id (mk_vnode 10 ''a'')) < 4"
    by (simp add: closer_def mk_vnode_def)
qed (auto simp: demo_ring_def mk_vnode_def)

text \<open>C3: \<open>Ring.Lookup\<close> on a process with at least two vnodes of a stable and connected ring returns,
  for every key, a list that starts with the vnode that owns the hash of the key, without panic and
  without error; one hop per ring member is enough.
\<close>

theorem Lookup_returns_owner:
  assumes st: "stable_ring L net S" and conn: "all_connected net S"
    and hash: "length (HashFunc conf k) = L"
    and n: "1 \<le> n" "n \<le> NumSuccessors conf" "lists_hold net n"
    and vs: "process_vnodes net h vnodes" "2 \<le> length vnodes"
    and fuel: "card S \<le> fuel"
  shows "\<exists>s rest. Lookup (net_find fuel net conf h) conf vnodes n k = Ret (Some (Some s # rest), None) \<and>
    key_owner L S (HashFunc conf k) s"
  by (rule Lookup_owner [OF assms])

theorem Lookup_returns_owner_witness:
  "\<exists>s rest. Lookup (net_find 4 demo_net demo_conf ''a'') demo_conf (take 2 demo_vnodes) 2 [1, 2, 3] =
     Ret (Some (Some s # rest), None) \<and> key_owner 1 demo_ring [130] s"
proof -
  have h: "HashFunc demo_conf [1, 2, 3] = [130]" by (simp add: demo_conf_def)
  show ?thesis
    using Lookup_returns_owner [OF demo_stable demo_connected _ _ _ demo_lists_hold demo_process,
        where conf = demo_conf and k = "[1, 2, 3]" and fuel = 4]
    by (simp add: h demo_conf_def demo_vnodes_def Let_def demo_ring_def mk_vnode_def)
qed

end
