(* ===== verification/Vnode_Lemmas.thy ===== *)
theory Vnode_Lemmas
  imports Vnode_Maint Routing
begin

text \<open>
  What the maintenance tasks of \<open>vnode.go\<close> do to the state of a vnode: the shape of its lists as an
  invariant of every step, the scan over dead successors, and the entries of the finger table.
\<close>

subsection \<open>Lists without holes\<close>

lemma no_holes_form: "no_holes ss \<longleftrightarrow> (\<exists>xs m. ss = map Some xs @ replicate m None)"
proof
  assume "no_holes ss"
  then show "\<exists>xs m. ss = map Some xs @ replicate m None"
  proof (induction ss)
    case Nil
    then show ?case by simp
  next
    case (Cons s ss)
    show ?case
    proof (cases s)
      case None
      then have "ss = replicate (length ss) None" using Cons.prems by (auto intro: replicate_eqI)
      then have "s # ss = map Some [] @ replicate (Suc (length ss)) None" using None by simp
      then show ?thesis by blast
    next
      case (Some v)
      then obtain xs m where "ss = map Some xs @ replicate m None" using Cons by auto
      then have "s # ss = map Some (v # xs) @ replicate m None" using Some by simp
      then show ?thesis by blast
    qed
  qed
next
  assume "\<exists>xs m. ss = map Some xs @ replicate m None"
  then obtain xs m where ss: "ss = map Some xs @ replicate m None" by blast
  show "no_holes ss" unfolding ss
  proof (induction xs)
    case Nil
    show ?case by (cases m) auto
  qed simp
qed

lemma known_form:
  assumes "successors vn = map Some xs @ replicate m None"
  shows "knownSuccessors vn = int (length xs)"
proof -
  have "no_holes (successors vn)" using assms no_holes_form by blast
  moreover have "takeWhile (\<lambda>s. s \<noteq> None) (successors vn) = map Some xs"
    unfolding assms by (induction xs) (cases m, auto)
  ultimately show ?thesis by (simp add: knownSuccessors_no_holes)
qed

text \<open>Dropping the first of the known entries, as the code does it.\<close>

lemma shift_form:
  assumes "ss = map Some (x # xs) @ replicate m None"
  shows "(go_copy ss (tl ss))[length xs := None] = map Some xs @ replicate (Suc m) None"
proof -
  have "go_copy ss (tl ss) = map Some xs @ replicate m None @ [last ss]"
    using assms go_copy_tl[of ss] by simp
  moreover have "last ss = None" if "m = Suc n" for n using assms that by simp
  ultimately show ?thesis by (cases m) (simp_all add: list_update_append replicate_append_same)
qed

lemma butlast_form:
  assumes "no_holes ss" "ss \<noteq> []"
  shows "no_holes (Some m # butlast ss)"
proof -
  obtain xs n where ss: "ss = map Some xs @ replicate n None" using assms(1) no_holes_form by blast
  have "no_holes (butlast ss)"
  proof (cases n)
    case 0
    then have "butlast ss = map Some (butlast xs) @ replicate 0 None" using ss by (simp add: map_butlast)
    then show ?thesis using no_holes_form by blast
  next
    case (Suc n')
    then have "butlast ss = map Some xs @ replicate n' None"
      using ss by (simp add: butlast_append flip: replicate_append_same)
    then show ?thesis using no_holes_form by blast
  qed
  then show ?thesis by simp
qed

subsection \<open>The scan for a live successor\<close>

lemma scan_result:
  assumes "successors vn = map Some xs @ replicate m None" "xs \<noteq> []" "int (length xs) = known - i"
  shows "\<exists>j r w'. j < length xs \<and> r \<noteq> Ended \<and>
    scan_successors tr known [i..known - 1] vn w =
      Ret (r, vn\<lparr>successors := map Some (drop j xs) @ replicate (m + j) None\<rparr>, w')"
  using assms
proof (induction "length xs" arbitrary: xs m i vn w)
  case (Suc n)
  then obtain x xs' where xs: "xs = x # xs'" by (cases xs) auto
  have upto: "[i..known - 1] = i # [i + 1..known - 1]" using Suc.prems(3) xs by (simp add: upto_rec1)
  obtain alive e w1 where ping: "tPing tr x w = ((alive, e), w1)" by (metis prod.collapse)
  have first: "go_index (successors vn) 0 = Ret (Some x)" using Suc.prems(1) xs by (simp add: go_index_def)
  show ?case
  proof (cases "\<not> alive \<and> i + 1 \<noteq> known")
    case False
    then have "scan_successors tr known [i..known - 1] vn w = Ret (if alive then Live else AllDead, vn, w1)"
      using first ping by (auto simp: upto deref_def)
    then show ?thesis using Suc.prems(1) xs
      by (intro exI[of _ 0] exI[of _ "if alive then Live else AllDead"] exI[of _ w1]) auto
  next
    case True
    let ?vn = "vn\<lparr>successors := (go_copy (successors vn) (tl (successors vn)))[nat (known - 1 - i) := None]\<rparr>"
    have len: "nat (known - 1 - i) = length xs'" using Suc.prems(3) xs by simp
    have form: "successors ?vn = map Some xs' @ replicate (Suc m) None"
      using shift_form[of "successors vn" x xs' m] Suc.prems(1) xs len by simp
    have "xs' \<noteq> []" using True Suc.prems(3) xs by auto
    with Suc.hyps(1)[of xs' ?vn "Suc m" "i + 1" w1] Suc.hyps(2) form Suc.prems(3) xs
    obtain j r w' where j: "j < length xs'" "r \<noteq> Ended" "scan_successors tr known [i + 1..known - 1] ?vn w1 =
      Ret (r, ?vn\<lparr>successors := map Some (drop j xs') @ replicate (Suc m + j) None\<rparr>, w')" by auto
    have "scan_successors tr known [i..known - 1] vn w = scan_successors tr known [i + 1..known - 1] ?vn w1"
      using True first ping by (auto simp: upto deref_def go_index_def)
    then show ?thesis using j xs
      by (intro exI[of _ "Suc j"] exI[of _ r] exI[of _ w']) auto
  qed
qed simp


subsection \<open>The invariant of a vnode\<close>

definition vnode_wf :: "Config \<Rightarrow> localVnode \<times> 'w \<Rightarrow> bool" where
  "vnode_wf conf s \<longleftrightarrow> (let vn = fst s in
     1 \<le> NumSuccessors conf \<and> 1 \<le> hashBits conf \<and>
     int (length (successors vn)) = NumSuccessors conf \<and>
     int (length (predecessors vn)) = NumSuccessors conf + 1 \<and>
     int (length (finger vn)) = hashBits conf \<and> 0 \<le> last_finger vn \<and> last_finger vn < hashBits conf \<and>
     no_holes (successors vn) \<and> (\<forall>p. predecessor vn = Some p \<longrightarrow> predecessors vn ! 0 = Some p))"

text \<open>The steps of a vnode: its maintenance tasks and the calls it answers.\<close>

inductive vnode_step :: "'w trans \<Rightarrow> find_rpc \<Rightarrow> Config \<Rightarrow> localVnode \<times> 'w \<Rightarrow> localVnode \<times> 'w \<Rightarrow> bool"
  for tr rpc conf where
  step_new_successor: "checkNewSuccessor fuel tr vn w = Ret (err, vn', w') \<Longrightarrow> vnode_step tr rpc conf (vn, w) (vn', w')"
| step_notify_successor: "notifySuccessor tr conf vn w = Ret (err, vn', w') \<Longrightarrow> vnode_step tr rpc conf (vn, w) (vn', w')"
| step_fix_fingers: "fixFingerTable rpc conf vn = Ret (err, vn') \<Longrightarrow> vnode_step tr rpc conf (vn, w) (vn', w)"
| step_check_predecessor: "checkPredecessor tr vn w = Ret (err, vn', w') \<Longrightarrow> vnode_step tr rpc conf (vn, w) (vn', w')"
| step_update_predecessors: "updatePredecessorList tr conf vn w = Ret (err, vn', w') \<Longrightarrow> vnode_step tr rpc conf (vn, w) (vn', w')"
| step_notify: "Notify rv conf vn lm p = Ret (ss, vn', lm', sent, ev) \<Longrightarrow> vnode_step tr rpc conf (vn, w) (vn', w)"
| step_clear_predecessor: "ClearPredecessor conf vn p = Ret (vn', ev) \<Longrightarrow> vnode_step tr rpc conf (vn, w) (vn', w)"
| step_skip_successor: "SkipSuccessor conf vn p = Ret (vn', ev) \<Longrightarrow> vnode_step tr rpc conf (vn, w) (vn', w)"

text \<open>
  A vnode that starts: initialised, with the successors and predecessors that setting up the ring gave
  it. Setting up a ring fills the predecessor list but not the predecessor.
\<close>

definition vnode_started :: "Config \<Rightarrow> localVnode \<times> 'w \<Rightarrow> bool" where
  "vnode_started conf s \<longleftrightarrow>
     1 \<le> NumSuccessors conf \<and> 1 \<le> hashBits conf \<and>
     (\<exists>idx ss ps t. fst s = (vnode_init conf idx)\<lparr>successors := ss, predecessors := ps, timer := t\<rparr> \<and>
        int (length ss) = NumSuccessors conf \<and> int (length ps) = NumSuccessors conf + 1 \<and> no_holes ss)"

lemma no_holes_cases:
  assumes "no_holes ss"
  obtains xs m where "ss = map Some xs @ replicate m None"
  using assms no_holes_form by blast

text \<open>The case that the first successor does not answer.\<close>

lemma checkNewSuccessor_failed:
  assumes "successors vn \<noteq> []" "successors vn ! 0 = Some s" "tGetPredecessor tr s w = ((pr, Some er), w1)"
  shows "checkNewSuccessor (Suc fuel) tr vn w =
    (if knownSuccessors vn > 1 then
       go_bind (scan_successors tr (knownSuccessors vn) [0..knownSuccessors vn - 1] vn w1) (\<lambda>(r, vn1, w2).
         (case r of
            AllDead \<Rightarrow> Ret (Some (fmt_Errorf ''All known successors dead!'' []), vn1, w2)
          | Live \<Rightarrow> checkNewSuccessor fuel tr vn1 w2
          | Ended \<Rightarrow> Ret (Some er, vn1, w2)))
     else Ret (Some er, vn, w1))"
  using assms by (cases pr) (simp_all add: go_index_def Let_def)

text \<open>What the search for a live successor does to the list: it drops some known successors but never
  the last one, and may put a new one in front.\<close>

text \<open>A step that changes the successor list only, to one of the same length with a first entry and no holes.\<close>

definition keeps_shape :: "localVnode \<Rightarrow> localVnode \<Rightarrow> bool" where
  "keeps_shape vn vn' \<longleftrightarrow>
     (\<exists>ss. vn' = vn\<lparr>successors := ss\<rparr> \<and> no_holes ss \<and> length ss = length (successors vn) \<and> ss ! 0 \<noteq> None)"

lemma keeps_shape_refl: "no_holes (successors vn) \<Longrightarrow> successors vn ! 0 \<noteq> None \<Longrightarrow> keeps_shape vn vn"
  unfolding keeps_shape_def by (rule exI[of _ "successors vn"]) simp

lemma keeps_shape_trans: "keeps_shape vn vn1 \<Longrightarrow> keeps_shape vn1 vn2 \<Longrightarrow> keeps_shape vn vn2"
  by (auto simp: keeps_shape_def)

lemma keeps_shape_no_holes: "keeps_shape vn vn' \<Longrightarrow> no_holes (successors vn')"
  by (auto simp: keeps_shape_def)

lemma scan_keeps_shape:
  assumes "no_holes (successors vn)" "successors vn \<noteq> []" "successors vn ! 0 \<noteq> None"
  obtains r vn1 w1 where "scan_successors tr (knownSuccessors vn) [0..knownSuccessors vn - 1] vn w = Ret (r, vn1, w1)"
    "r \<noteq> Ended" "keeps_shape vn vn1"
proof -
  obtain xs m where form: "successors vn = map Some xs @ replicate m None" using assms(1) by (rule no_holes_cases)
  then have xs: "xs \<noteq> []" using assms(2,3) by (cases m) auto
  have len: "int (length xs) = knownSuccessors vn - 0" using known_form[OF form] by simp
  from scan_result[OF form xs len, of tr w] obtain j r w1 where j: "j < length xs" "r \<noteq> Ended"
    "scan_successors tr (knownSuccessors vn) [0..knownSuccessors vn - 1] vn w =
       Ret (r, vn\<lparr>successors := map Some (drop j xs) @ replicate (m + j) None\<rparr>, w1)" by blast
  have "no_holes (map Some (drop j xs) @ replicate (m + j) None)" using no_holes_form by blast
  moreover have "length (map Some (drop j xs) @ replicate (m + j) (None :: Vnode option)) = length (successors vn)"
    "(map Some (drop j xs) @ replicate (m + j) None) ! 0 \<noteq> None"
    using form j(1) by (auto simp: nth_append)
  ultimately show ?thesis using that[OF j(3) j(2)] unfolding keeps_shape_def by blast
qed

lemma checkNewSuccessor_shape:
  assumes "checkNewSuccessor fuel tr vn w = Ret (err, vn', w')" "no_holes (successors vn)"
  shows "keeps_shape vn vn'"
  using assms
proof (induction fuel arbitrary: vn w)
  case (Suc fuel)
  from Suc.prems(1) obtain s where s: "successors vn \<noteq> []" "successors vn ! 0 = Some s"
    by (auto simp: go_index_def split: option.splits if_splits)
  obtain pr e w1 where gp: "tGetPredecessor tr s w = ((pr, e), w1)" by (metis prod.collapse)
  have keep: "keeps_shape vn vn" using Suc.prems(2) s by (simp add: keeps_shape_refl)
  show ?case
  proof (cases e)
    case (Some er)
    note eq = checkNewSuccessor_failed[OF s gp[unfolded Some], of fuel]
    show ?thesis
    proof (cases "knownSuccessors vn > 1")
      case True
      have "successors vn ! 0 \<noteq> None" using s by simp
      from scan_keeps_shape[OF Suc.prems(2) s(1) this, of tr w1] obtain r vn1 w2 where
        r: "scan_successors tr (knownSuccessors vn) [0..knownSuccessors vn - 1] vn w1 = Ret (r, vn1, w2)"
        "r \<noteq> Ended" "keeps_shape vn vn1" by metis
      show ?thesis using Suc.prems(1)[unfolded eq] True r Suc.IH[of vn1 w2] keeps_shape_no_holes[OF r(3)]
        by (cases r) (auto intro: keeps_shape_trans)
    next
      case False
      then show ?thesis using Suc.prems(1)[unfolded eq] keep by simp
    qed
  next
    case None
    have index: "go_index (successors vn) 0 = Ret (Some s)" using s by (simp add: go_index_def)
    have "keeps_shape vn (vn\<lparr>successors := Some q # butlast (successors vn)\<rparr>)" for q
      using butlast_form[OF Suc.prems(2) s(1)] s(1) unfolding keeps_shape_def
      by (intro exI[of _ "Some q # butlast (successors vn)"]) simp
    then show ?thesis using None Suc.prems(1) index gp keep by (auto split: option.splits if_splits prod.splits)
  qed
qed simp

lemmas checkNewSuccessor_effect = checkNewSuccessor_shape[unfolded keeps_shape_def]

lemma update_list_effect:
  assumes "update_list self new idx own = Ret own'" "no_holes own" "idx < length own" "own ! idx \<noteq> None"
  shows "length own' = length own \<and> no_holes own' \<and> (\<forall>i \<le> idx. own' ! i = own ! i)"
  using assms
proof (induction self new idx own rule: update_list.induct)
  case (3 self s ss idx own)
  show ?case
  proof (cases "String s = self")
    case False
    let ?own = "own[idx + 1 := Some s]"
    have idx: "idx + 1 < length own" and rest: "update_list self ss (idx + 1) ?own = Ret own'"
      using 3(2) False by (auto split: if_splits)
    have nh: "own ! i \<noteq> None" if "j < length own" "own ! j \<noteq> None" "i \<le> j" for i j
      using 3(3) that unfolding no_holes_def by blast
    have "?own ! i \<noteq> None" if ij: "i \<le> j" "j < length ?own" "?own ! j \<noteq> None" for i j
    proof (cases "i = idx + 1 \<or> i \<le> idx")
      case True
      then show ?thesis using nh[OF 3(4,5)] idx by (auto simp: nth_list_update)
    next
      case False
      then have "own ! j \<noteq> None" using ij by (auto simp: nth_list_update)
      then show ?thesis using nh[of j i] ij False by (auto simp: nth_list_update)
    qed
    then have "no_holes ?own" unfolding no_holes_def by blast
    with 3(1)[OF False _ rest] idx show ?thesis by auto
  qed (use 3 in simp)
qed auto

lemma update_list_tail:
  assumes "update_list self new idx own = Ret own'"
  shows "length own' = length own \<and> (\<forall>i \<le> idx. own' ! i = own ! i)"
  using assms
proof (induction self new idx own rule: update_list.induct)
  case (3 self s ss idx own)
  then show ?case by (auto split: if_splits)
qed auto

declare fill_fingers.simps [simp del]

text \<open>One round of the loop.\<close>

lemma fill_fingers_cases:
  assumes "fill_fingers node hb vn = Ret vn'"
  obtains (stop) "vn' = vn"
  | (go_on) nd where "node = Some nd" "last_finger vn + 1 < hb" "0 \<le> last_finger vn + 1"
      "last_finger vn + 1 < int (length (finger vn))"
      "betweenRightIncl (Id vn) (Id nd) (powerOffset (Id vn) (last_finger vn + 1) hb)"
      "fill_fingers node hb (vn\<lparr>finger := (finger vn)[nat (last_finger vn + 1) := node],
         last_finger := last_finger vn + 1\<rparr>) = Ret vn'"
  using assms unfolding fill_fingers.simps[of node hb vn]
  by (auto simp: Let_def deref_def split: if_splits option.splits)

lemma fill_fingers_effect:
  assumes "fill_fingers node hb vn = Ret vn'" "0 \<le> last_finger vn" "last_finger vn < hb"
  shows "\<exists>fs lf. vn' = vn\<lparr>finger := fs, last_finger := lf\<rparr> \<and> length fs = length (finger vn) \<and> 0 \<le> lf \<and> lf < hb"
  using assms
proof (induction "nat (hb - last_finger vn)" arbitrary: vn rule: less_induct)
  case less
  from less.prems(1) show ?case
  proof (cases rule: fill_fingers_cases)
    case stop
    then show ?thesis using less.prems
      by (intro exI[of _ "finger vn"] exI[of _ "last_finger vn"]) simp
  next
    case (go_on nd)
    let ?vn = "vn\<lparr>finger := (finger vn)[nat (last_finger vn + 1) := node], last_finger := last_finger vn + 1\<rparr>"
    have "\<exists>fs lf. vn' = ?vn\<lparr>finger := fs, last_finger := lf\<rparr> \<and> length fs = length (finger ?vn) \<and> 0 \<le> lf \<and> lf < hb"
      using go_on less.prems(2,3) by (intro less.hyps) auto
    then show ?thesis by auto
  qed
qed

lemma fixFingerTable_effect:
  assumes "fixFingerTable rpc conf vn = Ret (err, vn')" "0 \<le> last_finger vn" "last_finger vn < hashBits conf"
  shows "\<exists>fs lf. vn' = vn\<lparr>finger := fs, last_finger := lf\<rparr> \<and> length fs = length (finger vn) \<and>
    0 \<le> lf \<and> lf < hashBits conf"
proof -
  have same: "\<exists>fs lf. vn = vn\<lparr>finger := fs, last_finger := lf\<rparr> \<and> length fs = length (finger vn) \<and>
    0 \<le> lf \<and> lf < hashBits conf"
    using assms(2,3) by (intro exI[of _ "finger vn"] exI[of _ "last_finger vn"]) simp
  obtain nodes e where r: "FindSuccessors rpc conf vn 1 (powerOffset (Id vn) (last_finger vn) (hashBits conf)) = Ret (nodes, e)"
    using assms(1) by (auto simp: fixFingerTable_def Let_def)
  have "vn' = vn \<or> (\<exists>node vn1. fill_fingers node (hashBits conf) (vn\<lparr>finger := (finger vn)[nat (last_finger vn) := node]\<rparr>) = Ret vn1 \<and>
      vn' = vn1\<lparr>last_finger := (if last_finger vn1 + 1 = hashBits conf then 0 else last_finger vn1 + 1)\<rparr>)"
  proof (cases "\<exists>node rest. nodes = Some (node # rest) \<and> e = None")
    case True
    then obtain node rest where "nodes = Some (node # rest)" "e = None" by blast
    then have "go_bind (fill_fingers node (hashBits conf) (vn\<lparr>finger := (finger vn)[nat (last_finger vn) := node]\<rparr>))
        (\<lambda>vn1. Ret (None, vn1\<lparr>last_finger := (if last_finger vn1 + 1 = hashBits conf then 0 else last_finger vn1 + 1)\<rparr>))
      = Ret (err, vn')"
      using assms(1) r by (simp add: fixFingerTable_def Let_def del: go_bind_Ret_iff split: if_split_asm)
    then obtain vn1 where
      "fill_fingers node (hashBits conf) (vn\<lparr>finger := (finger vn)[nat (last_finger vn) := node]\<rparr>) = Ret vn1"
      "vn' = vn1\<lparr>last_finger := (if last_finger vn1 + 1 = hashBits conf then 0 else last_finger vn1 + 1)\<rparr>"
      unfolding go_bind_Ret_iff by blast
    then show ?thesis by blast
  next
    case False
    then show ?thesis using assms(1) r
      by (auto simp: fixFingerTable_def Let_def split: option.splits list.splits)
  qed
  then show ?thesis
  proof (elim disjE exE conjE)
    fix node vn1
    assume "fill_fingers node (hashBits conf) (vn\<lparr>finger := (finger vn)[nat (last_finger vn) := node]\<rparr>) = Ret vn1"
      and vn': "vn' = vn1\<lparr>last_finger := (if last_finger vn1 + 1 = hashBits conf then 0 else last_finger vn1 + 1)\<rparr>"
    from fill_fingers_effect[OF this(1)] assms(2,3) obtain fs lf where
      vn1: "vn1 = vn\<lparr>finger := fs, last_finger := lf\<rparr>" "length fs = length (finger vn)" "0 \<le> lf" "lf < hashBits conf"
      by auto
    then show ?thesis using vn'
      by (intro exI[of _ fs] exI[of _ "if lf + 1 = hashBits conf then 0 else lf + 1"]) auto
  qed (use same in simp)
qed

text \<open>Every step keeps the invariant.\<close>

lemma notifySuccessor_effect:
  assumes "notifySuccessor tr conf vn w = Ret (err, vn', w')" "no_holes (successors vn)"
  shows "\<exists>ss. vn' = vn\<lparr>successors := ss\<rparr> \<and> no_holes ss \<and> length ss = length (successors vn) \<and>
    ss ! 0 = successors vn ! 0"
proof -
  have same: "\<exists>ss. vn = vn\<lparr>successors := ss\<rparr> \<and> no_holes ss \<and> length ss = length (successors vn) \<and> ss ! 0 = successors vn ! 0"
    using assms(2) by (intro exI[of _ "successors vn"]) simp
  have first: "successors vn \<noteq> [] \<and> successors vn ! 0 \<noteq> None"
    using assms(1) by (auto simp: notifySuccessor_def go_index_def deref_def split: if_splits option.splits)
  then obtain succ where succ: "successors vn ! 0 = Some succ" by auto
  obtain ns e w1 where r: "tNotify tr succ (GetVnode vn) w = ((ns, e), w1)" by (metis prod.collapse)
  have "vn' = vn \<or> (\<exists>new ss. update_list (String (GetVnode vn)) new 0 (successors vn) = Ret ss \<and> vn' = vn\<lparr>successors := ss\<rparr>)"
    using assms(1) first succ r
    by (cases e) (auto simp: notifySuccessor_def go_index_def deref_def Let_def split: if_splits)
  then show ?thesis
  proof (elim disjE exE conjE)
    fix new ss
    assume u: "update_list (String (GetVnode vn)) new 0 (successors vn) = Ret ss" and "vn' = vn\<lparr>successors := ss\<rparr>"
    then show ?thesis using update_list_effect[OF u assms(2)] first by auto
  qed (use same in simp)
qed

lemma SkipSuccessor_effect:
  assumes "SkipSuccessor conf vn p = Ret (vn', ev)" "no_holes (successors vn)"
  shows "\<exists>ss. vn' = vn\<lparr>successors := ss\<rparr> \<and> no_holes ss \<and> length ss = length (successors vn)"
proof -
  obtain xs m where form: "successors vn = map Some xs @ replicate m None" using assms(2) by (rule no_holes_cases)
  have "successors vn \<noteq> [] \<and> successors vn ! 0 \<noteq> None"
    using assms(1) by (auto simp: SkipSuccessor_def go_index_def deref_def split: if_splits option.splits)
  then obtain x xs' where xs: "xs = x # xs'" using form by (cases xs; cases m) auto
  have "vn' = vn \<or> vn' = vn\<lparr>successors := map Some xs' @ replicate (Suc m) None\<rparr>"
    using assms(1) shift_form[of "successors vn" x xs' m] form xs known_form[OF form]
    by (auto simp: SkipSuccessor_def Let_def split: if_splits)
  moreover have "no_holes (map Some xs' @ replicate (Suc m) None)" using no_holes_form by blast
  moreover have "vn = vn\<lparr>successors := successors vn\<rparr>" by simp
  ultimately show ?thesis using assms(2) form xs by (metis length_append length_map length_replicate length_Cons add_Suc_right add_Suc)
qed

lemma vnode_wf_step:
  assumes "vnode_step tr rpc conf s t" "vnode_wf conf s"
  shows "vnode_wf conf t"
  using assms
proof (induction rule: vnode_step.induct)
  case (step_new_successor fuel vn w err vn' w')
  then show ?case using checkNewSuccessor_effect[OF step_new_successor(1)] by (auto simp: vnode_wf_def Let_def)
next
  case (step_notify_successor vn w err vn' w')
  then show ?case using notifySuccessor_effect[OF step_notify_successor(1)] by (auto simp: vnode_wf_def Let_def)
next
  case (step_fix_fingers vn err vn' w)
  then show ?case using fixFingerTable_effect[OF step_fix_fingers(1)] by (auto simp: vnode_wf_def Let_def)
next
  case (step_check_predecessor vn w err vn' w')
  then show ?case
    by (auto simp: checkPredecessor_def vnode_wf_def Let_def nth_list_update split: option.splits prod.splits if_splits)
next
  case (step_update_predecessors vn w err vn' w')
  then have "vn' = vn \<or> (\<exists>new ps. update_list (String (GetVnode vn)) new 0 (predecessors vn) = Ret ps \<and> vn' = vn\<lparr>predecessors := ps\<rparr>)"
    by (auto simp: updatePredecessorList_def Let_def split: if_splits option.splits prod.splits)
  then show ?case using step_update_predecessors(2) update_list_tail by (fastforce simp: vnode_wf_def Let_def)
next
  case (step_notify rv vn lm p ss vn' lm' sent ev w)
  then have "vn' = vn \<or> vn' = vn\<lparr>predecessor := Some p, predecessors := (predecessors vn)[0 := Some p]\<rparr>"
    by (auto simp: Notify_def Let_def split: if_splits prod.splits)
  moreover have "0 < length (predecessors vn)" using step_notify(2) by (auto simp: vnode_wf_def Let_def)
  ultimately show ?case using step_notify(2) by (auto simp: vnode_wf_def Let_def)
next
  case (step_clear_predecessor vn p vn' ev w)
  then show ?case
    by (auto simp: ClearPredecessor_def vnode_wf_def Let_def nth_list_update split: option.splits if_splits)
next
  case (step_skip_successor vn p vn' ev w)
  then show ?case using SkipSuccessor_effect[OF step_skip_successor(1)] by (auto simp: vnode_wf_def Let_def)
qed

interpretation vnode_machine: invariant_system "vnode_started conf" "vnode_step tr rpc conf" "vnode_wf conf"
  for tr :: "'w trans" and rpc conf
proof
  fix s :: "localVnode \<times> 'w"
  assume "vnode_started conf s"
  then show "vnode_wf conf s"
    by (auto simp: vnode_started_def vnode_wf_def vnode_init_def Let_def)
next
  fix s t :: "localVnode \<times> 'w"
  assume "vnode_wf conf s" "vnode_step tr rpc conf s t"
  then show "vnode_wf conf t" using vnode_wf_step by blast
qed


subsection \<open>Dead and live successors\<close>

text \<open>A vnode that answers a ping answers the question that follows it.\<close>

definition alive_answers :: "'w trans \<Rightarrow> bool" where
  "alive_answers tr \<longleftrightarrow> (\<forall>s w. fst (fst (tPing tr s w)) \<longrightarrow> snd (fst (tGetPredecessor tr s (snd (tPing tr s w)))) = None)"

lemma checkNewSuccessor_answered:
  assumes "successors vn \<noteq> []" "successors vn ! 0 = Some s" "snd (fst (tGetPredecessor tr s w)) = None"
  shows "\<exists>err vn' w'. checkNewSuccessor (Suc fuel) tr vn w = Ret (err, vn', w') \<and>
    (vn' = vn \<or> (\<exists>q. between (Id vn) (Id s) (Id q) \<and> vn' = vn\<lparr>successors := Some q # butlast (successors vn)\<rparr>))"
proof -
  obtain pr w1 where gp: "tGetPredecessor tr s w = ((pr, None), w1)" using assms(3) by (metis prod.collapse)
  show ?thesis
  proof (cases pr)
    case None
    then show ?thesis using assms(1,2) gp by (simp add: go_index_def)
  next
    case (Some q)
    obtain alive e w2 where ping: "tPing tr q w1 = ((alive, e), w2)" by (metis prod.collapse)
    show ?thesis using assms(1,2) gp Some ping by (simp add: go_index_def) blast
  qed
qed

text \<open>The scan stops at the first live successor, with the list starting there.\<close>

lemma scan_live:
  assumes "successors vn = map Some (dead @ s # rest) @ replicate m None"
    and "int (length (dead @ s # rest)) = known - i"
    and "\<And>d w. d \<in> set dead \<Longrightarrow> \<not> fst (fst (tPing tr d w))" "\<And>w. fst (fst (tPing tr s w))"
  shows "\<exists>w1 w2. scan_successors tr known [i..known - 1] vn w =
      Ret (Live, vn\<lparr>successors := map Some (s # rest) @ replicate (m + length dead) None\<rparr>, w2) \<and>
    w2 = snd (tPing tr s w1)"
  using assms
proof (induction dead arbitrary: m i vn w)
  case Nil
  have upto: "[i..known - 1] = i # [i + 1..known - 1]" using Nil.prems(2) by (simp add: upto_rec1)
  obtain e w1 where "tPing tr s w = ((True, e), w1)" using Nil.prems(4)[of w] by (metis prod.collapse)
  then show ?case using Nil.prems(1) by (auto simp: upto go_index_def deref_def intro: exI[of _ w])
next
  case (Cons d dead)
  have upto: "[i..known - 1] = i # [i + 1..known - 1]" using Cons.prems(2) by (simp add: upto_rec1)
  obtain e w1 where ping: "tPing tr d w = ((False, e), w1)" using Cons.prems(3)[of d w] by (metis list.set_intros(1) prod.collapse)
  have ne: "i + 1 \<noteq> known" using Cons.prems(2) by auto
  let ?vn = "vn\<lparr>successors := (go_copy (successors vn) (tl (successors vn)))[nat (known - 1 - i) := None]\<rparr>"
  have len: "nat (known - 1 - i) = length (dead @ s # rest)" using Cons.prems(2) by simp
  have form: "successors ?vn = map Some (dead @ s # rest) @ replicate (Suc m) None"
    using shift_form[of "successors vn" d "dead @ s # rest" m] Cons.prems(1) len by simp
  have "scan_successors tr known [i..known - 1] vn w = scan_successors tr known [i + 1..known - 1] ?vn w1"
    using ping ne Cons.prems(1) by (auto simp: upto go_index_def deref_def)
  moreover have "\<exists>w3 w2. scan_successors tr known [i + 1..known - 1] ?vn w1 =
      Ret (Live, ?vn\<lparr>successors := map Some (s # rest) @ replicate (Suc m + length dead) None\<rparr>, w2) \<and>
      w2 = snd (tPing tr s w3)"
    using Cons.prems(2-4) by (intro Cons.IH[OF form]) auto
  ultimately show ?case by auto
qed


subsection \<open>Fingers\<close>

lemma dist_powerOffset:
  assumes "length i = L" "0 \<le> e" "e < int (8 * L)" "length (powerOffset i e (int (8 * L))) = L"
  shows "distance i (powerOffset i e (int (8 * L))) (int (8 * L)) = 2 ^ nat e"
proof -
  let ?M = "256 ^ L :: int"
  have M: "int (2 ^ nat (int (8 * L))) = ?M"
    unfolding of_nat_power of_nat_numeral by (rule pow2_8)
  have "int (big_SetBytes (powerOffset i e (int (8 * L)))) = (int (big_SetBytes i) + 2 ^ nat e) mod ?M"
    unfolding powerOffset_def Let_def big_SetBytes_Bytes zmod_int M by simp
  then have "distance i (powerOffset i e (int (8 * L))) (int (8 * L)) = 2 ^ nat e mod ?M"
    unfolding distance_len by (simp add: mod_diff_left_eq)
  moreover have "(2 :: int) ^ nat e < ?M"
  proof -
    have "(2 :: int) ^ nat e < 2 ^ (8 * L)" using assms(2,3) by (intro power_strict_increasing) auto
    also have "\<dots> = ?M" by (simp add: power_mult)
    finally show ?thesis .
  qed
  ultimately show ?thesis by simp
qed

text \<open>The owner of a point owns every later point up to itself.\<close>

lemma owner_later:
  assumes "key_owner L S k s" "\<And>v. v \<in> S \<Longrightarrow> length (Id v) = L" "length a = L" "length k = L" "length k' = L"
    and "distance a k (int (8 * L)) \<le> distance a k' (int (8 * L))"
    and "distance a k' (int (8 * L)) \<le> distance a (Id s) (int (8 * L))"
  shows "key_owner L S k' s"
proof -
  let ?d = "\<lambda>x y. distance x y (int (8 * L))"
  have s: "s \<in> S" "length (Id s) = L" using assms(1,2) by (auto simp: key_owner_def)
  have 1: "?d a (Id s) = ?d a k' + ?d k' (Id s)" using id_ring.dist_split[of a L k' "Id s"] assms(3,5,7) s by simp
  have 2: "?d a k' = ?d a k + ?d k k'" using id_ring.dist_split[of a L k k'] assms(3-6) by simp
  have 3: "?d a (Id s) = ?d a k + ?d k (Id s)" using id_ring.dist_split[of a L k "Id s"] assms(3,4,6,7) s by simp
  have "?d k' (Id s) \<le> ?d k' (Id t)" if t: "t \<in> S" for t
  proof -
    have lt: "length (Id t) = L" using assms(2) t .
    have "?d k (Id s) \<le> ?d k (Id t)" using assms(1) t by (simp add: key_owner_def)
    then show ?thesis
      using id_ring.dist_add_cases[of k L k' "Id t"] id_ring.dist_bound[of k' L "Id t"]
        id_ring.dist_nonneg[of k' L "Id s"] assms(4,5) lt s 1 2 3 by auto
  qed
  then show ?thesis using s(1) by (simp add: key_owner_def)
qed

definition offsets_full :: "nat \<Rightarrow> bytes \<Rightarrow> bool" where
  "offsets_full L ident \<longleftrightarrow> (\<forall>e. 0 \<le> e \<longrightarrow> e < int (8 * L) \<longrightarrow> length (powerOffset ident e (int (8 * L))) = L)"

text \<open>A finger that lies between the vnode and the owner of the finger before it has the same owner.\<close>

lemma next_finger_owned:
  assumes "key_owner L S (powerOffset (Id vn) f (int (8 * L))) s" "\<And>v. v \<in> S \<Longrightarrow> length (Id v) = L"
    and "length (Id vn) = L" "offsets_full L (Id vn)" "0 \<le> f" "f + 1 < int (8 * L)"
    and "betweenRightIncl (Id vn) (Id s) (powerOffset (Id vn) (f + 1) (int (8 * L)))"
  shows "key_owner L S (powerOffset (Id vn) (f + 1) (int (8 * L))) s"
proof -
  let ?off = "\<lambda>e. powerOffset (Id vn) e (int (8 * L))" and ?d = "\<lambda>x y. distance x y (int (8 * L))"
  have s: "length (Id s) = L" using assms(1,2) by (auto simp: key_owner_def)
  have len: "length (?off f) = L" "length (?off (f + 1)) = L" using assms(4-6) by (auto simp: offsets_full_def)
  have "?d (Id vn) (?off f) \<le> ?d (Id vn) (?off (f + 1))"
    using dist_powerOffset[of "Id vn" L f] dist_powerOffset[of "Id vn" L "f + 1"] assms(3,5,6) len by (simp add: nat_add_distrib)
  moreover have "?d (Id vn) (?off (f + 1)) \<le> ?d (Id vn) (Id s)"
    using assms(3,7) s len(2) by (simp add: betweenRightIncl_distance)
  ultimately show ?thesis using owner_later[OF assms(1) assms(2) assms(3) len] by blast
qed

lemma fill_fingers_owner:
  assumes "fill_fingers (Some s) (int (8 * L)) vn = Ret vn'"
    and "key_owner L S (powerOffset (Id vn) (last_finger vn) (int (8 * L))) s"
    and "\<And>v. v \<in> S \<Longrightarrow> length (Id v) = L" "length (Id vn) = L" "offsets_full L (Id vn)"
    and "0 \<le> last_finger vn" "last_finger vn < int (8 * L)"
  shows "\<forall>i. finger vn' ! i \<noteq> finger vn ! i \<longrightarrow>
    finger vn' ! i = Some s \<and> key_owner L S (powerOffset (Id vn) (int i) (int (8 * L))) s"
  using assms
proof (induction "nat (int (8 * L) - last_finger vn)" arbitrary: vn rule: less_induct)
  case less
  from less.prems(1) show ?case
  proof (cases rule: fill_fingers_cases)
    case stop
    then show ?thesis by simp
  next
    case (go_on nd)
    let ?n = "last_finger vn + 1"
    let ?vn = "vn\<lparr>finger := (finger vn)[nat ?n := Some s], last_finger := ?n\<rparr>"
    let ?off = "\<lambda>e. powerOffset (Id vn) e (int (8 * L))"
    have s: "nd = s" using go_on(1) by simp
    have own: "key_owner L S (?off ?n) s"
      by (rule next_finger_owned[OF less.prems(2,3)]) (use less.prems(4-7) go_on(2,5) s in auto)
    have IH: "\<forall>i. finger vn' ! i \<noteq> finger ?vn ! i \<longrightarrow>
      finger vn' ! i = Some s \<and> key_owner L S (powerOffset (Id ?vn) (int i) (int (8 * L))) s"
    proof (rule less.hyps)
      show "fill_fingers (Some s) (int (8 * L)) ?vn = Ret vn'" using go_on(1,6) s by simp
      show "\<And>v. v \<in> S \<Longrightarrow> length (Id v) = L" by (rule less.prems(3))
    qed (use own less.prems(4-7) go_on(2) in simp_all)
    show ?thesis
    proof (intro allI impI)
      fix i assume ch: "finger vn' ! i \<noteq> finger vn ! i"
      show "finger vn' ! i = Some s \<and> key_owner L S (?off (int i)) s"
      proof (cases "i = nat ?n")
        case True
        then have "finger ?vn ! i = Some s" "int i = ?n" using go_on(3,4) by (auto simp: nth_list_update)
        then show ?thesis using spec[OF IH, of i] own by (cases "finger vn' ! i = finger ?vn ! i") simp_all
      next
        case False
        then have "finger ?vn ! i = finger vn ! i" by simp
        then show ?thesis using IH ch by simp
      qed
    qed
  qed
qed

end
