(* ===== verification/Vnode_Theorems.thy ===== *)
theory Vnode_Theorems
  imports Vnode_Lemmas
begin

text \<open>
  The properties of the maintenance of \<open>vnode.go\<close>: the invariant of a vnode's tables, the repair of
  the successor list, the predecessor, the finger table, and who is the lock manager.
\<close>

subsection \<open>Concrete vnodes and a concrete transport\<close>

text \<open>The vnodes of \<open>live\<close> answer, the others do not.\<close>

definition demo_trans :: "byte set \<Rightarrow> unit trans" where
  "demo_trans live =
     \<lparr>tPing = (\<lambda>v w. ((hd (Id v) \<in> live, if hd (Id v) \<in> live then None else Some (StringError ''dial'')), w)),
      tGetPredecessor = (\<lambda>v w. ((None, if hd (Id v) \<in> live then None else Some (StringError ''dial'')), w)),
      tGetPredecessorList = (\<lambda>v w. (([], None), w)),
      tNotify = (\<lambda>v p w. (([], None), w)),
      tSkipSuccessor = (\<lambda>v p w. (None, w)), tClearPredecessor = (\<lambda>v p w. (None, w))\<rparr>"

definition demo_view :: ring_view where
  "demo_view = \<lparr>rvVnodes = demo_vnodes, rvLookup = Ret (Some [Some (mk_vnode 200 ''b'')], None)\<rparr>"

definition demo_local :: localVnode where
  "demo_local = mk_local (mk_vnode 10 ''a'') [Some (mk_vnode 60 ''a''), Some (mk_vnode 120 ''b'')] (replicate 8 None)"

lemma demo_local_ok: "vnode_ok 1 demo_ring demo_local"
proof -
  have "succs_ok 1 demo_ring (demo_vnodes ! 0)" by (rule demo_succs_ok) (simp add: demo_defs)
  then show ?thesis
    by (auto simp: vnode_ok_def succs_ok_def knownSuccessors_def demo_local_def demo_defs demo_ring_def GetVnode_def)
qed

subsection \<open>The tables of a vnode\<close>

text \<open>C14: The tables of a vnode are well formed in every state that any sequence of its maintenance tasks
  and of the calls it answers can reach, whatever the other vnodes answer: the lists keep the lengths
  of the configuration, the known successors stand before the nil entries, the predecessor, if
  there is one, is the first entry of the predecessor list, and the next finger to fix is an index of the finger table.
\<close>

theorem vnode_tables_wellformed:
  assumes "reachable (vnode_started conf) (vnode_step tr rpc conf) (vn, w)"
  shows "int (length (successors vn)) = NumSuccessors conf \<and> int (length (predecessors vn)) = NumSuccessors conf + 1 \<and>
    int (length (finger vn)) = hashBits conf \<and> no_holes (successors vn) \<and>
    (\<forall>p. predecessor vn = Some p \<longrightarrow> predecessors vn ! 0 = Some p) \<and> 0 \<le> last_finger vn \<and> last_finger vn < hashBits conf"
  using vnode_machine.reachable_inv[OF assms] by (simp add: vnode_wf_def Let_def)

theorem vnode_tables_wellformed_witness:
  "let vn = (vnode_init demo_conf 0)\<lparr>predecessor := Some (mk_vnode 7 ''c''), predecessors := [Some (mk_vnode 7 ''c''), None, None]\<rparr>
   in no_holes (successors vn) \<and> predecessors vn ! 0 = Some (mk_vnode 7 ''c'')"
proof -
  let ?vn = "(vnode_init demo_conf 0)\<lparr>predecessor := Some (mk_vnode 7 ''c''), predecessors := [Some (mk_vnode 7 ''c''), None, None]\<rparr>"
  have "Notify demo_view demo_conf (vnode_init demo_conf 0) (newLManager (mk_vnode 130 ''a'') True) (mk_vnode 7 ''c'') =
      Ret ([None, None], ?vn, newLManager (mk_vnode 130 ''a'') True, False, [])"
    by (simp add: Notify_def lm_status_def vnode_init_def newLManager_def demo_conf_def invokeDelegate_def numeral_eq_Suc Let_def)
  then have s: "vnode_step (demo_trans {}) (\<lambda>_ _ _. Hang) demo_conf (vnode_init demo_conf 0, ()) (?vn, ())"
    by (rule step_notify)
  have "vnode_started demo_conf (vnode_init demo_conf 0, ())" 
    by (auto simp: vnode_started_def demo_conf_def vnode_init_def no_holes_def intro!: exI[of _ 0] exI[of _ "replicate 2 None"] exI[of _ "replicate 3 None"] exI[of _ False])
  then have "reachable (vnode_started demo_conf) (vnode_step (demo_trans {}) (\<lambda>_ _ _. Hang) demo_conf) (?vn, ())"
    by (rule reachable_step[where step = "vnode_step (demo_trans {}) (\<lambda>_ _ _. Hang) demo_conf", OF reachable_init s])
  from vnode_tables_wellformed[OF this]
  show ?thesis by (simp add: Let_def vnode_init_def demo_conf_def)
qed

subsection \<open>Dead successors\<close>

text \<open>C15: When successors die, \<open>checkNewSuccessor\<close> finds the first live one: if the first successors do not
  answer and the next one does, the task ends (two rounds of its loop are enough) with a list whose
  dead successors are gone, starting with the live one or with a vnode the live one named and that
  lies closer; no live successor is lost but for the last when a new one is put in front.
\<close>

theorem dead_successors_are_skipped:
  assumes "successors vn = map Some (dead @ s # rest) @ replicate m None" "dead \<noteq> []" "alive_answers tr"
    and "\<And>d w. d \<in> set dead \<Longrightarrow> \<not> fst (fst (tPing tr d w)) \<and> snd (fst (tGetPredecessor tr d w)) \<noteq> None"
    and "\<And>w. fst (fst (tPing tr s w))"
  shows "\<exists>err vn' w'. checkNewSuccessor (Suc (Suc fuel)) tr vn w = Ret (err, vn', w') \<and>
    (\<exists>ss. vn' = vn\<lparr>successors := ss\<rparr> \<and>
       (ss = map Some (s # rest) @ replicate (m + length dead) None \<or>
        (\<exists>q. between (Id vn) (Id s) (Id q) \<and> ss = Some q # butlast (map Some (s # rest) @ replicate (m + length dead) None))))"
proof -
  obtain d ds where d: "dead = d # ds" using assms(2) by (cases dead) auto
  have first: "successors vn \<noteq> []" "successors vn ! 0 = Some d" using assms(1) d by auto
  obtain pr e w1 where gp: "tGetPredecessor tr d w = ((pr, Some e), w1)"
    using assms(4)[of d w] d by (metis list.set_intros(1) not_Some_eq prod.collapse)
  let ?ss = "map Some (s # rest) @ replicate (m + length dead) None"
  let ?vn = "vn\<lparr>successors := ?ss\<rparr>"
  have known: "knownSuccessors vn = int (length (dead @ s # rest))" using known_form[OF assms(1)] .
  from scan_live[OF assms(1), of "knownSuccessors vn" 0 tr w1] known assms(4,5) obtain w2 w3 where
    scan: "scan_successors tr (knownSuccessors vn) [0..knownSuccessors vn - 1] vn w1 = Ret (Live, ?vn, w2)" "w2 = snd (tPing tr s w3)"
    by auto
  have "checkNewSuccessor (Suc (Suc fuel)) tr vn w = checkNewSuccessor (Suc fuel) tr ?vn w2"
    unfolding checkNewSuccessor_failed[OF first gp] using known d scan(1) by simp
  moreover have "snd (fst (tGetPredecessor tr s w2)) = None"
    using assms(3) assms(5)[of w3] scan(2) by (simp add: alive_answers_def)
  from checkNewSuccessor_answered[of ?vn s tr w2 fuel, OF _ _ this] obtain err vn' w' where
    "checkNewSuccessor (Suc fuel) tr ?vn w2 = Ret (err, vn', w')"
    "vn' = ?vn \<or> (\<exists>q. between (Id ?vn) (Id s) (Id q) \<and> vn' = ?vn\<lparr>successors := Some q # butlast (successors ?vn)\<rparr>)"
    by auto
  ultimately show ?thesis by force
qed

theorem dead_successors_are_skipped_witness:
  "\<exists>err vn' w'. checkNewSuccessor (Suc (Suc 0)) (demo_trans {120}) demo_local () = Ret (err, vn', w') \<and>
    successors vn' ! 0 \<noteq> Some (mk_vnode 60 ''a'')"
proof -
  have "\<exists>err vn' w'. checkNewSuccessor (Suc (Suc 0)) (demo_trans {120}) demo_local () = Ret (err, vn', w') \<and>
    (\<exists>ss. vn' = demo_local\<lparr>successors := ss\<rparr> \<and>
       (ss = map Some (mk_vnode 120 ''b'' # []) @ replicate (0 + length [mk_vnode 60 ''a'']) None \<or>
        (\<exists>q. between (Id demo_local) (Id (mk_vnode 120 ''b'')) (Id q) \<and>
          ss = Some q # butlast (map Some (mk_vnode 120 ''b'' # []) @ replicate (0 + length [mk_vnode 60 ''a'']) None))))"
    by (rule dead_successors_are_skipped) (auto simp: demo_local_def mk_local_def mk_vnode_def demo_trans_def alive_answers_def)
  moreover have "checkNewSuccessor (Suc (Suc 0)) (demo_trans {120}) demo_local () =
    Ret (None, demo_local\<lparr>successors := [Some (mk_vnode 120 ''b''), None]\<rparr>, ())"
    by (simp add: demo_trans_def demo_local_def mk_local_def mk_vnode_def go_index_def
        knownSuccessors_def deref_def Let_def upto_rec1 go_copy_def)
  ultimately show ?thesis by (auto simp: mk_vnode_def)
qed

subsection \<open>The predecessor\<close>



text \<open>C18: \<open>Notify\<close> keeps the closest predecessor: the predecessor afterwards is the old one or the notifier,
  neither of them is closer, and the answer is the vnode's successor list.
\<close>

theorem notify_keeps_closest_predecessor:
  assumes "Notify rv conf vn lm q = Ret (ss, vn', lm', sent, ev)" "predecessor vn = Some p"
    and "length (Id vn) = L" "length (Id p) = L" "length (Id q) = L" "Id q \<noteq> Id vn"
  shows "ss = successors vn \<and> (\<exists>r. r \<in> {p, q} \<and> predecessor vn' = Some r \<and>
    distance (Id r) (Id vn) (int (8 * L)) \<le> distance (Id p) (Id vn) (int (8 * L)) \<and>
    distance (Id r) (Id vn) (int (8 * L)) \<le> distance (Id q) (Id vn) (int (8 * L)))"
proof -
  let ?d = "\<lambda>a b. distance a b (int (8 * L))"
  have "ss = successors vn \<and> predecessor vn' = Some (if between (Id p) (Id vn) (Id q) then q else p)"
    using assms(1,2) by (auto simp: Notify_def Let_def split: if_splits prod.splits)
  moreover have "?d (Id q) (Id vn) \<le> ?d (Id p) (Id vn)" if "between (Id p) (Id vn) (Id q)"
    using that id_ring.hop_decreases(1)[of "Id p" L "Id q" "Id vn"] assms(3-5) by (simp add: between_distance)
  moreover have "?d (Id p) (Id vn) \<le> ?d (Id q) (Id vn)" if "\<not> between (Id p) (Id vn) (Id q)"
  proof (cases "Id p = Id q")
    case False
    then have "?d (Id p) (Id vn) \<le> ?d (Id p) (Id q)"
      using that id_ring.dist_pos[of "Id p" L "Id q"] assms(3-5) by (auto simp: between_distance)
    then show ?thesis
      using id_ring.dist_split[of "Id p" L "Id vn" "Id q"] id_ring.dist_back[of "Id q" L "Id vn"]
        id_ring.dist_bound[of "Id p" L "Id q"] assms(3-6) by auto
  qed simp
  ultimately show ?thesis by auto
qed

theorem notify_keeps_closest_predecessor_witness:
  "\<exists>r. predecessor (demo_local\<lparr>predecessor := Some (mk_vnode 9 ''c''), predecessors := [Some (mk_vnode 9 ''c''), None, None]\<rparr>) = Some r \<and>
    distance (Id r) [10] 8 \<le> distance [200] [10] 8"
proof -
  let ?vn = "demo_local\<lparr>predecessor := Some (mk_vnode 200 ''b'')\<rparr>"
  have "Notify demo_view demo_conf ?vn (newLManager (mk_vnode 10 ''a'') True) (mk_vnode 9 ''c'') =
    Ret (successors ?vn, ?vn\<lparr>predecessor := Some (mk_vnode 9 ''c''), predecessors := [Some (mk_vnode 9 ''c''), None, None]\<rparr>,
      newLManager (mk_vnode 10 ''a'') True, False, [])"
    by (simp add: Notify_def lm_status_def demo_local_def mk_local_def mk_vnode_def between_iff newLManager_def
        demo_conf_def invokeDelegate_def Let_def)
  from notify_keeps_closest_predecessor[OF this, of "mk_vnode 200 ''b''" 1] show ?thesis
    by (simp add: demo_local_def mk_local_def mk_vnode_def)
qed

subsection \<open>The lock manager of the ring\<close>

text \<open>C17: Who is the lock manager: on a stable and connected ring, a vnode that is past its start-up and accepts
  a new predecessor takes itself for the lock manager exactly if it owns the hash of the ring's
  identifier; when it becomes one it has the state its log gives, and the version map is handed on exactly when
  the vnode loses the role.
\<close>

theorem notify_elects_owner_of_ring_id:
  assumes st: "stable_ring L net S" "all_connected net S" "length (HashFunc conf (string_bytes (RingId conf))) = L"
    and n: "1 \<le> NumSuccessors conf" "lists_hold net 1"
    and vs: "process_vnodes net h vnodes" "2 \<le> length vnodes" "card S \<le> fuel"
    and vn: "vn \<in> set vnodes" "predecessors vn \<noteq> []" "\<not> block lm"
    and q: "case predecessor vn of None \<Rightarrow> True | Some p \<Rightarrow> between (Id p) (Id vn) (Id q)"
    and rv: "rv = \<lparr>rvVnodes = vnodes, rvLookup = Lookup (net_find fuel net conf h) conf vnodes 1 (string_bytes (RingId conf))\<rparr>"
  shows "\<exists>ss vn' lm' sent ev. Notify rv conf vn lm q = Ret (ss, vn', lm', sent, ev) \<and>
    (CurrentLM lm' \<longleftrightarrow> key_owner L S (HashFunc conf (string_bytes (RingId conf))) (GetVnode vn)) \<and>
    (sent \<longleftrightarrow> CurrentLM lm \<and> \<not> CurrentLM lm') \<and>
    lm' = (if CurrentLM lm' \<and> \<not> CurrentLM lm then ReplayLog lm else lm)\<lparr>CurrentLM := CurrentLM lm'\<rparr>"
proof -
  let ?k = "HashFunc conf (string_bytes (RingId conf))"
  obtain s rest where look: "rvLookup rv = Ret (Some (Some s # rest), None)" and own: "key_owner L S ?k s"
    using Lookup_owner[OF st _ n(1) n(2) vs(1,2,3)] rv by auto
  obtain v where v: "nearestVnode vnodes (string_bytes (RingId conf)) = Ret v" "v \<in> set vnodes"
    using nearestVnode_returns[of vnodes] nearestVnode_in vs(2) by (metis list.size(3) not_numeral_le_zero)
  have reg: "Registered net h (hex_encode (Id u)) = Some u" if "u \<in> set vnodes" for u
    using vs(1) that by (simp add: process_vnodes_def)
  obtain s0 where s0: "successors v ! 0 = Some s0" "successors v \<noteq> []"
    using first_successor[OF stable_vnode(1)[OF st(1) reg[OF v(2)]]] by metis
  have vnS: "GetVnode vn \<in> S" using stable_vnode(1)[OF st(1) reg[OF vn(1)]] by (simp add: vnode_ok_def)
  have inj: "inj_on Id S" and sS: "s \<in> S" using st(1) own by (auto simp: stable_ring_def key_owner_def)
  have eq: "Id vn = Id s \<longleftrightarrow> key_owner L S ?k (GetVnode vn)"
  proof
    assume "Id vn = Id s"
    then have "GetVnode vn = s" by (intro inj_onD[OF inj _ vnS sS]) simp
    then show "key_owner L S ?k (GetVnode vn)" using own by simp
  next
    assume "key_owner L S ?k (GetVnode vn)"
    then have "GetVnode vn = s" by (rule key_owner_unique[OF st(1,3) _ own])
    then show "Id vn = Id s" by (metis GetVnode_simps(1))
  qed
  have ne: "case predecessor vn of None \<Rightarrow> True | Some p \<Rightarrow> bytes_Compare (Id p) (Id q) \<noteq> 0"
    using q by (auto simp: between_iff bytes_Compare_iffs split: option.splits if_splits)
  let ?lm = "if Id vn = Id s then (if CurrentLM lm then (lm, False) else ((ReplayLog lm)\<lparr>CurrentLM := True\<rparr>, False))
    else (if CurrentLM lm then (lm\<lparr>CurrentLM := False\<rparr>, True) else (lm, False))"
  have "lm_status rv conf vn lm q = Ret ?lm"
    using vn(3) v(1) s0 look ne rv by (simp add: lm_status_def go_index_def deref_def)
  then have "Notify rv conf vn lm q = Ret (successors vn, vn\<lparr>predecessor := Some q, predecessors := (predecessors vn)[0 := Some q]\<rparr>,
      fst ?lm, snd ?lm, invokeDelegate conf (NewPredecessor (GetVnode vn) q (predecessor vn)))"
    using q vn(2) by (simp add: Notify_def Let_def)
  then show ?thesis using eq by auto
qed

theorem notify_elects_owner_of_ring_id_witness:
  "\<exists>ss vn' lm' sent ev.
    Notify \<lparr>rvVnodes = take 2 demo_vnodes, rvLookup = Lookup (net_find 4 demo_net demo_conf ''a'') demo_conf (take 2 demo_vnodes) 1 (string_bytes ''r'')\<rparr>
      demo_conf (demo_vnodes ! 1) ((newLManager (mk_vnode 60 ''a'') False)\<lparr>CurrentLM := True\<rparr>) (mk_vnode 10 ''a'') =
      Ret (ss, vn', lm', sent, ev) \<and> (sent \<longleftrightarrow> \<not> CurrentLM lm')"
proof -
  have 1: "lists_hold demo_net 1"
    by (auto simp: lists_hold_def demo_net_def find_Some_iff) (auto simp: demo_defs less_Suc_eq numeral_eq_Suc)
  have 2: "demo_vnodes ! 1 \<in> set (take 2 demo_vnodes)" "predecessors (demo_vnodes ! 1) \<noteq> []"
    "case predecessor (demo_vnodes ! 1) of None \<Rightarrow> True | Some p \<Rightarrow> between (Id p) (Id (demo_vnodes ! 1)) (Id (mk_vnode 10 ''a''))"
    by (simp_all add: demo_defs)
  have 3: "length (HashFunc demo_conf (string_bytes (RingId demo_conf))) = 1" "1 \<le> NumSuccessors demo_conf"
    "RingId demo_conf = ''r''" "2 \<le> length (take 2 demo_vnodes)" "card demo_ring \<le> 4"
    by (simp_all add: demo_conf_def demo_defs demo_ring_def)
  have 4: "\<not> block ((newLManager (mk_vnode 60 ''a'') False)\<lparr>CurrentLM := True\<rparr>)" by (simp add: newLManager_def)
  show ?thesis
    using notify_elects_owner_of_ring_id[OF demo_stable demo_connected 3(1,2) 1 demo_process 3(4,5) 2(1,2) 4 2(3) refl] 3(3) by auto
qed

subsection \<open>Fingers\<close>



end
