(* ===== verification/Ring_Setup.thy ===== *)
theory Ring_Setup
  imports Vnode_Maint Clients
begin

text \<open>
  \<open>ring.go\<close> and the operations of \<open>chord.go\<close> that set a ring up and take it down. A ring holds its
  local vnodes with their lock manager, lock client and store. A channel is the list of the messages
  in it, a nil channel is \<open>None\<close>; \<open>delegateRunning\<close> says that the goroutine of \<open>delegateHandler\<close> was
  started, \<open>delegateClosed\<close> that its channel was closed (the theory \<open>Delegate\<close> holds the channel itself). Waiting for what never comes is \<open>Hang\<close>.
\<close>

subsection \<open>State\<close>

record ring_vnode =
  rvNode :: localVnode
  rvLM :: LManager
  rvClient :: LManagerClient
  rvStore :: KVStore

record Ring =
  config :: Config
  vnodes :: "ring_vnode list"
  shutdownComplete :: "bool list option"
  shutdownRequested :: bool
  delegateRunning :: bool
  delegateClosed :: bool

text \<open>The store's \<open>init\<close> reads no more of its vnode than the number of successors.\<close>

definition new_vnode :: "bool \<Rightarrow> Config \<Rightarrow> nat \<Rightarrow> ring_vnode" where
  "new_vnode blocking conf i =
     (let vn = vnode_init conf i
      in \<lparr>rvNode = vn, rvLM = newLManager (GetVnode vn) blocking, rvClient = newLManagerClient,
          rvStore = KVStore_init (store_env \<lparr>srIsLocal = (\<lambda>v. True), srLookup = (\<lambda>n k. Hang)\<rparr> conf vn)\<rparr>)"

definition Ring_Less :: "Ring \<Rightarrow> nat \<Rightarrow> nat \<Rightarrow> bool" where
  "Ring_Less r i j \<longleftrightarrow> bytes_Compare (Id (rvNode (vnodes r ! i))) (Id (rvNode (vnodes r ! j))) = -1"

text \<open>\<open>init\<close> and \<open>initBlockingLM\<close>; the latter does not make the channel \<open>shutdownComplete\<close>.\<close>

definition sorted_vnodes :: "bool \<Rightarrow> Config \<Rightarrow> ring_vnode list go" where
  "sorted_vnodes blocking conf =
     (if NumVnodes conf < 0 \<or> (0 < NumVnodes conf \<and> NumSuccessors conf < 0) then
        Panic ''makeslice: len out of range''
      else Ret (sort_key (\<lambda>e. Id (rvNode e)) (map (new_vnode blocking conf) [0..<nat (NumVnodes conf)])))"

definition Ring_init :: "Config \<Rightarrow> Ring go" where
  "Ring_init conf =
     go_bind (sorted_vnodes False conf) (\<lambda>vs.
       Ret \<lparr>config = conf, vnodes = vs, shutdownComplete = Some [], shutdownRequested = False,
            delegateRunning = False, delegateClosed = False\<rparr>)"

definition initBlockingLM :: "Config \<Rightarrow> Ring go" where
  "initBlockingLM conf =
     go_bind (sorted_vnodes True conf) (\<lambda>vs.
       Ret \<lparr>config = conf, vnodes = vs, shutdownComplete = None, shutdownRequested = False,
            delegateRunning = False, delegateClosed = False\<rparr>)"

subsection \<open>A new ring\<close>

text \<open>
  The lists of a vnode have \<open>NumSuccessors\<close> and \<open>NumSuccessors + 1\<close> entries since \<open>init\<close>, so the
  assignments below stay inside them.
\<close>

definition local_successors :: "Config \<Rightarrow> Vnode list \<Rightarrow> nat \<Rightarrow> Vnode option list \<Rightarrow> Vnode option list" where
  "local_successors conf vs idx ss =
     fold (\<lambda>i ss. ss[i := Some (vs ! ((idx + i + 1) mod length vs))])
       [0..<nat (go_min (NumSuccessors conf) (int (length vs) - 1))] ss"

definition setLocalSuccessors :: "Ring \<Rightarrow> Ring" where
  "setLocalSuccessors r =
     (let vs = map (\<lambda>e. GetVnode (rvNode e)) (vnodes r)
      in r\<lparr>vnodes := map (\<lambda>(idx, e). e\<lparr>rvNode := (rvNode e)\<lparr>successors :=
             local_successors (config r) vs idx (successors (rvNode e))\<rparr>\<rparr>) (enumerate 0 (vnodes r))\<rparr>)"

definition local_predecessors :: "Config \<Rightarrow> Vnode list \<Rightarrow> nat \<Rightarrow> Vnode option list \<Rightarrow> Vnode option list" where
  "local_predecessors conf vs idx ps =
     fold (\<lambda>i ps. ps[i := Some (vs ! (if idx < i + 1 then length vs - i - 1 else idx - i - 1))])
       [0..<nat (go_min (NumSuccessors conf + 1) (int (length vs) - 1))] ps"

definition setLocalPredecessors :: "Ring \<Rightarrow> Ring" where
  "setLocalPredecessors r =
     (let vs = map (\<lambda>e. GetVnode (rvNode e)) (vnodes r)
      in r\<lparr>vnodes := map (\<lambda>(idx, e). e\<lparr>rvNode := (rvNode e)\<lparr>predecessors :=
             local_predecessors (config r) vs idx (predecessors (rvNode e))\<rparr>\<rparr>) (enumerate 0 (vnodes r))\<rparr>)"

definition ring_schedule :: "Ring \<Rightarrow> Ring" where
  "ring_schedule r =
     r\<lparr>delegateRunning := HasDelegate (config r) \<or> delegateRunning r,
       vnodes := map (\<lambda>e. e\<lparr>rvNode := vnode_schedule (rvNode e)\<rparr>) (vnodes r)\<rparr>"

definition Create :: "Config \<Rightarrow> Ring go" where
  "Create conf0 =
     (let conf = conf0\<lparr>hashBits := HashSize conf0 * 8\<rparr>
      in go_bind (Ring_init conf) (\<lambda>r.
           Ret (ring_schedule (setLocalPredecessors (setLocalSuccessors r)))))"

subsection \<open>Joining a ring\<close>

text \<open>A live successor for each vnode; \<open>rpc\<close> is \<open>trans.FindSuccessors\<close>.\<close>

fun join_acquire :: "find_rpc \<Rightarrow> Config \<Rightarrow> Vnode option list \<Rightarrow> ring_vnode list \<Rightarrow> (go_error + ring_vnode list) go" where
  "join_acquire rpc conf hosts [] = Ret (Inr [])"
| "join_acquire rpc conf hosts (e # es) =
     (let vn = rvNode e
      in go_bind (nearestVnodeToKey hosts (Id vn)) (\<lambda>p.
         go_bind (deref p) (\<lambda>nearest.
         go_bind (rpc nearest (NumSuccessors conf) (Id vn)) (\<lambda>(succs, err).
           case err of
             Some er \<Rightarrow> Ret (Inl (fmt_Errorf ''Failed to find successor for vnodes! Got %s'' [FErr (error_text er)]))
           | None \<Rightarrow>
               (let ss = (case succs of None \<Rightarrow> [] | Some ss \<Rightarrow> ss)
                in if ss = [] then Ret (Inl (fmt_Errorf ''Failed to find successor for vnodes! Got no vnodes!'' []))
                   else if length (successors vn) < length ss then Panic ''index out of range''
                   else
                     go_bind (join_acquire rpc conf hosts es) (\<lambda>r.
                       Ret (map_sum id (\<lambda>es'. e\<lparr>rvNode := vn\<lparr>successors := go_copy (successors vn) ss\<rparr>\<rparr> # es') r)))))))"

text \<open>
  A run of \<open>stabilize\<close> at a vnode of the ring. The calls it makes act on a world that includes the ring,
  as local vnodes call each other. After a request to shut down it sends on \<open>shutdownComplete\<close>, which
  blocks when the channel is nil or full.
\<close>

definition ring_stabilize :: "nat \<Rightarrow> (Ring \<times> 'w) trans \<Rightarrow> find_rpc \<Rightarrow> store_ring \<Rightarrow> int \<Rightarrow> nat \<Rightarrow> Ring \<times> 'w
    \<Rightarrow> (Ring \<times> 'w) go" where
  "ring_stabilize fuel tr rpc sr now idx s =
     (let r = fst s; e = vnodes r ! idx
      in go_bind (stabilize fuel tr rpc sr (config r) (shutdownRequested r) now (rvNode e) (rvStore e) s)
           (\<lambda>(sent, vn', kvs', ms, r', w').
              let r1 = r'\<lparr>vnodes := (vnodes r')[idx := (vnodes r' ! idx)\<lparr>rvNode := vn', rvStore := kvs'\<rparr>]\<rparr>
              in if sent then
                   (case shutdownComplete r1 of
                      None \<Rightarrow> Hang
                    | Some ch \<Rightarrow>
                        if int (length ch) \<ge> NumVnodes (config r1) then Hang
                        else Ret (r1\<lparr>shutdownComplete := Some (ch @ [True])\<rparr>, w'))
                 else Ret (r1, w')))"

fun stabilize_all :: "nat \<Rightarrow> (Ring \<times> 'w) trans \<Rightarrow> find_rpc \<Rightarrow> store_ring \<Rightarrow> int \<Rightarrow> nat list \<Rightarrow> Ring \<times> 'w
    \<Rightarrow> (Ring \<times> 'w) go" where
  "stabilize_all fuel tr rpc sr now [] s = Ret s"
| "stabilize_all fuel tr rpc sr now (i # is) s =
     go_bind (ring_stabilize fuel tr rpc sr now i s) (stabilize_all fuel tr rpc sr now is)"

text \<open>
  What \<open>Join\<close> and \<open>BlockingJoin\<close> share; \<open>listed\<close> is the answer of \<open>trans.ListVnodes(existing)\<close>.
  \<open>BlockingJoin\<close> also sets a timer for \<open>CheckStatus\<close> of each lock manager.
\<close>

definition join_ring :: "nat \<Rightarrow> (Ring \<times> 'w) trans \<Rightarrow> find_rpc \<Rightarrow> find_rpc \<Rightarrow> store_ring \<Rightarrow> int \<Rightarrow> (Config \<Rightarrow> Ring go) \<Rightarrow> Config
    \<Rightarrow> Vnode option list \<times> go_error option \<Rightarrow> 'w \<Rightarrow> ((go_error + Ring) \<times> 'w) go" where
  "join_ring fuel tr rpc ring_rpc sr now init conf0 listed w =
     (let conf = conf0\<lparr>hashBits := HashSize conf0 * 8\<rparr>;
          (hosts, err) = listed
      in case err of
           Some er \<Rightarrow> Ret (Inl er, w)
         | None \<Rightarrow>
             if hosts = [] then Ret (Inl (fmt_Errorf ''Remote host has no vnodes!'' []), w)
             else
               go_bind (init conf) (\<lambda>r.
               go_bind (join_acquire rpc conf hosts (vnodes r)) (\<lambda>res.
                 case res of
                   Inl er \<Rightarrow> Ret (Inl er, w)
                 | Inr vs \<Rightarrow>
                     go_bind (stabilize_all fuel tr ring_rpc sr now [0..<length vs] (r\<lparr>vnodes := vs\<rparr>, w))
                       (\<lambda>(r', w'). Ret (Inr r', w')))))"

definition Join :: "nat \<Rightarrow> (Ring \<times> 'w) trans \<Rightarrow> find_rpc \<Rightarrow> find_rpc \<Rightarrow> store_ring \<Rightarrow> int \<Rightarrow> Config
    \<Rightarrow> Vnode option list \<times> go_error option \<Rightarrow> 'w \<Rightarrow> ((go_error + Ring) \<times> 'w) go" where
  "Join fuel tr rpc ring_rpc sr now conf listed w = join_ring fuel tr rpc ring_rpc sr now Ring_init conf listed w"

definition BlockingJoin :: "nat \<Rightarrow> (Ring \<times> 'w) trans \<Rightarrow> find_rpc \<Rightarrow> find_rpc \<Rightarrow> store_ring \<Rightarrow> int \<Rightarrow> Config
    \<Rightarrow> Vnode option list \<times> go_error option \<Rightarrow> 'w \<Rightarrow> ((go_error + Ring) \<times> 'w) go" where
  "BlockingJoin fuel tr rpc ring_rpc sr now conf listed w =
     join_ring fuel tr rpc ring_rpc sr now initBlockingLM conf listed w"

subsection \<open>Leaving a ring\<close>

definition requestShutdown :: "Ring \<Rightarrow> Ring" where
  "requestShutdown r = r\<lparr>shutdownRequested := True\<rparr>"

definition isBeingShutdown :: "Ring \<Rightarrow> bool" where
  "isBeingShutdown r = shutdownRequested r"

text \<open>
  Once the request is out, every vnode with a pending timer runs \<open>stabilize\<close> once more, which clears the
  timer and sends one message. \<open>stopVnodes\<close> receives \<open>NumVnodes\<close> messages.
\<close>

definition fire_timers :: "Ring \<Rightarrow> Ring" where
  "fire_timers r =
     r\<lparr>shutdownComplete :=
         map_option (\<lambda>ch. ch @ replicate (length (filter (\<lambda>e. timer (rvNode e)) (vnodes r))) True) (shutdownComplete r),
       vnodes := map (\<lambda>e. e\<lparr>rvNode := clearTimer (rvNode e)\<rparr>) (vnodes r)\<rparr>"

definition stopVnodes :: "Ring \<Rightarrow> Ring go" where
  "stopVnodes r =
     (let r1 = fire_timers (requestShutdown r); n = nat (NumVnodes (config r))
      in if n = 0 then Ret r1
         else case shutdownComplete r1 of
                None \<Rightarrow> Hang
              | Some ch \<Rightarrow> if length ch < n then Hang else Ret (r1\<lparr>shutdownComplete := Some (drop n ch)\<rparr>))"

definition stopDelegate :: "Ring \<Rightarrow> Ring go" where
  "stopDelegate r =
     (if HasDelegate (config r) then
        (if delegateClosed r then Panic ''send on closed channel''
         else if delegateRunning r then Ret (r\<lparr>delegateRunning := False, delegateClosed := True\<rparr>) else Hang)
      else Ret r)"

fun leave_all :: "'w trans \<Rightarrow> Config \<Rightarrow> ring_vnode list \<Rightarrow> go_error option \<Rightarrow> delegate_event list \<Rightarrow> 'w
    \<Rightarrow> (go_error option \<times> delegate_event list \<times> 'w) go" where
  "leave_all tr conf [] err evs w = Ret (err, evs, w)"
| "leave_all tr conf (e # es) err evs w =
     go_bind (leave tr conf (rvNode e) w) (\<lambda>(err', ev, w').
       leave_all tr conf es (mergeErrors err err') (evs @ ev) w')"

definition Leave :: "'w trans \<Rightarrow> Ring \<Rightarrow> 'w \<Rightarrow> (go_error option \<times> Ring \<times> delegate_event list \<times> 'w) go" where
  "Leave tr r w =
     go_bind (stopVnodes r) (\<lambda>r1.
     go_bind (leave_all tr (config r1) (vnodes r1) None [] w) (\<lambda>(err, evs, w').
     go_bind (stopDelegate r1) (\<lambda>r2. Ret (err, r2, evs, w'))))"

definition Shutdown :: "Ring \<Rightarrow> Ring go" where
  "Shutdown r = go_bind (stopVnodes r) stopDelegate"

subsection \<open>Accessors\<close>

definition GetNumSuccessors :: "Ring \<Rightarrow> int" where
  "GetNumSuccessors r = NumSuccessors (config r)"

definition GetRingId :: "Ring \<Rightarrow> string" where
  "GetRingId r = RingId (config r)"

definition GetLocalLocalVnode :: "Ring \<Rightarrow> ring_vnode go" where
  "GetLocalLocalVnode r = go_index (vnodes r) 0"

definition GetLocalVnode :: "Ring \<Rightarrow> Vnode go" where
  "GetLocalVnode r = go_bind (GetLocalLocalVnode r) (\<lambda>e. Ret (GetVnode (rvNode e)))"

definition ring_Lookup :: "find_rpc \<Rightarrow> Ring \<Rightarrow> int \<Rightarrow> bytes \<Rightarrow> vnodes_result" where
  "ring_Lookup rpc r n k = Lookup rpc (config r) (map rvNode (vnodes r)) n k"

end
