(* ===== verification/Ring_Theorems.thy ===== *)
theory Ring_Theorems
  imports Vnode_Theorems Ring_Setup
begin

text \<open>
  A ring that \<open>Create\<close> makes is stable, so that every lookup on it finds the owner of its key; a vnode that
  joins starts with the owner of its identifier as successor; and where taking a ring down ends.
\<close>

subsection \<open>Sorted identifiers around the ring\<close>

lemma fold_update: "n \<le> length ss \<Longrightarrow> fold (\<lambda>i ss. ss[i := f i]) [0..<n] ss = map f [0..<n] @ drop n ss"
proof (induction n)
  case (Suc n)
  then have "drop n ss = ss ! n # drop (Suc n) ss" by (simp add: Cons_nth_drop_Suc)
  with Suc show ?case by (simp add: list_update_append)
qed simp

text \<open>The position \<open>j + 1\<close> places after \<open>idx\<close> on a ring of \<open>n\<close> places.\<close>

definition ring_pos :: "nat \<Rightarrow> nat \<Rightarrow> nat \<Rightarrow> nat" where
  "ring_pos n idx j = (idx + j + 1) mod n"

lemma ring_pos_cases:
  assumes "idx < n" "j + 1 < n"
  shows "ring_pos n idx j = (if idx + j + 1 < n then idx + j + 1 else idx + j + 1 - n)"
  using assms by (auto simp: ring_pos_def mod_if)

lemma ring_pos_bounds: "idx < n \<Longrightarrow> j + 1 < n \<Longrightarrow> ring_pos n idx j < n \<and> ring_pos n idx j \<noteq> idx"
  by (auto simp: ring_pos_cases)

lemma ring_pos_surj:
  assumes "idx < n" "p < n" "p \<noteq> idx"
  obtains j where "j + 1 < n" "ring_pos n idx j = p"
proof (cases "idx < p")
  case True
  then have "ring_pos n idx (p - idx - 1) = p" using assms by (simp add: ring_pos_cases)
  then show ?thesis using assms True by (intro that[of "p - idx - 1"]) auto
next
  case False
  then have "ring_pos n idx (p + n - idx - 1) = p" using assms by (simp add: ring_pos_cases)
  then show ?thesis using assms False by (intro that[of "p + n - idx - 1"]) auto
qed

lemma sorted_nth_less:
  assumes "sorted_wrt (<) (xs :: 'a :: linorder list)" "i < length xs" "j < length xs"
  shows "xs ! i < xs ! j \<longleftrightarrow> i < j"
  using assms sorted_wrt_nth_less[OF assms(1)] by (metis less_asym nat_neq_iff)

lemma ring_pos_distance:
  assumes xs: "sorted_wrt (<) xs" "\<And>x. x \<in> set xs \<Longrightarrow> length x = L"
    and idx: "idx < length xs" and ij: "i + 1 < length xs" "j + 1 < length xs"
  shows "distance (xs ! idx) (xs ! ring_pos (length xs) idx i) (int (8 * L)) <
      distance (xs ! idx) (xs ! ring_pos (length xs) idx j) (int (8 * L)) \<longleftrightarrow> i < j"
proof -
  let ?p = "ring_pos (length xs) idx i" and ?q = "ring_pos (length xs) idx j"
  have b: "?p < length xs" "?q < length xs" using ring_pos_bounds idx ij by blast+
  have le: "xs ! k \<le> xs ! l \<longleftrightarrow> k \<le> l" if "k < length xs" "l < length xs" for k l
    using sorted_nth_less[OF xs(1), of l k] that by (metis linorder_not_less)
  have "distance (xs ! idx) (xs ! ?p) (int (8 * L)) < distance (xs ! idx) (xs ! ?q) (int (8 * L)) \<longleftrightarrow>
      (if ?q < idx then idx \<le> ?p \<or> ?p < ?q else idx \<le> ?p \<and> ?p < ?q)"
    using idx b xs(2) by (subst distance_cmp) (simp_all add: sorted_nth_less[OF xs(1)] le)
  then show ?thesis using idx ij by (auto simp: ring_pos_cases split: if_splits)
qed

text \<open>The next vnodes on a ring as a successor list.\<close>

lemma next_vnodes_ok:
  fixes vs :: "Vnode list"
  assumes vs: "sorted_wrt (<) (map Id vs)" "\<And>v. v \<in> set vs \<Longrightarrow> length (Id v) = L"
    and idx: "idx < length vs" and m: "1 \<le> m" "m < length vs"
    and vn: "Id vn = Id (vs ! idx)" "successors vn = map (\<lambda>i. Some (vs ! ring_pos (length vs) idx i)) [0..<m] @ replicate k None"
  shows "succs_ok L (set vs) vn"
proof -
  let ?pos = "ring_pos (length vs) idx"
  have form: "successors vn = map Some (map (\<lambda>i. vs ! ?pos i) [0..<m]) @ replicate k None" using vn(2) by simp
  have known: "knownSuccessors vn = int m" using known_form[OF form] by simp
  have b: "?pos i < length vs" "?pos i \<noteq> idx" if "i < m" for i using ring_pos_bounds[OF idx, of i] that m by simp_all
  have ids: "length x = L" if "x \<in> set (map Id vs)" for x using that vs(2) by auto
  have inj: "Id (vs ! p) = Id (vs ! q) \<longleftrightarrow> p = q" if "p < length vs" "q < length vs" for p q
    using sorted_nth_less[OF vs(1), of p q] sorted_nth_less[OF vs(1), of q p] that by auto
  have nth: "successors vn ! i = Some (vs ! ?pos i)" if "i < m" for i using that by (simp add: vn(2) nth_append)
  have "\<exists>j < i. successors vn ! j = Some u"
    if i: "int i < knownSuccessors vn" "successors vn ! i = Some s" and u: "u \<in> set vs" "Id u \<noteq> Id vn"
      "distance (Id vn) (Id u) (int (8 * L)) < distance (Id vn) (Id s) (int (8 * L))" for i s u
  proof -
    obtain p where p: "p < length vs" "u = vs ! p" using u(1) by (metis in_set_conv_nth)
    then have "p \<noteq> idx" using u(2) vn(1) by auto
    with ring_pos_surj[OF idx p(1)] obtain j where j: "j + 1 < length vs" "?pos j = p" by blast
    have im: "i < m" "s = vs ! ?pos i" using i known nth by auto
    have "j < i"
      using ring_pos_distance[OF vs(1) ids, of idx j i] idx j im m u(3) p b(1)[OF im(1)] vn(1) by (simp add: p)
    then show ?thesis using nth[of j] im j p by auto
  qed
  moreover have "Id v \<noteq> Id vn" if "Some v \<in> set (successors vn)" for v
    using that b inj idx by (auto simp: vn)
  moreover have "no_holes (successors vn)" using form no_holes_form by blast
  ultimately show ?thesis unfolding succs_ok_def using known m by auto
qed

subsection \<open>What \<open>Create\<close> makes\<close>

abbreviation ring_nodes :: "Ring \<Rightarrow> localVnode list" where
  "ring_nodes r \<equiv> map rvNode (vnodes r)"

definition ring_members :: "Ring \<Rightarrow> Vnode list" where
  "ring_members r = map GetVnode (ring_nodes r)"

text \<open>The network of a single process that has registered the vnodes of its ring.\<close>

definition local_net :: "Ring \<Rightarrow> network" where
  "local_net r =
     \<lparr>Registered = (\<lambda>h t. if h = Hostname (config r) then find (\<lambda>vn. hex_encode (Id vn) = t) (ring_nodes r) else None),
      Conn = (\<lambda>g h. True)\<rparr>"

text \<open>The configuration gives every vnode an identifier of its own, of \<open>L\<close> bytes.\<close>

definition ids_ok :: "nat \<Rightarrow> Config \<Rightarrow> bool" where
  "ids_ok L conf \<longleftrightarrow>
     distinct (map (genId conf) [0..<nat (NumVnodes conf)]) \<and> (\<forall>i < nat (NumVnodes conf). length (genId conf i) = L)"

lemma genId_hashBits [simp]: "genId (conf\<lparr>hashBits := b\<rparr>) = genId conf"
  by (rule ext) (simp add: genId_def)

lemma sorted_vnodes_facts:
  assumes "sorted_vnodes b conf = Ret vs" "ids_ok L conf"
  shows "length vs = nat (NumVnodes conf)" "0 \<le> NumVnodes conf"
    "sorted_wrt (<) (map (\<lambda>e. Id (rvNode e)) vs)"
    "\<And>e. e \<in> set vs \<Longrightarrow> \<exists>i < nat (NumVnodes conf). e = new_vnode b conf i"
proof -
  let ?us = "map (new_vnode b conf) [0..<nat (NumVnodes conf)]"
  have vs: "vs = sort_key (\<lambda>e. Id (rvNode e)) ?us" "0 \<le> NumVnodes conf"
    using assms(1) by (auto simp: sorted_vnodes_def split: if_splits)
  then show "length vs = nat (NumVnodes conf)" "0 \<le> NumVnodes conf" by simp_all
  have "map (\<lambda>e. Id (rvNode e)) ?us = map (genId conf) [0..<nat (NumVnodes conf)]"
    by (simp add: new_vnode_def vnode_init_def Let_def)
  then have "distinct (map (\<lambda>e. Id (rvNode e)) ?us)" using assms(2) unfolding ids_ok_def by (simp only:)
  then have "distinct (map (\<lambda>e. Id (rvNode e)) vs)"
    by (auto simp: vs(1) distinct_map dest: inj_on_imageI2 inj_on_imageI)
  moreover have "sorted (map (\<lambda>e. Id (rvNode e)) vs)" by (simp add: vs(1))
  ultimately show "sorted_wrt (<) (map (\<lambda>e. Id (rvNode e)) vs)" by (simp add: strict_sorted_iff)
  show "\<exists>i < nat (NumVnodes conf). e = new_vnode b conf i" if "e \<in> set vs" for e
    using that by (auto simp: vs(1))
qed

lemma Create_nodes:
  assumes "Create conf0 = Ret r"
  obtains vs where "sorted_vnodes False (conf0\<lparr>hashBits := HashSize conf0 * 8\<rparr>) = Ret vs" "config r = conf0\<lparr>hashBits := HashSize conf0 * 8\<rparr>"
    "shutdownComplete r = Some []" "delegateRunning r = HasDelegate conf0" "length (vnodes r) = length vs"
    "\<And>idx. idx < length vs \<Longrightarrow> rvNode (vnodes r ! idx) = (rvNode (vs ! idx))\<lparr>
       successors := local_successors conf0 (map (\<lambda>e. GetVnode (rvNode e)) vs) idx (successors (rvNode (vs ! idx))),
       predecessors := local_predecessors conf0 (map (\<lambda>e. GetVnode (rvNode e)) vs) idx (predecessors (rvNode (vs ! idx))),
       timer := True\<rparr>"
proof -
  let ?conf = "conf0\<lparr>hashBits := HashSize conf0 * 8\<rparr>"
  obtain vs where vs: "sorted_vnodes False ?conf = Ret vs" and
    r: "r = ring_schedule (setLocalPredecessors (setLocalSuccessors \<lparr>config = ?conf, vnodes = vs,
        shutdownComplete = Some [], shutdownRequested = False, delegateRunning = False, delegateClosed = False\<rparr>))"
    using assms by (auto simp: Create_def Ring_init_def Let_def)
  show thesis
  proof (rule that[OF vs])
    fix idx assume "idx < length vs"
    moreover have "map (\<lambda>e. GetVnode (rvNode e)) (vnodes (setLocalSuccessors \<lparr>config = ?conf, vnodes = vs,
        shutdownComplete = Some [], shutdownRequested = False, delegateRunning = False, delegateClosed = False\<rparr>)) = map (\<lambda>e. GetVnode (rvNode e)) vs"
      by (auto simp: setLocalSuccessors_def Let_def enumerate_eq_zip GetVnode_def intro!: nth_equalityI)
    ultimately show "rvNode (vnodes r ! idx) = (rvNode (vs ! idx))\<lparr>
       successors := local_successors conf0 (map (\<lambda>e. GetVnode (rvNode e)) vs) idx (successors (rvNode (vs ! idx))),
       predecessors := local_predecessors conf0 (map (\<lambda>e. GetVnode (rvNode e)) vs) idx (predecessors (rvNode (vs ! idx))),
       timer := True\<rparr>"
      unfolding r ring_schedule_def setLocalPredecessors_def Let_def
      by (simp add: setLocalSuccessors_def enumerate_eq_zip Let_def vnode_schedule_def local_successors_def local_predecessors_def)
  qed (simp_all add: r ring_schedule_def setLocalPredecessors_def setLocalSuccessors_def Let_def)
qed

lemma local_successors_eq:
  assumes "1 \<le> NumSuccessors conf" "1 \<le> length vs" "int (length ss) = NumSuccessors conf"
  shows "local_successors conf vs idx ss =
    (let m = min (nat (NumSuccessors conf)) (length vs - 1)
     in map (\<lambda>i. Some (vs ! ring_pos (length vs) idx i)) [0..<m] @ drop m ss)"
proof -
  have m: "nat (go_min (NumSuccessors conf) (int (length vs) - 1)) = min (nat (NumSuccessors conf)) (length vs - 1)"
    using assms by (auto simp: go_min_def)
  show ?thesis unfolding local_successors_def m Let_def ring_pos_def
    using assms(3) by (subst fold_update) auto
qed

lemma local_predecessors_length [simp]: "length (local_predecessors conf vs idx ps) = length ps"
proof -
  have "length (fold (\<lambda>i ps. ps[i := f i]) xs qs) = length qs" for f :: "nat \<Rightarrow> Vnode option" and xs and qs :: "Vnode option list"
    by (induction xs arbitrary: qs) auto
  then show ?thesis by (simp add: local_predecessors_def)
qed

lemma local_predecessors_nth:
  assumes "1 \<le> NumSuccessors conf" "length ps = nat (NumSuccessors conf + 1)" "int i \<le> NumSuccessors conf" "i + 1 < length vs"
  shows "local_predecessors conf vs idx ps ! i = Some (vs ! (if idx < i + 1 then length vs - i - 1 else idx - i - 1))"
proof -
  let ?m = "nat (go_min (NumSuccessors conf + 1) (int (length vs) - 1))"
  have m: "i < ?m" "?m \<le> length ps" using assms by (auto simp: go_min_def)
  show ?thesis unfolding local_predecessors_def fold_update[OF m(2)] using m(1) by (simp add: nth_append)
qed

text \<open>The facts about a created ring that its theorems use.\<close>

lemma Create_ring:
  assumes "Create conf0 = Ret r" "ids_ok L conf0" "2 \<le> NumVnodes conf0" "1 \<le> NumSuccessors conf0"
  shows "int (length (vnodes r)) = NumVnodes conf0" "sorted_wrt (<) (map Id (ring_members r))"
    "\<And>v. v \<in> set (ring_members r) \<Longrightarrow> length (Id v) = L \<and> Host v = Hostname conf0"
    "\<And>idx. idx < length (vnodes r) \<Longrightarrow> \<exists>i ps. rvNode (vnodes r ! idx) = (vnode_init (config r) i)\<lparr>
      successors := map (\<lambda>i. Some (ring_members r ! ring_pos (length (vnodes r)) idx i)) [0..<min (nat (NumSuccessors conf0)) (length (vnodes r) - 1)] @
        replicate (nat (NumSuccessors conf0) - min (nat (NumSuccessors conf0)) (length (vnodes r) - 1)) None,
      predecessors := ps, timer := True\<rparr> \<and> int (length ps) = NumSuccessors conf0 + 1"
    "config r = conf0\<lparr>hashBits := HashSize conf0 * 8\<rparr>"
proof -
  let ?conf = "conf0\<lparr>hashBits := HashSize conf0 * 8\<rparr>"
  obtain vs where vs: "sorted_vnodes False ?conf = Ret vs" "config r = ?conf" "length (vnodes r) = length vs"
    "\<And>idx. idx < length vs \<Longrightarrow> rvNode (vnodes r ! idx) = (rvNode (vs ! idx))\<lparr>
       successors := local_successors conf0 (map (\<lambda>e. GetVnode (rvNode e)) vs) idx (successors (rvNode (vs ! idx))),
       predecessors := local_predecessors conf0 (map (\<lambda>e. GetVnode (rvNode e)) vs) idx (predecessors (rvNode (vs ! idx))),
       timer := True\<rparr>" using Create_nodes[OF assms(1)] by metis
  have "ids_ok L ?conf" using assms(2) by (simp add: ids_ok_def)
  note f = sorted_vnodes_facts[OF vs(1) this]
  have mem: "ring_members r = map (\<lambda>e. GetVnode (rvNode e)) vs"
    using vs(3,4) by (auto simp: ring_members_def GetVnode_def intro!: nth_equalityI)
  show "config r = ?conf" by (rule vs(2))
  show "int (length (vnodes r)) = NumVnodes conf0" using f(1,2) vs(3) by simp
  show "sorted_wrt (<) (map Id (ring_members r))" using f(3) by (simp add: mem comp_def)
  show "length (Id v) = L \<and> Host v = Hostname conf0" if "v \<in> set (ring_members r)" for v
    using that f(4) assms(2) by (fastforce simp: mem new_vnode_def vnode_init_def ids_ok_def Let_def)
  fix idx assume idx: "idx < length (vnodes r)"
  let ?m = "min (nat (NumSuccessors conf0)) (length (vnodes r) - 1)" and ?e = "rvNode (vs ! idx)"
  obtain i where i: "vs ! idx = new_vnode False ?conf i" using f(4)[of "vs ! idx"] idx vs(3) by auto
  then have e: "?e = vnode_init ?conf i" by (simp add: new_vnode_def Let_def)
  have "local_successors conf0 (ring_members r) idx (successors ?e) =
      map (\<lambda>i. Some (ring_members r ! ring_pos (length (vnodes r)) idx i)) [0..<?m] @ replicate (nat (NumSuccessors conf0) - ?m) None"
    using assms(3,4) f(1) vs(3) e by (subst local_successors_eq) (simp_all add: mem Let_def vnode_init_def)
  then show "\<exists>i ps. rvNode (vnodes r ! idx) = (vnode_init (config r) i)\<lparr>
      successors := map (\<lambda>i. Some (ring_members r ! ring_pos (length (vnodes r)) idx i)) [0..<?m] @ replicate (nat (NumSuccessors conf0) - ?m) None,
      predecessors := ps, timer := True\<rparr> \<and> int (length ps) = NumSuccessors conf0 + 1"
    using vs(2-4) idx e assms(4)
    by (intro exI[of _ i] exI[of _ "local_predecessors conf0 (ring_members r) idx (predecessors ?e)"]) (simp add: mem vnode_init_def)
qed

lemma created_vnode_ok:
  assumes "Create conf0 = Ret r" "ids_ok L conf0" "2 \<le> NumVnodes conf0" "1 \<le> NumSuccessors conf0" "vn \<in> set (ring_nodes r)"
  shows "vnode_ok L (set (ring_members r)) vn" "Host vn = Hostname conf0" "int (length (successors vn)) = NumSuccessors conf0"
proof -
  note f = Create_ring[OF assms(1-4)]
  let ?m = "min (nat (NumSuccessors conf0)) (length (vnodes r) - 1)"
  obtain idx where idx: "idx < length (vnodes r)" "vn = rvNode (vnodes r ! idx)"
    using assms(5) by (metis in_set_conv_nth length_map nth_map)
  from f(4)[OF idx(1)] obtain i ps where
    vn: "vn = (vnode_init (config r) i)\<lparr>successors := map (\<lambda>i. Some (ring_members r ! ring_pos (length (vnodes r)) idx i)) [0..<?m] @
        replicate (nat (NumSuccessors conf0) - ?m) None, predecessors := ps, timer := True\<rparr>" using idx(2) by blast
  have mem: "GetVnode vn = ring_members r ! idx" "length (ring_members r) = length (vnodes r)"
    using idx by (simp_all add: ring_members_def)
  then have inS: "GetVnode vn \<in> set (ring_members r)" using idx(1) by simp
  have m: "1 \<le> ?m" "?m < length (ring_members r)" using f(1) assms(3,4) mem(2) by auto
  have "succs_ok L (set (ring_members r)) vn"
  proof (rule next_vnodes_ok[OF f(2) _ _ m])
    show "Id vn = Id (ring_members r ! idx)" using mem(1) by (metis GetVnode_simps(1))
  qed (use f(3) idx(1) mem(2) vn in auto)
  moreover have "v \<in> set (ring_members r)" if "Some v \<in> set (successors vn)" for v
  proof -
    from that obtain j where j: "j < ?m" "v = ring_members r ! ring_pos (length (vnodes r)) idx j" by (auto simp: vn)
    then have "ring_pos (length (vnodes r)) idx j < length (ring_members r)"
      using ring_pos_bounds[OF idx(1), of j] mem(2) by auto
    then show ?thesis using j by simp
  qed
  ultimately show "vnode_ok L (set (ring_members r)) vn" using inS by (auto simp: vnode_ok_def vn vnode_init_def)
  show "Host vn = Hostname conf0" using f(3)[OF inS] by simp
  show "int (length (successors vn)) = NumSuccessors conf0" using assms(4) by (simp add: vn)
qed

lemma ring_ids_sorted:
  assumes "Create conf0 = Ret r" "ids_ok L conf0" "2 \<le> NumVnodes conf0" "1 \<le> NumSuccessors conf0"
  shows "sorted_wrt (\<lambda>v w. Id v < Id w) (ring_nodes r)" "inj_on Id (set (ring_members r))"
    "\<And>vn wn. vn \<in> set (ring_nodes r) \<Longrightarrow> wn \<in> set (ring_nodes r) \<Longrightarrow> Id vn = Id wn \<Longrightarrow> vn = wn"
proof -
  have s: "sorted_wrt (<) (map Id (ring_nodes r))"
    using Create_ring(2)[OF assms] by (simp add: ring_members_def comp_def)
  then show "sorted_wrt (\<lambda>v w. Id v < Id w) (ring_nodes r)" unfolding sorted_wrt_map .
  have d: "distinct (map Id (ring_nodes r))" "distinct (map Id (ring_members r))"
    using s Create_ring(2)[OF assms] by (simp_all only: strict_sorted_iff)
  show "inj_on Id (set (ring_members r))" using d(2) unfolding distinct_map by blast
  show "\<And>vn wn. vn \<in> set (ring_nodes r) \<Longrightarrow> wn \<in> set (ring_nodes r) \<Longrightarrow> Id vn = Id wn \<Longrightarrow> vn = wn"
    using d(1) unfolding distinct_map[of Id] inj_on_def by blast
qed

lemma local_net_finds:
  assumes "Create conf0 = Ret r" "ids_ok L conf0" "2 \<le> NumVnodes conf0" "1 \<le> NumSuccessors conf0" "vn \<in> set (ring_nodes r)"
  shows "Registered (local_net r) (Hostname conf0) (hex_encode (Id vn)) = Some vn"
proof -
  obtain wn where wn: "find (\<lambda>wn. hex_encode (Id wn) = hex_encode (Id vn)) (ring_nodes r) = Some wn"
    using assms(5) by (cases "find (\<lambda>wn. hex_encode (Id wn) = hex_encode (Id vn)) (ring_nodes r)") (auto simp: find_None_iff)
  then have "wn \<in> set (ring_nodes r)" "Id wn = Id vn" by (auto simp: find_Some_iff)
  then have "wn = vn" using ring_ids_sorted(3)[OF assms(1-4)] assms(5) by blast
  then show ?thesis using wn Create_ring(5)[OF assms(1-4)] by (simp add: local_net_def)
qed

lemma created_stable:
  assumes "Create conf0 = Ret r" "ids_ok L conf0" "2 \<le> NumVnodes conf0" "1 \<le> NumSuccessors conf0"
  shows "stable_ring L (local_net r) (set (ring_members r))"
proof -
  have "t = hex_encode (Id vn) \<and> h = Host vn \<and> vnode_ok L (set (ring_members r)) vn"
    if "Registered (local_net r) h t = Some vn" for h t vn
  proof -
    have vn: "vn \<in> set (ring_nodes r)" "t = hex_encode (Id vn)" "h = Hostname conf0"
      using that Create_ring(5)[OF assms] by (auto simp: local_net_def find_Some_iff split: if_splits)
    then show ?thesis using created_vnode_ok[OF assms vn(1)] by simp
  qed
  moreover have "Registered (local_net r) (Host v) (String v) \<noteq> None" if v: "v \<in> set (ring_members r)" for v
  proof -
    obtain vn where "vn \<in> set (ring_nodes r)" "v = GetVnode vn" using v by (auto simp: ring_members_def)
    then show ?thesis using local_net_finds[OF assms, of vn] Create_ring(3)[OF assms v] by (simp add: String_def)
  qed
  ultimately show ?thesis
    using ring_ids_sorted(2)[OF assms] Create_ring(3)[OF assms] unfolding stable_ring_def by blast
qed

subsection \<open>Concrete rings\<close>

text \<open>The hash here reads the last byte, so the vnodes get the identifiers 50, 150, 250.\<close>

definition tiny_conf :: Config where
  "tiny_conf =
     \<lparr>Hostname = ''a'', NumVnodes = 3, HashFunc = (\<lambda>k. [last k * 100 + 50]), HashSize = 1, StabilizeMin = 1,
      StabilizeMax = 2, NumSuccessors = 2, HasDelegate = False, hashBits = 8, RingId = ''r''\<rparr>"

lemma tiny_ids: "ids_ok 1 tiny_conf"
  by (simp add: ids_ok_def genId_def tiny_conf_def upt_rec)

lemma tiny_create: "\<exists>r. Create tiny_conf = Ret r"
  by (simp add: Create_def Ring_init_def sorted_vnodes_def tiny_conf_def Let_def)

subsection \<open>Properties\<close>

text \<open>C11: A new ring is stable: after \<open>Create\<close>, the successor list of every vnode holds the ring members that follow
  it in order, and all tables name ring members only; each vnode starts in a state from which its
  tables stay well formed.
\<close>

theorem created_ring_is_stable:
  assumes "Create conf = Ret r" "ids_ok L conf" "2 \<le> NumVnodes conf" "1 \<le> NumSuccessors conf" "1 \<le> HashSize conf"
  shows "stable_ring L (local_net r) (set (ring_members r)) \<and> int (length (ring_members r)) = NumVnodes conf \<and>
    (\<forall>e \<in> set (vnodes r). vnode_started (config r) (rvNode e, w))"
proof (intro conjI ballI)
  note f = Create_ring[OF assms(1-4)]
  show "stable_ring L (local_net r) (set (ring_members r))" by (rule created_stable[OF assms(1-4)])
  show "int (length (ring_members r)) = NumVnodes conf" using f(1) by (simp add: ring_members_def)
  fix e assume e: "e \<in> set (vnodes r)"
  then obtain idx where idx: "idx < length (vnodes r)" "e = vnodes r ! idx" by (metis in_set_conv_nth)
  obtain i ps ss where "rvNode e = (vnode_init (config r) i)\<lparr>successors := ss, predecessors := ps, timer := True\<rparr>"
    "int (length ps) = NumSuccessors conf + 1" using f(4)[OF idx(1)] idx(2) by blast
  moreover have "vnode_ok L (set (ring_members r)) (rvNode e)" "int (length (successors (rvNode e))) = NumSuccessors conf"
    using created_vnode_ok[OF assms(1-4), of "rvNode e"] e by auto
  ultimately show "vnode_started (config r) (rvNode e, w)"
    using assms(4,5) f(5) by (auto simp: vnode_started_def vnode_ok_def succs_ok_def)
qed

theorem created_ring_is_stable_witness:
  "\<exists>r. Create tiny_conf = Ret r \<and> stable_ring 1 (local_net r) (set (ring_members r))"
proof -
  obtain r where r: "Create tiny_conf = Ret r" using tiny_create by blast
  show ?thesis using created_ring_is_stable[OF r tiny_ids, where w = "()"] r by (simp add: tiny_conf_def)
qed



text \<open>The predecessor lists of a new ring are wrong: of the entries \<open>Create\<close> fills, only those of the first vnode
  and those that do not reach back over the start of the sorted vnodes name the right predecessor,
  because the index is not taken modulo the number of vnodes.
\<close>

theorem created_predecessors_wrong:
  assumes "Create conf = Ret r" "ids_ok L conf" "2 \<le> NumVnodes conf" "1 \<le> NumSuccessors conf"
    and "int idx < NumVnodes conf" "int i \<le> NumSuccessors conf" "int i + 1 < NumVnodes conf"
  shows "predecessors (rvNode (vnodes r ! idx)) ! i =
      Some (ring_members r ! ((idx + nat (NumVnodes conf) - (i + 1)) mod nat (NumVnodes conf))) \<longleftrightarrow> i < idx \<or> idx = 0"
proof -
  let ?conf = "conf\<lparr>hashBits := HashSize conf * 8\<rparr>" and ?n = "nat (NumVnodes conf)"
  obtain vs where vs: "sorted_vnodes False ?conf = Ret vs" "length (vnodes r) = length vs"
    "\<And>idx. idx < length vs \<Longrightarrow> rvNode (vnodes r ! idx) = (rvNode (vs ! idx))\<lparr>
       successors := local_successors conf (map (\<lambda>e. GetVnode (rvNode e)) vs) idx (successors (rvNode (vs ! idx))),
       predecessors := local_predecessors conf (map (\<lambda>e. GetVnode (rvNode e)) vs) idx (predecessors (rvNode (vs ! idx))),
       timer := True\<rparr>" using Create_nodes[OF assms(1)] by metis
  have "ids_ok L ?conf" using assms(2) by (simp add: ids_ok_def)
  note f = sorted_vnodes_facts[OF vs(1) this]
  have mem: "ring_members r = map (\<lambda>e. GetVnode (rvNode e)) vs" "length vs = ?n"
    using vs(2,3) f(1) by (auto simp: ring_members_def GetVnode_def intro!: nth_equalityI)
  have idx: "idx < length vs" using assms(5) mem(2) by auto
  have "length (predecessors (rvNode (vs ! idx))) = nat (NumSuccessors conf + 1)"
    using f(4)[of "vs ! idx"] idx by (auto simp: new_vnode_def vnode_init_def Let_def)
  then have "predecessors (rvNode (vnodes r ! idx)) ! i = Some (ring_members r ! (if idx < i + 1 then ?n - i - 1 else idx - i - 1))"
    unfolding vs(3)[OF idx] mem(1) using assms(4,6,7) mem(2) by (simp add: local_predecessors_nth)
  moreover have "distinct (ring_members r)" using Create_ring(2)[OF assms(1-4)] by (metis distinct_map strict_sorted_iff)
  moreover have "(idx + ?n - (i + 1)) mod ?n = (if idx < i + 1 then idx + ?n - (i + 1) else idx - i - 1)"
    using idx mem(2) assms(7) by (simp add: mod_if)
  moreover have "length (ring_members r) = ?n" using mem by simp
  ultimately show ?thesis using idx mem(2) assms(7) by (auto simp: nth_eq_iff_index_eq)
qed

theorem created_predecessors_wrong_witness:
  "\<exists>r. Create tiny_conf = Ret r \<and> predecessors (rvNode (vnodes r ! 1)) ! 1 \<noteq> Some (ring_members r ! 2)"
proof -
  obtain r where r: "Create tiny_conf = Ret r" using tiny_create by blast
  show ?thesis using created_predecessors_wrong[OF r tiny_ids, of 1 1] r by (simp add: tiny_conf_def)
qed

subsection \<open>Joining\<close>

lemma map_sum_eq_Inr: "map_sum id f x = Inr y \<longleftrightarrow> (\<exists>z. x = Inr z \<and> y = f z)"
  by (cases x) auto

lemma join_acquire_starts:
  assumes "join_acquire rpc conf hosts es = Ret (Inr es')" "\<And>e. e \<in> set es \<Longrightarrow> rpc_sound L S (NumSuccessors conf) (Id (rvNode e)) rpc"
  shows "list_all2 (\<lambda>e e'. \<exists>s ss. e' = e\<lparr>rvNode := (rvNode e)\<lparr>successors := Some s # ss\<rparr>\<rparr> \<and>
    length (Some s # ss) = length (successors (rvNode e)) \<and> key_owner L S (Id (rvNode e)) s) es es'"
  using assms
proof (induction es arbitrary: es')
  case (Cons e es)
  obtain nearest succs where rpc: "rpc nearest (NumSuccessors conf) (Id (rvNode e)) = Ret (succs, None)"
    and rest: "go_bind (join_acquire rpc conf hosts es) (\<lambda>r. Ret (map_sum id (\<lambda>es'. e\<lparr>rvNode := (rvNode e)\<lparr>successors :=
        go_copy (successors (rvNode e)) (case succs of None \<Rightarrow> [] | Some ss \<Rightarrow> ss)\<rparr>\<rparr> # es') r)) = Ret (Inr es')"
    and len: "length (case succs of None \<Rightarrow> [] | Some ss \<Rightarrow> ss) \<le> length (successors (rvNode e))"
    using Cons.prems(1) by (auto simp: Let_def not_less split: option.splits if_splits)
  obtain s tail where s: "succs = Some (Some s # tail)" "key_owner L S (Id (rvNode e)) s"
    using Cons.prems(2)[of e] rpc unfolding rpc_sound_def answers_owner_def by (metis list.set_intros(1))
  obtain es'' where es'': "join_acquire rpc conf hosts es = Ret (Inr es'')"
    "es' = e\<lparr>rvNode := (rvNode e)\<lparr>successors := go_copy (successors (rvNode e)) (Some s # tail)\<rparr>\<rparr> # es''"
    using rest s(1) by (auto simp: map_sum_eq_Inr)
  have "go_copy (successors (rvNode e)) (Some s # tail) = Some s # (take (length (successors (rvNode e)) - 1) tail @ drop (Suc (length tail)) (successors (rvNode e)))"
    using len s(1) by (cases "successors (rvNode e)") (auto simp: go_copy_def)
  moreover have "length (go_copy (successors (rvNode e)) (Some s # tail)) = length (successors (rvNode e))" by simp
  ultimately show ?case
    using Cons.IH[OF es''(1)] Cons.prems(2) s(2) es''(2)
    by (auto intro!: exI[of _ s] exI[of _ "take (length (successors (rvNode e)) - 1) tail @ drop (Suc (length tail)) (successors (rvNode e))"])
qed simp

text \<open>C13: A vnode that joins a stable ring starts with the right successor: when the search for successors of \<open>Join\<close>
  succeeds, the list of every new vnode starts with the ring member that owns the identifier of the
  vnode, and keeps its length.
\<close>

theorem join_starts_at_owner:
  assumes "stable_ring L net S" "ids_ok L conf" "1 \<le> NumSuccessors conf" "Ring_init conf = Ret r"
    and "join_acquire (net_find fuel net conf h) conf hosts (vnodes r) = Ret (Inr vs)" "e \<in> set vs"
  shows "\<exists>s ss. successors (rvNode e) = Some s # ss \<and> int (length (Some s # ss)) = NumSuccessors conf \<and>
    key_owner L S (Id (rvNode e)) s"
proof -
  have sv: "sorted_vnodes False conf = Ret (vnodes r)" using assms(4) by (auto simp: Ring_init_def)
  have e: "\<exists>i < nat (NumVnodes conf). e = new_vnode False conf i" if "e \<in> set (vnodes r)" for e
    by (rule sorted_vnodes_facts(4)[OF sv assms(2) that])
  have "rpc_sound L S (NumSuccessors conf) (Id (rvNode e)) (net_find fuel net conf h)" if "e \<in> set (vnodes r)" for e
    using e[OF that] assms(2,3) net_find_sound[OF assms(1)]
    by (auto simp: ids_ok_def new_vnode_def vnode_init_def Let_def)
  from join_acquire_starts[OF assms(5) this] assms(6) obtain e0 where e0: "e0 \<in> set (vnodes r)"
    "\<exists>s ss. e = e0\<lparr>rvNode := (rvNode e0)\<lparr>successors := Some s # ss\<rparr>\<rparr> \<and>
      length (Some s # ss) = length (successors (rvNode e0)) \<and> key_owner L S (Id (rvNode e0)) s"
    unfolding list_all2_conv_all_nth by (metis in_set_conv_nth)
  then show ?thesis using e[OF e0(1)] assms(3) by (auto simp: new_vnode_def vnode_init_def Let_def)
qed

definition join_conf :: Config where
  "join_conf = tiny_conf\<lparr>NumVnodes := 1\<rparr>"

theorem join_starts_at_owner_witness:
  "\<exists>r e. Ring_init join_conf = Ret r \<and> vnodes r = [e] \<and> key_owner 1 demo_ring (Id (rvNode e)) (mk_vnode 60 ''a'')"
proof -
  let ?e = "new_vnode False join_conf 0"
  let ?r = "\<lparr>config = join_conf, vnodes = [?e], shutdownComplete = Some [], shutdownRequested = False, delegateRunning = False, delegateClosed = False\<rparr>"
  let ?f = "?e\<lparr>rvNode := (rvNode ?e)\<lparr>successors := [Some (mk_vnode 60 ''a''), Some (mk_vnode 120 ''b'')]\<rparr>\<rparr>"
  have r: "Ring_init join_conf = Ret ?r"
    by (simp add: Ring_init_def sorted_vnodes_def join_conf_def tiny_conf_def)
  have ids: "ids_ok 1 join_conf" by (simp add: ids_ok_def genId_def join_conf_def tiny_conf_def)
  have id: "Id (rvNode ?e) = [50]" by (simp add: new_vnode_def vnode_init_def genId_def join_conf_def tiny_conf_def Let_def)
  have near: "nearestVnodeToKey [Some (mk_vnode 10 ''a'')] [50] = Ret (Some (mk_vnode 10 ''a''))" by code_simp
  have find: "net_find 2 demo_net join_conf ''b'' (mk_vnode 10 ''a'') 2 [50] = Ret (Some [Some (mk_vnode 60 ''a''), Some (mk_vnode 120 ''b'')], None)"
    by code_simp
  have NS: "NumSuccessors join_conf = 2" by (simp add: join_conf_def tiny_conf_def)
  have "length (successors (rvNode ?e)) = 2" by (simp add: new_vnode_def vnode_init_def NS Let_def)
  then have "join_acquire (net_find 2 demo_net join_conf ''b'') join_conf [Some (mk_vnode 10 ''a'')] (vnodes ?r) = Ret (Inr [?f])"
    by (simp add: id near find NS Let_def deref_def go_copy_def)
  from join_starts_at_owner[OF demo_stable ids _ r this, of ?f] show ?thesis using r NS id by simp
qed

subsection \<open>Leaving\<close>

lemma leave_all_returns:
  assumes "\<And>e. e \<in> set es \<Longrightarrow> predecessor (rvNode e) = None \<and> (\<exists>s ss. successors (rvNode e) = Some s # ss)"
  shows "\<exists>err' ev w'. leave_all tr c es err evs w = Ret (err', ev, w') \<and>
      ((\<forall>s v w. fst (tClearPredecessor tr s v w) = None) \<longrightarrow> err = None \<longrightarrow> err' = None)"
  using assms
proof (induction es arbitrary: err evs w)
  case (Cons e es)
  obtain s ss where e: "predecessor (rvNode e) = None" "successors (rvNode e) = Some s # ss"
    using Cons.prems[of e] by auto
  obtain er w1 where cl: "tClearPredecessor tr s (GetVnode (rvNode e)) w = (er, w1)" by fastforce
  then have "\<exists>ev. leave tr c (rvNode e) w = Ret (er, ev, w1)"
    using e by (simp add: leave_def go_index_def deref_def Let_def)
  then obtain ev where ev: "leave tr c (rvNode e) w = Ret (er, ev, w1)" by blast
  have "(\<forall>s v w. fst (tClearPredecessor tr s v w) = None) \<Longrightarrow> er = None" using cl by (metis fst_conv)
  then show ?case using Cons.IH[of "mergeErrors err er" "evs @ ev" w1] Cons.prems ev by (auto simp: mergeErrors_None_iff)
qed simp

text \<open>A ring that \<open>BlockingJoin\<close> made can never be left: \<open>initBlockingLM\<close> does not make the channel on which the vnodes
  report that they have stopped, so that \<open>Leave\<close> and \<open>Shutdown\<close> wait forever on a nil channel.
\<close>

theorem blocking_ring_never_stops:
  assumes "initBlockingLM conf = Ret r" "0 < NumVnodes conf"
    and "config r' = config r" "shutdownComplete r' = shutdownComplete r"
  shows "Leave tr r' w = Hang \<and> Shutdown r' = Hang"
proof -
  have "NumVnodes (config r') = NumVnodes conf" "shutdownComplete r' = None"
    using assms by (auto simp: initBlockingLM_def)
  then have "stopVnodes r' = Hang"
    using assms(2) by (simp add: stopVnodes_def fire_timers_def requestShutdown_def Let_def)
  then show ?thesis by (simp add: Leave_def Shutdown_def)
qed

theorem blocking_ring_never_stops_witness:
  "\<exists>r. initBlockingLM tiny_conf = Ret r \<and> Leave (demo_trans {}) r () = Hang"
proof -
  obtain r where r: "initBlockingLM tiny_conf = Ret r"
    by (simp add: initBlockingLM_def sorted_vnodes_def tiny_conf_def)
  show ?thesis using blocking_ring_never_stops[OF r, of r "demo_trans {}" "()"] r by (simp add: tiny_conf_def)
qed

text \<open>A ring that \<open>Join\<close> made never calls its delegate: only \<open>schedule\<close> of the ring starts the goroutine that does, and
  only \<open>Create\<close> calls it. So \<open>Leave\<close> and \<open>Shutdown\<close> of a joined ring with a delegate do not return.
\<close>

theorem joined_ring_delegate_hangs:
  assumes "Ring_init conf = Ret r" "HasDelegate conf"
    and "config r' = config r" "delegateRunning r' = delegateRunning r" "delegateClosed r' = delegateClosed r"
  shows "(\<forall>res. Leave tr r' w \<noteq> Ret res) \<and> (\<forall>r''. Shutdown r' \<noteq> Ret r'')"
proof -
  have "stopDelegate r1 = Hang" if "stopVnodes r' = Ret r1" for r1
  proof -
    have "config r1 = config r' \<and> delegateRunning r1 = delegateRunning r' \<and> delegateClosed r1 = delegateClosed r'"
      using that by (auto simp: stopVnodes_def fire_timers_def requestShutdown_def Let_def split: if_splits option.splits)
    then show ?thesis using assms by (auto simp: stopDelegate_def Ring_init_def)
  qed
  then show ?thesis by (auto simp: Leave_def Shutdown_def)
qed

theorem joined_ring_delegate_hangs_witness:
  "\<exists>r. Ring_init (tiny_conf\<lparr>HasDelegate := True\<rparr>) = Ret r \<and> (\<forall>r''. Shutdown r \<noteq> Ret r'')"
proof -
  obtain r where r: "Ring_init (tiny_conf\<lparr>HasDelegate := True\<rparr>) = Ret r"
    by (simp add: Ring_init_def sorted_vnodes_def tiny_conf_def)
  show ?thesis using joined_ring_delegate_hangs[OF r, of r "demo_trans {}" "()"] r by simp
qed



end
