(* ===== verification/Delegate.thy ===== *)
theory Delegate
  imports Ring_Setup
begin

text \<open>
  The goroutine of \<open>ring.go\<close> that calls the delegate, and the channel to it. A call of the delegate changes the
  delegate's own state \<open>'d\<close> and may panic. The wrapper that \<open>invokeDelegate\<close> sends is its captured variables: the
  completion channel, numbered in the order the channels are made, and the call. Senders and the goroutine run
  interleaved, as steps of a relation that also remembers what was sent; in every reachable state the calls
  were made in the order they were sent, each completion channel has been signalled once, and no panic of a
  call stops the goroutine. \<open>Ring_Setup.stopDelegate\<close> is what \<open>stopDelegate\<close> does on this channel.
\<close>

subsection \<open>The channel and the goroutine\<close>

type_synonym 'd callback = "'d \<Rightarrow> 'd \<times> string option"

record 'd delegate_run =
  dUser :: 'd
  delegateCh :: "(nat \<times> 'd callback) list"
  dClosed :: bool
  dMade :: nat
  dSignalled :: "nat list"
  dLogged :: "string list"
  dHandler :: bool

definition delegate_init :: "'d \<Rightarrow> 'd delegate_run" where
  "delegate_init d = \<lparr>dUser = d, delegateCh = [], dClosed = False, dMade = 0, dSignalled = [], dLogged = [], dHandler = False\<rparr>"

definition panic_log :: "string option \<Rightarrow> string list" where
  "panic_log p = (case p of None \<Rightarrow> []
     | Some m \<Rightarrow> [''Caught a panic invoking a delegate function! Got: '' @ m])"

text \<open>The deferred send of the wrapper is done before \<open>safeInvoke\<close> recovers from the panic.\<close>

definition safeInvoke :: "nat \<times> 'd callback \<Rightarrow> 'd delegate_run \<Rightarrow> 'd delegate_run" where
  "safeInvoke w r =
     (case snd w (dUser r) of (d, p) \<Rightarrow>
        r\<lparr>dUser := d, dSignalled := dSignalled r @ [fst w], dLogged := dLogged r @ panic_log p\<rparr>)"

text \<open>One round of the loop, which does nothing while it waits; and the rounds until it waits or ends.\<close>

definition delegateHandler_round :: "'d delegate_run \<Rightarrow> 'd delegate_run" where
  "delegateHandler_round r =
     (case delegateCh r of
        [] \<Rightarrow> if dClosed r then r\<lparr>dHandler := False\<rparr> else r
      | w # ws \<Rightarrow> safeInvoke w (r\<lparr>delegateCh := ws\<rparr>))"

lemma safeInvoke_fields [simp]:
  "delegateCh (safeInvoke w r) = delegateCh r" "dClosed (safeInvoke w r) = dClosed r"
  "dMade (safeInvoke w r) = dMade r" "dHandler (safeInvoke w r) = dHandler r"
  "dUser (safeInvoke w r) = fst (snd w (dUser r))" "dSignalled (safeInvoke w r) = dSignalled r @ [fst w]"
  "dLogged (safeInvoke w r) = dLogged r @ panic_log (snd (snd w (dUser r)))"
  by (simp_all add: safeInvoke_def split: prod.splits)

function delegateHandler :: "'d delegate_run \<Rightarrow> 'd delegate_run" where
  "delegateHandler r =
     (case delegateCh r of
        [] \<Rightarrow> delegateHandler_round r
      | w # ws \<Rightarrow> delegateHandler (delegateHandler_round r))"
  by pat_completeness auto
termination
  by (relation "measure (\<lambda>r. length (delegateCh r))") (auto simp: delegateHandler_round_def)

declare delegateHandler.simps [simp del]

text \<open>
  The channel has room for 32 calls; a sender that finds it full waits until the goroutine has taken one.
\<close>

definition delegate_send :: "'d callback \<Rightarrow> 'd delegate_run \<Rightarrow> nat option \<times> 'd delegate_run" where
  "delegate_send f r = (Some (dMade r), r\<lparr>delegateCh := delegateCh r @ [(dMade r, f)], dMade := Suc (dMade r)\<rparr>)"

definition invokeDelegate_chan :: "Config \<Rightarrow> 'd callback \<Rightarrow> 'd delegate_run \<Rightarrow> (nat option \<times> 'd delegate_run) go" where
  "invokeDelegate_chan conf f r =
     (if \<not> HasDelegate conf then Ret (None, r)
      else if dClosed r then Panic ''send on closed channel''
      else if length (delegateCh r) < 32 then Ret (delegate_send f r)
      else if dHandler r then Ret (delegate_send f (delegateHandler_round r))
      else Hang)"

definition start_delegate :: "Config \<Rightarrow> 'd delegate_run \<Rightarrow> 'd delegate_run" where
  "start_delegate conf r = (if HasDelegate conf then r\<lparr>dHandler := True\<rparr> else r)"

text \<open>\<open>stopDelegate\<close>; it closes the channel once the call of \<open>Shutdown\<close> is signalled, and the goroutine ends.\<close>

definition stopDelegate_chan :: "Config \<Rightarrow> 'd callback \<Rightarrow> 'd delegate_run \<Rightarrow> 'd delegate_run go" where
  "stopDelegate_chan conf shut r =
     (if \<not> HasDelegate conf then Ret r
      else go_bind (invokeDelegate_chan conf shut r) (\<lambda>(ch, r1).
        let r2 = (if dHandler r1 then delegateHandler r1 else r1)
        in if ch \<in> Some ` set (dSignalled r2) then Ret (delegateHandler (r2\<lparr>dClosed := True\<rparr>)) else Hang))"

subsection \<open>Interleaved runs\<close>

text \<open>A state of a run is what was sent so far and the channel with its goroutine.\<close>

inductive delegate_step :: "Config \<Rightarrow> (nat \<times> 'd callback) list \<times> 'd delegate_run \<Rightarrow> (nat \<times> 'd callback) list \<times> 'd delegate_run \<Rightarrow> bool"
  for conf where
  schedule: "\<not> dClosed r \<Longrightarrow> \<not> dHandler r \<Longrightarrow> delegate_step conf (hs, r) (hs, start_delegate conf r)"
| invoke: "invokeDelegate_chan conf f r = Ret (Some ch, r') \<Longrightarrow> delegate_step conf (hs, r) (hs @ [(ch, f)], r')"
| handle: "dHandler r \<Longrightarrow> delegate_step conf (hs, r) (hs, delegateHandler_round r)"
| close: "\<not> dClosed r \<Longrightarrow> delegate_step conf (hs, r) (hs, r\<lparr>dClosed := True\<rparr>)"

abbreviation delegate_reachable :: "Config \<Rightarrow> 'd \<Rightarrow> (nat \<times> 'd callback) list \<times> 'd delegate_run \<Rightarrow> bool" where
  "delegate_reachable conf d \<equiv> reachable (\<lambda>s. s = ([], delegate_init d)) (delegate_step conf)"

fun apply_calls :: "(nat \<times> 'd callback) list \<Rightarrow> 'd \<Rightarrow> 'd \<times> string list" where
  "apply_calls [] d = (d, [])"
| "apply_calls (w # ws) d =
     (case snd w d of (d', p) \<Rightarrow> case apply_calls ws d' of (d'', ps) \<Rightarrow> (d'', panic_log p @ ps))"

definition delegate_inv :: "'d \<Rightarrow> (nat \<times> 'd callback) list \<Rightarrow> 'd delegate_run \<Rightarrow> bool" where
  "delegate_inv d hs r \<longleftrightarrow>
     length (delegateCh r) \<le> 32 \<and> map fst hs = [0..<dMade r] \<and>
     (\<exists>ran. hs = ran @ delegateCh r \<and> apply_calls ran d = (dUser r, dLogged r) \<and> dSignalled r = map fst ran)"

lemma apply_calls_append:
  "apply_calls (xs @ ys) d = (case apply_calls xs d of (d', ps) \<Rightarrow>
     case apply_calls ys d' of (d'', qs) \<Rightarrow> (d'', ps @ qs))"
  by (induction xs d rule: apply_calls.induct) (auto split: prod.splits)

lemma delegate_inv_round:
  assumes "delegate_inv d hs r"
  shows "delegate_inv d hs (delegateHandler_round r)"
proof (cases "delegateCh r")
  case Nil
  then show ?thesis using assms by (auto simp: delegateHandler_round_def delegate_inv_def)
next
  case (Cons w ws)
  obtain ran where ran: "hs = ran @ w # ws" "apply_calls ran d = (dUser r, dLogged r)" "dSignalled r = map fst ran"
    using assms Cons by (auto simp: delegate_inv_def)
  have "apply_calls (ran @ [w]) d = (dUser (delegateHandler_round r), dLogged (delegateHandler_round r))"
    using ran(2) Cons by (simp add: apply_calls_append delegateHandler_round_def split: prod.splits)
  then show ?thesis using assms ran Cons
    unfolding delegate_inv_def by (intro conjI exI[of _ "ran @ [w]"]) (auto simp: delegateHandler_round_def)
qed

lemma delegateHandler_round_room: "length (delegateCh r) \<le> 32 \<Longrightarrow> length (delegateCh (delegateHandler_round r)) < 32"
  by (auto simp: delegateHandler_round_def split: list.splits)

lemma delegateHandler_round_made [simp]: "dMade (delegateHandler_round r) = dMade r"
  by (auto simp: delegateHandler_round_def split: list.splits)

lemma delegateHandler_round_closed [simp]: "dClosed (delegateHandler_round r) = dClosed r"
  by (auto simp: delegateHandler_round_def split: list.splits)

lemma delegate_inv_send:
  assumes "delegate_inv d hs r" "length (delegateCh r) < 32" "delegate_send f r = (Some ch, r')"
  shows "delegate_inv d (hs @ [(ch, f)]) r'"
  using assms by (auto simp: delegate_inv_def delegate_send_def)

lemma delegate_inv_invoke:
  assumes "delegate_inv d hs r" "invokeDelegate_chan conf f r = Ret (Some ch, r')"
  shows "delegate_inv d (hs @ [(ch, f)]) r'"
proof (cases "length (delegateCh r) < 32")
  case True
  then show ?thesis using assms
    by (auto simp: invokeDelegate_chan_def split: if_splits intro: delegate_inv_send)
next
  case False
  have "length (delegateCh (delegateHandler_round r)) < 32"
    using assms(1) by (intro delegateHandler_round_room) (simp add: delegate_inv_def)
  then show ?thesis using assms False
    by (auto simp: invokeDelegate_chan_def split: if_splits intro: delegate_inv_send delegate_inv_round)
qed

interpretation dg: invariant_system "\<lambda>s. s = ([], delegate_init d)" "delegate_step conf" "\<lambda>s. delegate_inv d (fst s) (snd s)"
  for conf d
proof unfold_locales
  fix s :: "(nat \<times> 'a callback) list \<times> 'a delegate_run" assume "s = ([], delegate_init d)"
  then show "delegate_inv d (fst s) (snd s)" by (simp add: delegate_inv_def delegate_init_def)
next
  fix s t :: "(nat \<times> 'a callback) list \<times> 'a delegate_run" assume inv: "delegate_inv d (fst s) (snd s)" and step: "delegate_step conf s t"
  from step show "delegate_inv d (fst t) (snd t)" using inv
    by cases (auto simp: start_delegate_def delegate_inv_invoke delegate_inv_round, auto simp: delegate_inv_def)
qed

lemma delegate_inv_close: "delegate_inv d hs r \<Longrightarrow> delegate_inv d hs (r\<lparr>dClosed := True\<rparr>)"
  by (simp add: delegate_inv_def)

subsection \<open>Draining the channel\<close>

lemma delegateHandler_drains:
  "delegate_inv d hs r \<Longrightarrow> delegate_inv d hs (delegateHandler r) \<and> delegateCh (delegateHandler r) = [] \<and>
     dClosed (delegateHandler r) = dClosed r \<and> dMade (delegateHandler r) = dMade r \<and>
     dHandler (delegateHandler r) = (dHandler r \<and> \<not> dClosed r)"
proof (induction r rule: delegateHandler.induct)
  case (1 r)
  show ?case
  proof (cases "delegateCh r")
    case Nil
    then show ?thesis using 1(2) delegate_inv_round[OF 1(2)]
      by (subst (1 2 3 4 5) delegateHandler.simps) (auto simp: delegateHandler_round_def)
  next
    case (Cons w ws)
    note IH = 1(1)[OF Cons delegate_inv_round[OF 1(2)]]
    then show ?thesis using Cons
      by (subst (1 2 3 4 5) delegateHandler.simps) (auto simp: delegateHandler_round_def)
  qed
qed

lemma drained_state:
  assumes "delegate_inv d hs r" "delegateCh r = []"
  shows "apply_calls hs d = (dUser r, dLogged r)" "dSignalled r = [0..<dMade r]"
  using assms by (auto simp: delegate_inv_def)

lemma delegate_made: "delegate_inv d hs r \<Longrightarrow> dMade r = length hs"
  unfolding delegate_inv_def by (metis diff_zero length_map length_upt)

lemma signalled_made: "delegate_inv d hs r \<Longrightarrow> ch \<in> set (dSignalled r) \<Longrightarrow> ch < dMade r"
proof -
  assume inv: "delegate_inv d hs r" and ch: "ch \<in> set (dSignalled r)"
  then have "set (map fst hs) = {0..<dMade r}" unfolding delegate_inv_def by (metis set_upt)
  then show ?thesis using inv ch by (fastforce simp: delegate_inv_def)
qed

lemma invoke_running:
  assumes "HasDelegate conf" "\<not> dClosed r" "dHandler r"
  obtains r' where "invokeDelegate_chan conf f r = Ret (Some (dMade r), r')"
    "dMade r' = Suc (dMade r)" "dHandler r'" "\<not> dClosed r'"
proof -
  let ?q = "if length (delegateCh r) < 32 then r else delegateHandler_round r"
  have "dHandler ?q" using assms by (auto simp: delegateHandler_round_def split: list.splits)
  then show thesis using assms that[of "snd (delegate_send f ?q)"]
    by (simp add: invokeDelegate_chan_def delegate_send_def split: if_splits)
qed

lemma invoke_not_running:
  assumes "HasDelegate conf" "\<not> dClosed r" "\<not> dHandler r"
  shows "invokeDelegate_chan conf f r = Hang \<or> (\<exists>r'. invokeDelegate_chan conf f r = Ret (Some (dMade r), r') \<and>
    \<not> dHandler r' \<and> dSignalled r' = dSignalled r)"
  using assms by (auto simp: invokeDelegate_chan_def delegate_send_def)

lemma stop_running:
  assumes "delegate_inv d hs r" "HasDelegate conf" "\<not> dClosed r" "dHandler r"
  obtains r' where "stopDelegate_chan conf shut r = Ret r'" "delegate_inv d (hs @ [(dMade r, shut)]) r'" "delegateCh r' = []"
    "dMade r' = Suc (dMade r)" "dClosed r'" "\<not> dHandler r'"
proof -
  obtain r1 where r1: "invokeDelegate_chan conf shut r = Ret (Some (dMade r), r1)"
    "dMade r1 = Suc (dMade r)" "dHandler r1" "\<not> dClosed r1"
    using invoke_running[OF assms(2-4)] .
  let ?r2 = "delegateHandler r1"
  let ?r3 = "?r2\<lparr>dClosed := True\<rparr>"
  note d2 = delegateHandler_drains[OF delegate_inv_invoke[OF assms(1) r1(1)]]
  then have "delegate_inv d (hs @ [(dMade r, shut)]) ?r3" by (intro delegate_inv_close) blast
  note d3 = delegateHandler_drains[OF this]
  have "dMade r \<in> set (dSignalled ?r2)" using d2 r1(2) drained_state(2)[of d _ ?r2] by auto
  then have "stopDelegate_chan conf shut r = Ret (delegateHandler ?r3)"
    using assms(2) r1 by (simp add: stopDelegate_chan_def Let_def)
  then show ?thesis using that d3 d2 r1(2) by simp
qed

subsection \<open>Properties\<close>

text \<open>Calls of the delegate are made in the order they were sent, each once: in every reachable state the channel holds at most 32
  calls and the delegate's state, the panics in the log and the completion channels that were signalled are
  those of the calls sent before the ones in the channel.
\<close>

theorem delegate_calls_in_order:
  assumes "delegate_reachable conf d (hs, r)"
  shows "length (delegateCh r) \<le> 32 \<and> (\<exists>ran. hs = ran @ delegateCh r \<and>
    apply_calls ran d = (dUser r, dLogged r) \<and> dSignalled r = [0..<length ran])"
proof -
  have inv: "delegate_inv d hs r" using dg.reachable_inv[OF assms] by simp
  then obtain ran where ran: "hs = ran @ delegateCh r" "apply_calls ran d = (dUser r, dLogged r)"
    "dSignalled r = map fst ran" "map fst hs = [0..<dMade r]" "length (delegateCh r) \<le> 32"
    unfolding delegate_inv_def by blast
  have "map fst ran = take (length ran) (map fst hs)" using ran(1) by simp
  then have "map fst ran = [0..<length ran]" unfolding ran(4) using ran(1) delegate_made[OF inv] by (simp add: take_upt)
  then show ?thesis using ran by auto
qed

text \<open>C31: Stopping the delegate: from every reachable state in which the goroutine runs and the channel is open, \<open>stopDelegate\<close> returns after
  every call sent before it and then \<open>Shutdown\<close> have been made, whichever of them panic; every completion channel has been
  signalled, the channel is closed and the goroutine has ended.
\<close>

theorem delegate_stops_after_last_call:
  assumes "delegate_reachable conf d (hs, r)" "HasDelegate conf" "\<not> dClosed r" "dHandler r"
  shows "\<exists>r'. stopDelegate_chan conf shut r = Ret r' \<and>
    apply_calls (hs @ [(length hs, shut)]) d = (dUser r', dLogged r') \<and>
    dSignalled r' = [0..<Suc (length hs)] \<and> delegateCh r' = [] \<and> dClosed r' \<and> \<not> dHandler r'"
proof -
  have inv: "delegate_inv d hs r" using dg.reachable_inv[OF assms(1)] by simp
  note len = delegate_made[OF inv]
  obtain r' where r': "stopDelegate_chan conf shut r = Ret r'" "delegate_inv d (hs @ [(dMade r, shut)]) r'"
    "delegateCh r' = []" "dMade r' = Suc (dMade r)" "dClosed r'" "\<not> dHandler r'"
    using stop_running[OF inv assms(2-4)] .
  show ?thesis using r' drained_state[OF r'(2,3)] len by simp
qed

definition note_call :: "nat \<Rightarrow> nat list callback" where
  "note_call n = (\<lambda>d. (d @ [n], if n = 7 then Some ''seven'' else None))"

definition delegate_conf :: Config where
  "delegate_conf =
     \<lparr>Hostname = ''a'', NumVnodes = 1, HashFunc = (\<lambda>k. [0]), HashSize = 1, StabilizeMin = 1,
      StabilizeMax = 2, NumSuccessors = 1, HasDelegate = True, hashBits = 8, RingId = ''r''\<rparr>"

lemma demo_delegate_run:
  assumes "HasDelegate conf"
  shows "delegate_reachable conf [] ([(0, note_call 7)],
    \<lparr>dUser = [], delegateCh = [(0, note_call 7)], dClosed = False, dMade = 1, dSignalled = [], dLogged = [], dHandler = True\<rparr>)"
proof -
  have a: "delegate_reachable conf [] ([], delegate_init [])" by (rule reachable.intros) simp
  have "delegate_reachable conf [] ([], start_delegate conf (delegate_init []))"
    using a by (rule reachable.intros) (simp add: delegate_step.schedule delegate_init_def)
  then show ?thesis
    by (rule reachable.intros)
      (use delegate_step.invoke[where hs = "[]" and f = "note_call 7"] assms in
        \<open>fastforce simp: invokeDelegate_chan_def delegate_send_def start_delegate_def delegate_init_def\<close>)
qed

theorem delegate_stops_after_last_call_witness:
  "\<exists>r'. stopDelegate_chan delegate_conf (note_call 1)
      \<lparr>dUser = [], delegateCh = [(0, note_call 7)], dClosed = False, dMade = 1, dSignalled = [], dLogged = [], dHandler = True\<rparr> = Ret r' \<and>
    dUser r' = [7, 1] \<and> dSignalled r' = [0, 1] \<and> dLogged r' = [''Caught a panic invoking a delegate function! Got: seven'']"
  using delegate_stops_after_last_call[OF demo_delegate_run, of delegate_conf "note_call 1"]
  by (auto simp: delegate_conf_def note_call_def panic_log_def numeral_eq_Suc dest!: sym[of _ "dLogged _"])

text \<open>The ring's view of its delegate is right: \<open>stopDelegate\<close> of a ring, which knows only whether the goroutine runs and whether the
  channel is closed, has the outcome of \<open>stopDelegate\<close> on the channel.
\<close>

definition delegate_view :: "Ring \<Rightarrow> 'd delegate_run \<Rightarrow> bool" where
  "delegate_view ring r \<longleftrightarrow> delegateRunning ring = dHandler r \<and> delegateClosed ring = dClosed r"

theorem stopDelegate_refines:
  assumes "delegate_reachable (config ring) d (hs, r)" "delegate_view ring r"
  shows "case stopDelegate_chan (config ring) shut r of
      Ret r' \<Rightarrow> \<exists>ring'. stopDelegate ring = Ret ring' \<and> delegate_view ring' r'
    | Panic m \<Rightarrow> stopDelegate ring = Panic m
    | Hang \<Rightarrow> stopDelegate ring = Hang"
proof -
  have inv: "delegate_inv d hs r" using dg.reachable_inv[OF assms(1)] by simp
  have fresh: "dMade r \<notin> set (dSignalled r)" using signalled_made[OF inv, of "dMade r"] by auto
  consider (none) "\<not> HasDelegate (config ring)" | (closed) "HasDelegate (config ring)" "dClosed r"
    | (running) "HasDelegate (config ring)" "\<not> dClosed r" "dHandler r"
    | (stuck) "HasDelegate (config ring)" "\<not> dClosed r" "\<not> dHandler r" by blast
  then show ?thesis
  proof cases
    case running
    obtain r' where "stopDelegate_chan (config ring) shut r = Ret r'" "dClosed r'" "\<not> dHandler r'"
      using stop_running[OF inv running] by metis
    then show ?thesis using running assms(2) by (simp add: stopDelegate_def delegate_view_def)
  next
    case stuck
    have "stopDelegate_chan (config ring) shut r = Hang"
      using invoke_not_running[OF stuck, of shut] fresh stuck(1) by (auto simp: stopDelegate_chan_def)
    then show ?thesis using stuck assms(2) by (simp add: stopDelegate_def delegate_view_def)
  qed (use assms(2) in \<open>simp_all add: stopDelegate_chan_def invokeDelegate_chan_def stopDelegate_def delegate_view_def\<close>)
qed

end
