(* ===== verification/Route_Theorems.thy ===== *)
theory Route_Theorems
  imports Routing
begin

text \<open>
  The properties of the pieces routing is built from: the interval tests of \<open>util.go\<close>, the iterator of
  \<open>iter_closest.go\<close>, the finger offsets, and the key that is a vnode's own identifier.
\<close>

text \<open>C32: The interval tests compute arcs of the ring: for identifiers of one length, \<open>between\<close> holds exactly for the
  keys that the clockwise walk from the first identifier meets strictly before the second, and
  \<open>betweenRightIncl\<close> for those and the second itself.
\<close>

theorem interval_tests_are_arcs:
  assumes "length a = L" "length b = L" "length k = L"
  shows "(between a b k \<longleftrightarrow>
      0 < distance a k (int (8 * L)) \<and> distance a k (int (8 * L)) < distance a b (int (8 * L))) \<and>
    (betweenRightIncl a b k \<longleftrightarrow>
      0 < distance a k (int (8 * L)) \<and> distance a k (int (8 * L)) \<le> distance a b (int (8 * L)))"
  using between_distance[OF assms] betweenRightIncl_distance[OF assms] by blast

theorem interval_tests_are_arcs_witness:
  "between [200] [10] [5] \<longleftrightarrow> 0 < distance [200] [5] 8 \<and> distance [200] [5] 8 < distance [200] [10] 8"
  using interval_tests_are_arcs[of "[200]" 1 "[10]" "[5]"] by simp

text \<open>C29: The iterator over the closest preceding nodes is complete and never repeats: it ends, and the nodes it yields
  are exactly the entries of the successor list and of the finger table that lie strictly between the
  vnode and the key, each identifier once.
\<close>

theorem iterator_yields_all_candidates:
  "Id ` set (cp_list conf vn (cp_init vn k)) =
     {Id v |v. Some v \<in> set (successors vn) \<union> set (finger vn) \<and> between (Id vn) k (Id v)} \<and>
   distinct (map Id (cp_list conf vn (cp_init vn k)))"
proof (intro conjI set_eqI iffI)
  fix x
  assume "x \<in> Id ` set (cp_list conf vn (cp_init vn k))"
  then obtain v where v: "v \<in> set (cp_list conf vn (cp_init vn k))" "x = Id v" by blast
  have "Some v \<in> set (successors vn) \<union> set (finger vn)" by (rule cp_list_tables[OF cp_init_wf v(1)])
  moreover have "between (Id vn) k (Id v)" using cp_list_between[OF v(1)] by (simp add: cp_init_def)
  ultimately show "x \<in> {Id v |v. Some v \<in> set (successors vn) \<union> set (finger vn) \<and> between (Id vn) k (Id v)}"
    using v(2) by blast
next
  fix x
  assume "x \<in> {Id v |v. Some v \<in> set (successors vn) \<union> set (finger vn) \<and> between (Id vn) k (Id v)}"
  then obtain v where v: "x = Id v" "Some v \<in> set (successors vn) \<union> set (finger vn)" "between (Id vn) k (Id v)" by blast
  have "cp_cand vn (cp_init vn k) v"
    using v(2,3) by (auto simp: cp_cand_def cp_init_def in_set_conv_nth Suc_leI)
  from cp_list_complete[OF this] v(1) show "x \<in> Id ` set (cp_list conf vn (cp_init vn k))" by simp
qed (rule cp_list_distinct)

text \<open>A vnode cannot look up its own identifier: \<open>FindSuccessors\<close> for the identifier of the vnode itself ends with an
  error without asking any other vnode, although the vnode is the owner.
\<close>

theorem own_identifier_not_found:
  assumes "no_holes (successors vn)" "1 \<le> knownSuccessors vn" "1 \<le> n"
  shows "FindSuccessors rpc conf vn n (Id vn) =
    Ret (None, Some (fmt_Errorf ''Exhausted all preceeding nodes!'' []))"
proof -
  have no: "\<not> betweenRightIncl (Id vn) s (Id vn)" "\<not> between (Id vn) (Id vn) s" for s
    by (auto simp: betweenRightIncl_iff between_iff)
  have scan: "cp_scan tab (Id vn) (Id vn) d m = (- 1, None)" for tab d m
    by (induction m) (auto simp: no split: option.splits)
  have loop: "find_loop rpc conf vn n (Id vn) (cp_init vn (Id vn)) = Ret None"
    by (simp add: find_loop.simps cp_Next_def cp_init_def scan)
  have first: "go_index (successors vn) 0 = Ret (successors vn ! 0)" "\<exists>s. successors vn ! 0 = Some s"
    using nth_known[OF assms(1), of 0] assms(2) knownSuccessors_bounds[of vn] by (auto simp: go_index_def)
  have known: "find_known vn n (Id vn) is = Ret None" if "\<And>i. i \<in> set is \<Longrightarrow> 0 \<le> i \<and> i < knownSuccessors vn" for "is"
    using that
  proof (induction "is")
    case (Cons i "is")
    have i: "0 \<le> i" "i < knownSuccessors vn" using Cons.prems[of i] by auto
    then obtain s where "successors vn ! nat i = Some s" using nth_known[OF assms(1), of "nat i"] by auto
    then have "go_index (successors vn) i = Ret (Some s)"
      using i knownSuccessors_bounds[of vn] by (auto simp: go_index_def)
    then show ?case using Cons by (simp add: no deref_def)
  qed simp
  have "find_known vn n (Id vn) [1..knownSuccessors vn - n] = Ret None" by (rule known) (use assms(3) in auto)
  then show ?thesis using first loop by (auto simp: FindSuccessors_def no deref_def)
qed

theorem own_identifier_not_found_witness:
  "FindSuccessors (\<lambda>v n k. Hang) demo_conf (demo_vnodes ! 0) 1 [10] =
    Ret (None, Some (fmt_Errorf ''Exhausted all preceeding nodes!'' []))"
proof -
  have "no_holes (successors (demo_vnodes ! 0))" "1 \<le> knownSuccessors (demo_vnodes ! 0)"
    using demo_succs_ok[of "demo_vnodes ! 0"] by (simp_all add: succs_ok_def demo_defs)
  from own_identifier_not_found[OF this, of 1 "\<lambda>v n k. Hang" demo_conf] show ?thesis by (simp add: demo_defs)
qed

text \<open>Finger offsets lose their leading zero bytes: \<open>powerOffset\<close> returns the bytes of a number, so an offset that is
  small on the ring is shorter than an identifier, and the byte-wise interval tests then misplace it.
  Here the offset is the number 200; the identifier 256 is the first one after it, yet the test
  denies that the offset lies before that identifier.
\<close>

theorem power_offset_drops_zeros:
  "powerOffset [255, 200] 8 16 = [200] \<and>
   distance [255, 200] [0, 200] 16 < distance [255, 200] [1, 0] 16 \<and>
   betweenRightIncl [255, 200] [1, 0] [0, 200] \<and> \<not> betweenRightIncl [255, 200] [1, 0] (powerOffset [255, 200] 8 16)"
  by (simp add: powerOffset_def distance_def betweenRightIncl_iff big_Bytes.simps)

end
