(* ===== verification/Tracker.thy ===== *)
theory Tracker
  imports Ring_Setup
begin

text \<open>
  \<open>tracker_server.go\<close> and \<open>tracker_client.go\<close>: who is in which ring. The tracker in use keeps the members of a
  ring under the ring's identifier in the object store; next to it the code has an older one with a
  queue of timeouts. The operations of \<open>container/heap\<close> and \<open>sort.Search\<close> that the code calls are
  written out; \<open>encoding/json\<close> is a parameter.
\<close>

subsection \<open>The queue of timeouts\<close>

text \<open>The code compares vnodes by pointer; a pointer is its address and what it points to. Times are nanoseconds.\<close>

type_synonym vnode_ptr = "nat \<times> Vnode"

record TimeoutItem =
  ti_ringId :: string
  ti_vnode :: vnode_ptr
  ti_priority :: int
  ti_index :: int

type_synonym TimeoutQueue = "TimeoutItem list"

definition pq_Less :: "TimeoutQueue \<Rightarrow> nat \<Rightarrow> nat \<Rightarrow> bool" where
  "pq_Less pq i j \<longleftrightarrow> ti_priority (pq ! i) > ti_priority (pq ! j)"

definition pq_Swap :: "TimeoutQueue \<Rightarrow> nat \<Rightarrow> nat \<Rightarrow> TimeoutQueue" where
  "pq_Swap pq i j =
     (let pq1 = pq[i := pq ! j, j := pq ! i];
          pq2 = pq1[i := (pq1 ! i)\<lparr>ti_index := int i\<rparr>]
      in pq2[j := (pq2 ! j)\<lparr>ti_index := int j\<rparr>])"

definition pq_Push :: "TimeoutQueue \<Rightarrow> TimeoutItem \<Rightarrow> TimeoutQueue" where
  "pq_Push pq x = pq @ [x\<lparr>ti_index := int (length pq)\<rparr>]"

definition pq_Pop :: "TimeoutQueue \<Rightarrow> (TimeoutItem \<times> TimeoutQueue) go" where
  "pq_Pop pq =
     (if pq = [] then Panic ''index out of range''
      else Ret ((last pq)\<lparr>ti_index := -1\<rparr>, butlast pq))"

definition Peek :: "TimeoutQueue \<Rightarrow> TimeoutItem option" where
  "Peek pq = (if pq = [] then None else Some (last pq))"

text \<open>\<open>heap.Push\<close> and \<open>heap.Remove\<close>.\<close>

function heap_up :: "TimeoutQueue \<Rightarrow> nat \<Rightarrow> TimeoutQueue" where
  "heap_up pq j =
     (let i = (j - 1) div 2
      in if i = j \<or> \<not> pq_Less pq j i then pq else heap_up (pq_Swap pq i j) i)"
  by pat_completeness auto
termination
  by (relation "measure snd") auto

function heap_down :: "TimeoutQueue \<Rightarrow> nat \<Rightarrow> nat \<Rightarrow> TimeoutQueue \<times> nat" where
  "heap_down pq i n =
     (let j1 = 2 * i + 1
      in if j1 \<ge> n then (pq, i)
         else
           (let j = (if j1 + 1 < n \<and> pq_Less pq (j1 + 1) j1 then j1 + 1 else j1)
            in if \<not> pq_Less pq j i then (pq, i) else heap_down (pq_Swap pq i j) j n))"
  by pat_completeness auto
termination
  by (relation "measure (\<lambda>(pq, i, n). n - i)") auto

declare heap_up.simps [simp del] heap_down.simps [simp del]

definition heap_Push :: "TimeoutQueue \<Rightarrow> TimeoutItem \<Rightarrow> TimeoutQueue" where
  "heap_Push pq x = heap_up (pq_Push pq x) (length pq)"

definition heap_Remove :: "TimeoutQueue \<Rightarrow> nat \<Rightarrow> (TimeoutItem \<times> TimeoutQueue) go" where
  "heap_Remove pq i =
     (let n = length pq - 1
      in pq_Pop (if n \<noteq> i then
                   (let (pq1, k) = heap_down (pq_Swap pq i n) i n
                    in if k > i then pq1 else heap_up pq1 i)
                 else pq))"

definition pq_update :: "TimeoutQueue \<Rightarrow> TimeoutItem \<Rightarrow> int \<Rightarrow> TimeoutQueue go" where
  "pq_update pq item priority =
     go_bind (heap_Remove pq (nat (ti_index item))) (\<lambda>(_, pq1).
       Ret (heap_Push pq1 (item\<lparr>ti_priority := priority\<rparr>)))"

text \<open>\<open>sort.Search\<close>: binary search for the first index with the property.\<close>

function search_loop :: "(nat \<Rightarrow> bool) \<Rightarrow> nat \<Rightarrow> nat \<Rightarrow> nat" where
  "search_loop f i j =
     (if i < j then
        (let h = (i + j) div 2 in if \<not> f h then search_loop f (h + 1) j else search_loop f i h)
      else i)"
  by pat_completeness auto
termination
  by (relation "measure (\<lambda>(f, i, j). j - i)") auto

declare search_loop.simps [simp del]

definition sort_Search :: "nat \<Rightarrow> (nat \<Rightarrow> bool) \<Rightarrow> nat" where
  "sort_Search n f = search_loop f 0 n"

subsection \<open>The tracker with timeouts\<close>

text \<open>\<open>trTimer\<close> is the time for which the timer is set; a missing entry of \<open>ringMembers\<close> is the nil slice.\<close>

record TrackerImpl =
  timeoutQueue :: TimeoutQueue
  ringMembers :: "string \<rightharpoonup> vnode_ptr list"
  trTimer :: "int option"

definition NewTracker :: TrackerImpl where
  "NewTracker = \<lparr>timeoutQueue = [], ringMembers = Map.empty, trTimer = None\<rparr>"

definition members_of :: "TrackerImpl \<Rightarrow> string \<Rightarrow> vnode_ptr list" where
  "members_of tr ringId = (case ringMembers tr ringId of None \<Rightarrow> [] | Some ms \<Rightarrow> ms)"

text \<open>
  The loop of \<open>purgeHeadofQueueIfStale\<close>, over the queue from its end. Its condition compares two times
  that the loop does not change. A vnode that is not found has the position after the last, and the
  slice from one further on panics.
\<close>

fun purge_loop :: "int \<Rightarrow> int \<Rightarrow> TimeoutItem list \<Rightarrow> TrackerImpl \<Rightarrow> TrackerImpl go" where
  "purge_loop now nextTimer [] tr =
     (if now > nextTimer then Panic ''index out of range'' else Ret (tr\<lparr>timeoutQueue := []\<rparr>))"
| "purge_loop now nextTimer (item # rest) tr =
     (if now > nextTimer then
        (let members = members_of tr (ti_ringId item);
             posn = sort_Search (length members) (\<lambda>i. fst (members ! i) = fst (ti_vnode item))
         in if posn + 1 > length members then Panic ''slice bounds out of range''
            else
              purge_loop now nextTimer rest
                (tr\<lparr>ringMembers := (ringMembers tr)(ti_ringId item \<mapsto>
                     take posn members @ drop (posn + 1) members)\<rparr>))
      else Ret (tr\<lparr>timeoutQueue := rev (item # rest)\<rparr>))"

definition purgeHeadofQueueIfStale :: "int \<Rightarrow> TrackerImpl \<Rightarrow> TrackerImpl go" where
  "purgeHeadofQueueIfStale now tr =
     (case Peek (timeoutQueue tr) of
        None \<Rightarrow> Ret tr
      | Some head \<Rightarrow> purge_loop now (ti_priority head) (rev (timeoutQueue tr)) tr)"

definition rescheduleTimer :: "TrackerImpl \<Rightarrow> TrackerImpl" where
  "rescheduleTimer tr =
     (case Peek (timeoutQueue tr) of
        None \<Rightarrow> tr\<lparr>trTimer := None\<rparr>
      | Some head \<Rightarrow> tr\<lparr>trTimer := Some (ti_priority head)\<rparr>)"

definition handleTimer :: "int \<Rightarrow> TrackerImpl \<Rightarrow> TrackerImpl go" where
  "handleTimer now tr = go_bind (purgeHeadofQueueIfStale now tr) (\<lambda>tr1. Ret (rescheduleTimer tr1))"

definition handleJoinRingWithTimeout :: "int \<Rightarrow> TrackerImpl \<Rightarrow> string \<Rightarrow> vnode_ptr \<Rightarrow> int
    \<Rightarrow> ((vnode_ptr list \<times> go_error option) \<times> TrackerImpl) go" where
  "handleJoinRingWithTimeout now tr ringId joiner timeout =
     (if Host (snd joiner) = [] then
        Ret (([], Some (fmt_Errorf ''Joining node has not provided network information'' [])), tr)
      else
        (let existingNodes = members_of tr ringId;
             pq = timeoutQueue tr;
             alreadyJoined = sort_Search (length pq)
               (\<lambda>i. ti_ringId (pq ! i) = ringId \<and> fst (ti_vnode (pq ! i)) = fst joiner);
             item = \<lparr>ti_ringId = ringId, ti_vnode = joiner, ti_priority = now + timeout, ti_index = 0\<rparr>
         in go_bind (if alreadyJoined < length pq then
                       go_bind (pq_update pq item (now + timeout)) (\<lambda>pq1. Ret (tr\<lparr>timeoutQueue := pq1\<rparr>))
                     else
                       Ret (tr\<lparr>ringMembers := (ringMembers tr)(ringId \<mapsto> existingNodes @ [joiner]),
                               timeoutQueue := pq_Push pq item\<rparr>)) (\<lambda>tr1.
              Ret ((existingNodes, None), rescheduleTimer tr1))))"

subsection \<open>The tracker on the object store\<close>

text \<open>\<open>json.Marshal\<close> and \<open>json.Unmarshal\<close> at the type \<open>[]*Vnode\<close>.\<close>

record json_codec =
  jMarshal :: "Vnode option list \<Rightarrow> go_error + bytes"
  jUnmarshal :: "bytes \<Rightarrow> Vnode option list \<times> go_error option"

definition handleJoinRing :: "nat \<Rightarrow> json_codec \<Rightarrow> 'w client_env \<Rightarrow> LManagerClient \<Rightarrow> string \<Rightarrow> Vnode option \<Rightarrow> 'w
    \<Rightarrow> ((Vnode option list \<times> go_error option) \<times> LManagerClient \<times> 'w) go" where
  "handleJoinRing fuel js env lm ringId joiner w =
     go_bind (GetForSet fuel env lm ringId True w) (\<lambda>((res, version), lm1, w1).
       let nodesInRing = (case res of Inl err \<Rightarrow> [] | Inr val \<Rightarrow> fst (jUnmarshal js val))
       in case jMarshal js (nodesInRing @ [joiner]) of
            Inl err \<Rightarrow> Ret (([], Some err), lm1, w1)
          | Inr writeBack \<Rightarrow>
              go_bind (SetVersion fuel env lm1 ringId version writeBack w1) (\<lambda>(err, lm2, w2).
                Ret ((nodesInRing, None), lm2, w2)))"

subsection \<open>The client\<close>

definition NUM_TRACKER_REPLICAS :: int where
  "NUM_TRACKER_REPLICAS = 2"

text \<open>
  \<open>TrackerClientImpl.JoinRing\<close>: the lookup of the trackers in the global ring, the call of the first one, then
  a new ring or a blocking join through the first member that lets one in. \<open>join_rpc\<close> is the
  transport's \<open>JoinRing\<close>; \<open>create\<close> and \<open>join\<close> are \<open>Create\<close> and \<open>BlockingJoin\<close> on the new transport.
\<close>

fun try_members :: "(string \<Rightarrow> 'w \<Rightarrow> ((go_error + Ring) \<times> 'w) go) \<Rightarrow> Vnode option list \<Rightarrow> 'w \<Rightarrow> ((go_error + Ring) \<times> 'w) go" where
  "try_members join [] w = Ret (Inl (fmt_Errorf ''Cannot connect to any existing nodes in the ring'' []), w)"
| "try_members join (p # ps) w =
     go_bind (deref p) (\<lambda>v.
     go_bind (join (Host v) w) (\<lambda>(res, w1).
       case res of
         Inr ring \<Rightarrow> Ret (Inr ring, w1)
       | Inl err \<Rightarrow> try_members join ps w1))"

definition TrackerClient_JoinRing :: "(int \<Rightarrow> bytes \<Rightarrow> vnodes_result)
    \<Rightarrow> (Vnode option \<Rightarrow> string \<Rightarrow> Vnode \<Rightarrow> 'w \<Rightarrow> ((Vnode option list \<times> go_error option) \<times> 'w) go)
    \<Rightarrow> (string \<Rightarrow> 'w \<Rightarrow> ((go_error + Ring) \<times> 'w) go) \<Rightarrow> Config \<Rightarrow> string \<Rightarrow> 'w \<Rightarrow> ((go_error + Ring) \<times> 'w) go" where
  "TrackerClient_JoinRing lookup join_rpc join conf ringId w =
     go_bind (lookup NUM_TRACKER_REPLICAS (string_bytes ringId)) (\<lambda>(nodes, err).
       let trackerNodes = (case nodes of None \<Rightarrow> [] | Some ns \<Rightarrow> ns)
       in case err of
            Some e \<Rightarrow> Ret (Inl e, w)
          | None \<Rightarrow>
              if trackerNodes = [] then
                Ret (Inl (fmt_Errorf ''Unable to get any successors while trying to join ring'' []), w)
              else
                go_bind (join_rpc (hd trackerNodes) ringId \<lparr>Id = [], Host = Hostname conf\<rparr> w) (\<lambda>((vs, err2), w1).
                  case err2 of
                    Some e \<Rightarrow> Ret (Inl e, w1)
                  | None \<Rightarrow>
                      if vs = [] then go_bind (Create conf) (\<lambda>ring. Ret (Inr ring, w1))
                      else try_members join vs w1))"

text \<open>\<open>LeaveRing\<close> is a panic once its lookup succeeds.\<close>

definition TrackerClient_LeaveRing :: "(int \<Rightarrow> bytes \<Rightarrow> vnodes_result) \<Rightarrow> string \<Rightarrow> go_error option go" where
  "TrackerClient_LeaveRing lookup ringId =
     go_bind (lookup NUM_TRACKER_REPLICAS (string_bytes ringId)) (\<lambda>(nodes, err).
       case err of
         Some e \<Rightarrow> Ret (Some e)
       | None \<Rightarrow> Panic ''TODO: LeaveRing'')"

end
