(* ===== verification/Vnode_RPC.thy ===== *)
theory Vnode_RPC
  imports Tracker
begin

text \<open>
  The calls a vnode answers: the interface \<open>VnodeRPC\<close> of \<open>chord.go\<close> as \<open>localVnode\<close> implements it in
  \<open>vnode.go\<close>. A call acts on the vnode with its lock manager, lock client and store; what it sends to
  other vnodes in the background, or to the delegate, is a list of outputs. The environment holds what
  the vnode reaches through its ring.
\<close>

record 'w rpc_env =
  reConf :: Config
  reFind :: find_rpc
  reView :: ring_view
  reLM :: "'w lm_env"
  reStore :: store_ring
  reFuel :: nat
  reJson :: json_codec
  reClient :: "'w client_env"

datatype node_out =
    OutKV kv_msg
  | OutDelegate delegate_event
  | OutVersionMap "(string \<rightharpoonup> uint) option"

type_synonym ('r, 'w) node_call =
  "ring_vnode \<Rightarrow> 'w \<Rightarrow> (('r \<times> go_error option) \<times> ring_vnode \<times> node_out list \<times> 'w) go"

type_synonym vnode_slice = "Vnode option list option"

definition kv_of :: "'w rpc_env \<Rightarrow> ring_vnode \<Rightarrow> kv_env" where
  "kv_of env e = store_env (reStore env) (reConf env) (rvNode e)"

subsection \<open>Ring operations\<close>

definition vn_GetPredecessor :: "(Vnode option, 'w) node_call" where
  "vn_GetPredecessor e w = Ret ((GetPredecessor (rvNode e), None), e, [], w)"

definition vn_GetPredecessorList :: "'w rpc_env \<Rightarrow> (vnode_slice, 'w) node_call" where
  "vn_GetPredecessorList env e w =
     go_bind (GetPredecessorList (reConf env) (rvNode e)) (\<lambda>ps. Ret ((Some ps, None), e, [], w))"

definition vn_Notify :: "'w rpc_env \<Rightarrow> Vnode \<Rightarrow> (vnode_slice, 'w) node_call" where
  "vn_Notify env self e w =
     go_bind (Notify (reView env) (reConf env) (rvNode e) (rvLM e) self) (\<lambda>(ss, vn', lm', sent, ev).
       Ret ((Some ss, None), e\<lparr>rvNode := vn', rvLM := lm'\<rparr>,
            map OutDelegate ev @ (if sent then [OutVersionMap (VersionMap lm')] else []), w))"

definition vn_FindSuccessors :: "'w rpc_env \<Rightarrow> int \<Rightarrow> bytes \<Rightarrow> (vnode_slice, 'w) node_call" where
  "vn_FindSuccessors env n k e w =
     go_bind (FindSuccessors (reFind env) (reConf env) (rvNode e) n k) (\<lambda>res. Ret (res, e, [], w))"

definition vn_ClearPredecessor :: "'w rpc_env \<Rightarrow> Vnode \<Rightarrow> (unit, 'w) node_call" where
  "vn_ClearPredecessor env p e w =
     go_bind (ClearPredecessor (reConf env) (rvNode e) p) (\<lambda>(vn', ev).
       Ret (((), None), e\<lparr>rvNode := vn'\<rparr>, map OutDelegate ev, w))"

definition vn_SkipSuccessor :: "'w rpc_env \<Rightarrow> Vnode \<Rightarrow> (unit, 'w) node_call" where
  "vn_SkipSuccessor env s e w =
     go_bind (SkipSuccessor (reConf env) (rvNode e) s) (\<lambda>(vn', ev).
       Ret (((), None), e\<lparr>rvNode := vn'\<rparr>, map OutDelegate ev, w))"

subsection \<open>Locks\<close>

definition vn_RLock :: "'w rpc_env \<Rightarrow> string \<Rightarrow> string \<Rightarrow> string \<Rightarrow> OpsLogEntry option
    \<Rightarrow> (string \<times> uint \<times> uint64, 'w) node_call" where
  "vn_RLock env k nodeID remoteAddr opsLogEntry e w =
     go_bind (createRLock (reLM env) (rvLM e) k nodeID remoteAddr opsLogEntry w) (\<lambda>((lockID, ver, cp, err), lm', w').
       Ret (((lockID, ver, cp), err), e\<lparr>rvLM := lm'\<rparr>, [], w'))"

definition vn_WLock :: "'w rpc_env \<Rightarrow> string \<Rightarrow> uint \<Rightarrow> uint \<Rightarrow> string \<Rightarrow> OpsLogEntry option
    \<Rightarrow> (string \<times> uint \<times> uint \<times> uint64, 'w) node_call" where
  "vn_WLock env k version timeout nodeID opsLogEntry e w =
     go_bind (createWLock (reLM env) (rvLM e) k version timeout nodeID opsLogEntry w) (\<lambda>((lockID, ver, t, cp, err), lm', w').
       Ret (((lockID, ver, t, cp), err), e\<lparr>rvLM := lm'\<rparr>, [], w'))"

definition vn_CommitWLock :: "'w rpc_env \<Rightarrow> string \<Rightarrow> uint \<Rightarrow> string \<Rightarrow> OpsLogEntry option \<Rightarrow> (uint64, 'w) node_call" where
  "vn_CommitWLock env k version nodeID opsLogEntry e w =
     go_bind (commitWLock (reLM env) (rvLM e) k version nodeID opsLogEntry w) (\<lambda>(res, lm', w').
       Ret (res, e\<lparr>rvLM := lm'\<rparr>, [], w'))"

definition vn_AbortWLock :: "'w rpc_env \<Rightarrow> string \<Rightarrow> uint \<Rightarrow> string \<Rightarrow> OpsLogEntry option \<Rightarrow> (uint64, 'w) node_call" where
  "vn_AbortWLock env k version nodeID opsLogEntry e w =
     go_bind (abortWLock (reLM env) (rvLM e) k version nodeID opsLogEntry w) (\<lambda>(res, lm', w').
       Ret (res, e\<lparr>rvLM := lm'\<rparr>, [], w'))"

definition vn_CheckWLock :: "string \<Rightarrow> ring_vnode \<Rightarrow> bool \<times> uint \<times> go_error option" where
  "vn_CheckWLock k e = checkWLock (rvLM e) k"

definition vn_GetId :: "ring_vnode \<Rightarrow> string \<times> go_error option" where
  "vn_GetId e = (String (GetVnode (rvNode e)), None)"

text \<open>Every vnode of a ring has a lock client since \<open>init\<close>.\<close>

definition vn_InvalidateRLock :: "string \<Rightarrow> (unit, 'w) node_call" where
  "vn_InvalidateRLock lockID e w =
     (case LMC_InvalidateRLock (rvClient e) lockID of
        (err, lmc) \<Rightarrow> Ret (((), err), e\<lparr>rvClient := lmc\<rparr>, [], w))"

definition vn_UpdateVersionMap :: "(string \<times> uint) list \<Rightarrow> (unit, 'w) node_call" where
  "vn_UpdateVersionMap versionMap e w =
     go_bind (UpdateVersionMap versionMap (rvLM e)) (\<lambda>lm'. Ret (((), None), e\<lparr>rvLM := lm'\<rparr>, [], w))"

subsection \<open>Objects\<close>

definition vn_Get :: "string \<Rightarrow> uint \<Rightarrow> (bytes, 'w) node_call" where
  "vn_Get k version e w =
     Ret (case KVStore_get (rvStore e) k version of Inl err \<Rightarrow> ([], Some err) | Inr val \<Rightarrow> (val, None), e, [], w)"

definition vn_Set :: "'w rpc_env \<Rightarrow> string \<Rightarrow> uint \<Rightarrow> bytes \<Rightarrow> (unit, 'w) node_call" where
  "vn_Set env k version value e w =
     (case KVStore_set (kv_of env e) (rvStore e) k version value of
        (err, kvs', ms) \<Rightarrow> Ret (((), err), e\<lparr>rvStore := kvs'\<rparr>, map OutKV ms, w))"

definition vn_List :: "(string list, 'w) node_call" where
  "vn_List e w = Ret ((KVStore_list (rvStore e), None), e, [], w)"

definition vn_BulkSet :: "string \<Rightarrow> KVStoreValue list \<Rightarrow> (unit, 'w) node_call" where
  "vn_BulkSet k valLst e w =
     (case bulkSet (rvStore e) k valLst of (err, kvs') \<Rightarrow> Ret (((), err), e\<lparr>rvStore := kvs'\<rparr>, [], w))"

text \<open>These two answer at once; the work is a goroutine of its own.\<close>

definition vn_SyncKeys :: "'w rpc_env \<Rightarrow> Vnode option \<Rightarrow> string \<Rightarrow> uint list \<Rightarrow> (unit, 'w) node_call" where
  "vn_SyncKeys env ownerVn k ver e w =
     Ret (((), None), e, map OutKV (handleSyncKeys (kv_of env e) (rvStore e) ownerVn k ver), w)"

definition vn_MissingKeys :: "'w rpc_env \<Rightarrow> Vnode option \<Rightarrow> string \<Rightarrow> uint list \<Rightarrow> (unit, 'w) node_call" where
  "vn_MissingKeys env replVn k ver e w =
     Ret (((), None), e, map OutKV (handleMissingKeys (kv_of env e) (rvStore e) replVn k ver), w)"

definition vn_PurgeVersions :: "string \<Rightarrow> uint \<Rightarrow> (unit, 'w) node_call" where
  "vn_PurgeVersions k maxVersion e w =
     (case purgeVersions (rvStore e) k maxVersion of (err, kvs') \<Rightarrow> Ret (((), err), e\<lparr>rvStore := kvs'\<rparr>, [], w))"

subsection \<open>Tracker\<close>

definition vn_JoinRing :: "'w rpc_env \<Rightarrow> string \<Rightarrow> Vnode option \<Rightarrow> (Vnode option list, 'w) node_call" where
  "vn_JoinRing env ringId self e w =
     go_bind (handleJoinRing (reFuel env) (reJson env) (reClient env) (rvClient e) ringId self w) (\<lambda>(res, lmc, w').
       Ret (res, e\<lparr>rvClient := lmc\<rparr>, [], w'))"

definition vn_LeaveRing :: "string \<Rightarrow> (unit, 'w) node_call" where
  "vn_LeaveRing ringId e w = Panic ''TODO: localVnode.LeaveRing''"

end
