(* ===== verification/Transport_Server.thy ===== *)
theory Transport_Server
  imports Vnode_RPC "HOL-Library.AList"
begin

text \<open>
  The server side of the TCP transport (\<open>net.go\<close>): a process with its vnode objects, the registry of
  the transport, the requests and responses, one handler per request type of \<open>handleConn\<close>, and the loop
  over the requests of a connection. Requests and responses cross the network as JSON, which gives
  back the values that were sent (texts being valid UTF-8); the error of a response is the one that
  \<open>SetError\<close> and \<open>Error\<close> make of it.
\<close>

subsection \<open>A process and its registered vnodes\<close>

text \<open>
  Both transports of a process register references to the same vnode objects, so the objects stand
  in a store of their own. A call on an object updates it in place.
\<close>

record 'w process =
  prVnodes :: "ring_vnode list"
  prSent :: "node_out list"
  prWorld :: 'w

record localRPC =
  lrVnode :: Vnode
  lrObj :: nat

text \<open>The maps \<open>local\<close> of the transports. The order of the list is the order in which a loop meets the entries.\<close>

type_synonym registry = "(string \<times> localRPC) list"
type_synonym ('r, 's) state_call = "'s \<Rightarrow> (('r \<times> go_error option) \<times> 's) go"

definition invoke :: "nat \<Rightarrow> ('r, 'w) node_call \<Rightarrow> ('r, 'w process) state_call" where
  "invoke obj call p =
     go_bind (go_index (prVnodes p) (int obj)) (\<lambda>e.
     go_bind (call e (prWorld p)) (\<lambda>(res, e', out, w').
       Ret (res, p\<lparr>prVnodes := (prVnodes p)[obj := e'], prSent := prSent p @ out, prWorld := w'\<rparr>)))"

definition TCP_get :: "registry \<Rightarrow> Vnode \<Rightarrow> nat option" where
  "TCP_get reg vn = map_option lrObj (map_of reg (String vn))"

definition TCP_Register :: "registry \<Rightarrow> Vnode \<Rightarrow> nat \<Rightarrow> registry" where
  "TCP_Register reg v obj = AList.update (String v) \<lparr>lrVnode = v, lrObj = obj\<rparr> reg"

subsection \<open>Messages\<close>

datatype tcp_request =
    tcpPing Vnode
  | tcpListReq string
  | tcpGetPredReq Vnode
  | tcpGetPredListReq Vnode
  | tcpNotifyReq Vnode Vnode
  | tcpFindSucReq Vnode int bytes
  | tcpClearPredReq Vnode Vnode
  | tcpSkipSucReq Vnode Vnode
  | tcpGet Vnode string uint
  | tcpSet Vnode string uint bytes
  | tcpList Vnode
  | tcpBulkSet Vnode string "KVStoreValue list"
  | tcpSyncKeys Vnode "Vnode option" string "uint list"
  | tcpMissingKeys Vnode "Vnode option" string "uint list"
  | tcpPurgeVersions Vnode string uint
  | tcpRLockReq Vnode string string string "OpsLogEntry option"
  | tcpWLockReq Vnode string uint uint string "OpsLogEntry option"
  | tcpCommitWLockReq Vnode string uint string "OpsLogEntry option"
  | tcpAbortWLockReq Vnode string uint string "OpsLogEntry option"
  | tcpInvalidateRLockReq Vnode string
  | tcpVersionMapUpdate Vnode "(string \<times> uint) list option"
  | tcpJoinRingReq Vnode string "Vnode option"

text \<open>The last argument is what \<open>Error()\<close> of the decoded response returns.\<close>

datatype tcp_response =
    tcpBodyBoolError bool "go_error option"
  | tcpBodyVnodeListError vnode_slice "go_error option"
  | tcpBodyVnodeError "Vnode option" "go_error option"
  | tcpBodyError "go_error option"
  | tcpBodyRespValue bytes "go_error option"
  | tcpBodyRespKeys "string list" "go_error option"
  | tcpBodyJoinRingResp "Vnode option list" "go_error option"
  | tcpBodyLMRLockResp string uint uint64 "go_error option"
  | tcpBodyLMWLockResp string uint uint uint64 "go_error option"
  | tcpBodyLMCommitWLockResp uint64 "go_error option"
  | tcpBodyLMAbortWLockResp uint64 "go_error option"
  | tcpBodyLMInvalidateRLockResp "go_error option"
  | tcpVersionMapUpdateResp "go_error option"

fun resp_Error :: "tcp_response \<Rightarrow> go_error option" where
  "resp_Error (tcpBodyBoolError b err) = err"
| "resp_Error (tcpBodyVnodeListError vs err) = err"
| "resp_Error (tcpBodyVnodeError v err) = err"
| "resp_Error (tcpBodyError err) = err"
| "resp_Error (tcpBodyRespValue val err) = err"
| "resp_Error (tcpBodyRespKeys ks err) = err"
| "resp_Error (tcpBodyJoinRingResp vs err) = err"
| "resp_Error (tcpBodyLMRLockResp l v cp err) = err"
| "resp_Error (tcpBodyLMWLockResp l v t cp err) = err"
| "resp_Error (tcpBodyLMCommitWLockResp cp err) = err"
| "resp_Error (tcpBodyLMAbortWLockResp cp err) = err"
| "resp_Error (tcpBodyLMInvalidateRLockResp err) = err"
| "resp_Error (tcpVersionMapUpdateResp err) = err"

subsection \<open>The handlers\<close>

text \<open>
  What all handlers but three do: find the object, call it, put its result and error into a response;
  an unknown target gives a response with the zero result and an error. \<open>post\<close> is what the handler does
  with the result before.
\<close>

definition serve :: "registry \<Rightarrow> Vnode \<Rightarrow> ('r, 'w) node_call \<Rightarrow> ('r \<Rightarrow> 'r go) \<Rightarrow> 'r
    \<Rightarrow> ('r \<Rightarrow> go_error option \<Rightarrow> tcp_response) \<Rightarrow> 'w process \<Rightarrow> (tcp_response \<times> 'w process) go" where
  "serve reg target call post zero resp p =
     (case TCP_get reg target of
        Some obj \<Rightarrow>
          go_bind (invoke obj call p) (\<lambda>((r, err), p').
          go_bind (post r) (\<lambda>r'. Ret (resp r' (wire_error err), p')))
      | None \<Rightarrow> Ret (resp zero (wire_error (Some (target_not_found target))), p))"

definition handle_Ping :: "registry \<Rightarrow> Vnode \<Rightarrow> 'w process \<Rightarrow> (tcp_response \<times> 'w process) go" where
  "handle_Ping reg vn p =
     (let ok = (TCP_get reg vn \<noteq> None)
      in Ret (tcpBodyBoolError ok (if ok then None else wire_error (Some (target_not_found vn))), p))"

definition handle_List :: "registry \<Rightarrow> 'w process \<Rightarrow> (tcp_response \<times> 'w process) go" where
  "handle_List reg p =
     go_bind (trimSlice (Some (map (\<lambda>(k, v). Some (lrVnode v)) reg))) (\<lambda>res. Ret (tcpBodyVnodeListError res None, p))"

definition handle_GetPred :: "registry \<Rightarrow> Vnode \<Rightarrow> 'w process \<Rightarrow> (tcp_response \<times> 'w process) go" where
  "handle_GetPred reg vn = serve reg vn vn_GetPredecessor Ret None tcpBodyVnodeError"

definition handle_Notify :: "'w rpc_env \<Rightarrow> registry \<Rightarrow> Vnode \<Rightarrow> Vnode \<Rightarrow> 'w process \<Rightarrow> (tcp_response \<times> 'w process) go" where
  "handle_Notify env reg target vn = serve reg target (vn_Notify env vn) trimSlice None tcpBodyVnodeListError"

definition handle_FindSuc :: "'w rpc_env \<Rightarrow> registry \<Rightarrow> Vnode \<Rightarrow> int \<Rightarrow> bytes \<Rightarrow> 'w process \<Rightarrow> (tcp_response \<times> 'w process) go" where
  "handle_FindSuc env reg target n k = serve reg target (vn_FindSuccessors env n k) trimSlice None tcpBodyVnodeListError"

definition handle_ClearPred :: "'w rpc_env \<Rightarrow> registry \<Rightarrow> Vnode \<Rightarrow> Vnode \<Rightarrow> 'w process \<Rightarrow> (tcp_response \<times> 'w process) go" where
  "handle_ClearPred env reg target vn = serve reg target (vn_ClearPredecessor env vn) Ret () (\<lambda>_. tcpBodyError)"

definition handle_SkipSuc :: "'w rpc_env \<Rightarrow> registry \<Rightarrow> Vnode \<Rightarrow> Vnode \<Rightarrow> 'w process \<Rightarrow> (tcp_response \<times> 'w process) go" where
  "handle_SkipSuc env reg target vn = serve reg target (vn_SkipSuccessor env vn) Ret () (\<lambda>_. tcpBodyError)"

definition handle_GetPredList :: "'w rpc_env \<Rightarrow> registry \<Rightarrow> Vnode \<Rightarrow> 'w process \<Rightarrow> (tcp_response \<times> 'w process) go" where
  "handle_GetPredList env reg vn = serve reg vn (vn_GetPredecessorList env) Ret None tcpBodyVnodeListError"

definition handle_Get :: "registry \<Rightarrow> Vnode \<Rightarrow> string \<Rightarrow> uint \<Rightarrow> 'w process \<Rightarrow> (tcp_response \<times> 'w process) go" where
  "handle_Get reg vn k version = serve reg vn (vn_Get k version) Ret [] tcpBodyRespValue"

definition handle_Set :: "'w rpc_env \<Rightarrow> registry \<Rightarrow> Vnode \<Rightarrow> string \<Rightarrow> uint \<Rightarrow> bytes \<Rightarrow> 'w process \<Rightarrow> (tcp_response \<times> 'w process) go" where
  "handle_Set env reg vn k version value = serve reg vn (vn_Set env k version value) Ret () (\<lambda>_. tcpBodyError)"

definition handle_ListKeys :: "registry \<Rightarrow> Vnode \<Rightarrow> 'w process \<Rightarrow> (tcp_response \<times> 'w process) go" where
  "handle_ListKeys reg vn = serve reg vn vn_List Ret [] tcpBodyRespKeys"

definition handle_BulkSet :: "registry \<Rightarrow> Vnode \<Rightarrow> string \<Rightarrow> KVStoreValue list \<Rightarrow> 'w process \<Rightarrow> (tcp_response \<times> 'w process) go" where
  "handle_BulkSet reg vn k valLst = serve reg vn (vn_BulkSet k valLst) Ret () (\<lambda>_. tcpBodyError)"

definition handle_SyncKeys :: "'w rpc_env \<Rightarrow> registry \<Rightarrow> Vnode \<Rightarrow> Vnode option \<Rightarrow> string \<Rightarrow> uint list
    \<Rightarrow> 'w process \<Rightarrow> (tcp_response \<times> 'w process) go" where
  "handle_SyncKeys env reg vn ownerVn k ver = serve reg vn (vn_SyncKeys env ownerVn k ver) Ret () (\<lambda>_. tcpBodyError)"

definition handle_MissingKeys :: "'w rpc_env \<Rightarrow> registry \<Rightarrow> Vnode \<Rightarrow> Vnode option \<Rightarrow> string \<Rightarrow> uint list
    \<Rightarrow> 'w process \<Rightarrow> (tcp_response \<times> 'w process) go" where
  "handle_MissingKeys env reg vn replVn k ver = serve reg vn (vn_MissingKeys env replVn k ver) Ret () (\<lambda>_. tcpBodyError)"

definition handle_PurgeVersions :: "registry \<Rightarrow> Vnode \<Rightarrow> string \<Rightarrow> uint \<Rightarrow> 'w process \<Rightarrow> (tcp_response \<times> 'w process) go" where
  "handle_PurgeVersions reg vn k maxVersion = serve reg vn (vn_PurgeVersions k maxVersion) Ret () (\<lambda>_. tcpBodyError)"

definition handle_JoinRing :: "'w rpc_env \<Rightarrow> registry \<Rightarrow> Vnode \<Rightarrow> string \<Rightarrow> Vnode option
    \<Rightarrow> 'w process \<Rightarrow> (tcp_response \<times> 'w process) go" where
  "handle_JoinRing env reg target ringId joiner = serve reg target (vn_JoinRing env ringId joiner) Ret [] tcpBodyJoinRingResp"

definition handle_RLock :: "'w rpc_env \<Rightarrow> registry \<Rightarrow> Vnode \<Rightarrow> string \<Rightarrow> string \<Rightarrow> string \<Rightarrow> OpsLogEntry option
    \<Rightarrow> 'w process \<Rightarrow> (tcp_response \<times> 'w process) go" where
  "handle_RLock env reg vn k senderID senderAddr opsLogEntry =
     serve reg vn (vn_RLock env k senderID senderAddr opsLogEntry) Ret ([], 0, 0) (\<lambda>(l, v, cp). tcpBodyLMRLockResp l v cp)"

definition handle_WLock :: "'w rpc_env \<Rightarrow> registry \<Rightarrow> Vnode \<Rightarrow> string \<Rightarrow> uint \<Rightarrow> uint \<Rightarrow> string \<Rightarrow> OpsLogEntry option
    \<Rightarrow> 'w process \<Rightarrow> (tcp_response \<times> 'w process) go" where
  "handle_WLock env reg vn k version timeout senderID opsLogEntry =
     serve reg vn (vn_WLock env k version timeout senderID opsLogEntry) Ret ([], 0, 0, 0)
       (\<lambda>(l, v, t, cp). tcpBodyLMWLockResp l v t cp)"

definition handle_CommitWLock :: "'w rpc_env \<Rightarrow> registry \<Rightarrow> Vnode \<Rightarrow> string \<Rightarrow> uint \<Rightarrow> string \<Rightarrow> OpsLogEntry option
    \<Rightarrow> 'w process \<Rightarrow> (tcp_response \<times> 'w process) go" where
  "handle_CommitWLock env reg vn k version senderID opsLogEntry =
     serve reg vn (vn_CommitWLock env k version senderID opsLogEntry) Ret 0 tcpBodyLMCommitWLockResp"

definition handle_AbortWLock :: "'w rpc_env \<Rightarrow> registry \<Rightarrow> Vnode \<Rightarrow> string \<Rightarrow> uint \<Rightarrow> string \<Rightarrow> OpsLogEntry option
    \<Rightarrow> 'w process \<Rightarrow> (tcp_response \<times> 'w process) go" where
  "handle_AbortWLock env reg vn k version senderID opsLogEntry =
     serve reg vn (vn_AbortWLock env k version senderID opsLogEntry) Ret 0 tcpBodyLMAbortWLockResp"

text \<open>The error of the client's cache is dropped.\<close>

definition handle_InvalidateRLock :: "registry \<Rightarrow> Vnode \<Rightarrow> string \<Rightarrow> 'w process \<Rightarrow> (tcp_response \<times> 'w process) go" where
  "handle_InvalidateRLock reg vn lockID p =
     (case TCP_get reg vn of
        Some obj \<Rightarrow>
          go_bind (invoke obj (vn_InvalidateRLock lockID) p) (\<lambda>(_, p'). Ret (tcpBodyLMInvalidateRLockResp None, p'))
      | None \<Rightarrow> Ret (tcpBodyLMInvalidateRLockResp (wire_error (Some (target_not_found vn))), p))"

text \<open>A nil map of the sender arrives as a nil pointer, which \<open>UpdateVersionMap\<close> follows under its lock.\<close>

definition handle_VersionMapUpdate :: "registry \<Rightarrow> Vnode \<Rightarrow> (string \<times> uint) list option
    \<Rightarrow> 'w process \<Rightarrow> (tcp_response \<times> 'w process) go" where
  "handle_VersionMapUpdate reg vn versionMap =
     serve reg vn
       (\<lambda>e w. case versionMap of
          None \<Rightarrow> if verMapHeld (rvLM e) then Hang else Panic ''nil pointer dereference''
        | Some m \<Rightarrow> vn_UpdateVersionMap m e w)
       Ret () (\<lambda>_. tcpVersionMapUpdateResp)"

subsection \<open>A connection\<close>

fun handle_request :: "'w rpc_env \<Rightarrow> registry \<Rightarrow> tcp_request \<Rightarrow> 'w process \<Rightarrow> (tcp_response \<times> 'w process) go" where
  "handle_request env reg (tcpPing vn) = handle_Ping reg vn"
| "handle_request env reg (tcpListReq host) = handle_List reg"
| "handle_request env reg (tcpGetPredReq vn) = handle_GetPred reg vn"
| "handle_request env reg (tcpGetPredListReq vn) = handle_GetPredList env reg vn"
| "handle_request env reg (tcpNotifyReq target vn) = handle_Notify env reg target vn"
| "handle_request env reg (tcpFindSucReq target n k) = handle_FindSuc env reg target n k"
| "handle_request env reg (tcpClearPredReq target vn) = handle_ClearPred env reg target vn"
| "handle_request env reg (tcpSkipSucReq target vn) = handle_SkipSuc env reg target vn"
| "handle_request env reg (tcpGet vn k version) = handle_Get reg vn k version"
| "handle_request env reg (tcpSet vn k version value) = handle_Set env reg vn k version value"
| "handle_request env reg (tcpList vn) = handle_ListKeys reg vn"
| "handle_request env reg (tcpBulkSet vn k valLst) = handle_BulkSet reg vn k valLst"
| "handle_request env reg (tcpSyncKeys vn ownerVn k ver) = handle_SyncKeys env reg vn ownerVn k ver"
| "handle_request env reg (tcpMissingKeys vn replVn k ver) = handle_MissingKeys env reg vn replVn k ver"
| "handle_request env reg (tcpPurgeVersions vn k maxVersion) = handle_PurgeVersions reg vn k maxVersion"
| "handle_request env reg (tcpRLockReq vn k senderID senderAddr e) = handle_RLock env reg vn k senderID senderAddr e"
| "handle_request env reg (tcpWLockReq vn k version timeout senderID e) = handle_WLock env reg vn k version timeout senderID e"
| "handle_request env reg (tcpCommitWLockReq vn k version senderID e) = handle_CommitWLock env reg vn k version senderID e"
| "handle_request env reg (tcpAbortWLockReq vn k version senderID e) = handle_AbortWLock env reg vn k version senderID e"
| "handle_request env reg (tcpInvalidateRLockReq vn lockID) = handle_InvalidateRLock reg vn lockID"
| "handle_request env reg (tcpVersionMapUpdate vn versionMap) = handle_VersionMapUpdate reg vn versionMap"
| "handle_request env reg (tcpJoinRingReq target ringId joiner) = handle_JoinRing env reg target ringId joiner"

text \<open>
  \<open>handleConn\<close>: the frames that arrive, \<open>None\<close> for one whose header or body cannot be decoded or whose type is
  unknown, each with whether its response can be sent. The connection ends with the first that
  cannot, or when the peer closes it; the responses sent are returned in order.
\<close>

fun conn_loop :: "'w rpc_env \<Rightarrow> registry \<Rightarrow> (tcp_request option \<times> bool) list \<Rightarrow> 'w process
    \<Rightarrow> (tcp_response list \<times> 'w process) go" where
  "conn_loop env reg [] p = Ret ([], p)"
| "conn_loop env reg ((None, _) # fs) p = Ret ([], p)"
| "conn_loop env reg ((Some req, sendable) # fs) p =
     go_bind (handle_request env reg req p) (\<lambda>(resp, p').
       if \<not> sendable then Ret ([], p')
       else go_bind (conn_loop env reg fs p') (\<lambda>(rs, p''). Ret (resp # rs, p'')))"

end
