(* ===== verification/Transport.thy ===== *)
theory Transport
  imports Transport_Server
begin

text \<open>
  The client side of the TCP transport (\<open>net.go\<close>) with its pool of outbound connections. What the network does in a call (whether a dial succeeds,
  whether sending or receiving fails or takes too long, what time it is) is an argument of the call.
\<close>

subsection \<open>The pool of connections\<close>

record tcpOutConn =
  oc_host :: string
  oc_sock :: nat
  oc_used :: int

text \<open>
  Slices of the pool hold pointers; the pool is a nil map after \<open>Shutdown\<close>. \<open>tClosed\<close> collects the sockets that
  were closed.
\<close>

record TCPTransport =
  tAddr :: string
  tListening :: bool
  tMaxIdle :: int
  tLocal :: registry
  tInbound :: "nat list"
  tPool :: "(string \<times> tcpOutConn option list) list option"
  tShutdown :: bool
  tClosed :: "nat list"

text \<open>\<open>InitTCPTransport\<close>, once the listener is open; times are in seconds.\<close>

definition InitTCPTransport :: "(go_error + string) \<Rightarrow> go_error + TCPTransport" where
  "InitTCPTransport sock =
     (case sock of
        Inl err \<Rightarrow> Inl err
      | Inr addr \<Rightarrow>
          Inr \<lparr>tAddr = addr, tListening = True, tMaxIdle = 100, tLocal = [], tInbound = [], tPool = Some [],
               tShutdown = False, tClosed = []\<rparr>)"

definition pool_list :: "TCPTransport \<Rightarrow> string \<Rightarrow> tcpOutConn option list" where
  "pool_list t host =
     (case tPool t of None \<Rightarrow> [] | Some m \<Rightarrow> (case map_of m host of None \<Rightarrow> [] | Some l \<Rightarrow> l))"

definition set_pool :: "TCPTransport \<Rightarrow> string \<Rightarrow> tcpOutConn option list \<Rightarrow> TCPTransport go" where
  "set_pool t host l =
     (case tPool t of
        None \<Rightarrow> Panic ''assignment to entry in nil map''
      | Some m \<Rightarrow> Ret (t\<lparr>tPool := Some (AList.update host l m)\<rparr>))"

text \<open>\<open>dial\<close> is what \<open>net.DialTimeout\<close> gives: an error or a new socket.\<close>

definition getConn :: "(go_error + nat) \<Rightarrow> int \<Rightarrow> string \<Rightarrow> TCPTransport \<Rightarrow> ((go_error + tcpOutConn) \<times> TCPTransport) go" where
  "getConn dial now host t =
     (if tShutdown t then Ret (Inl (fmt_Errorf ''TCP transport is shutdown'' []), t)
      else
        (let l = pool_list t host
         in go_bind (if l = [] then Ret (None, t) else go_bind (set_pool t host (butlast l)) (\<lambda>t'. Ret (last l, t')))
              (\<lambda>(out, t1). case out of
                 Some c \<Rightarrow> Ret (Inr (c\<lparr>oc_used := now\<rparr>), t1)
               | None \<Rightarrow>
                   (case dial of
                      Inl err \<Rightarrow> Ret (Inl err, t1)
                    | Inr sock \<Rightarrow> Ret (Inr \<lparr>oc_host = host, oc_sock = sock, oc_used = now\<rparr>, t1)))))"

definition returnConn :: "int \<Rightarrow> tcpOutConn \<Rightarrow> TCPTransport \<Rightarrow> TCPTransport go" where
  "returnConn now c t =
     (if tShutdown t then Ret (t\<lparr>tClosed := oc_sock c # tClosed t\<rparr>)
      else set_pool t (oc_host c) (pool_list t (oc_host c) @ [Some (c\<lparr>oc_used := now\<rparr>)]))"

text \<open>
  The loop of \<open>reapOnce\<close> over one slice: an idle connection is closed and the last one of the part
  that remains is put in its place; \<open>i\<close> is the index, \<open>m\<close> the length of that part.
\<close>

function reap_loop :: "int \<Rightarrow> int \<Rightarrow> tcpOutConn option list \<Rightarrow> nat \<Rightarrow> nat \<Rightarrow> nat list \<Rightarrow> (tcpOutConn option list \<times> nat list) go" where
  "reap_loop now maxIdle conns i m closed =
     (if i < m then
        (case conns ! i of
           None \<Rightarrow> Panic ''nil pointer dereference''
         | Some c \<Rightarrow>
             if now - oc_used c > maxIdle then
               reap_loop now maxIdle (conns[i := conns ! (m - 1), m - 1 := None]) i (m - 1) (oc_sock c # closed)
             else reap_loop now maxIdle conns (i + 1) m closed)
      else Ret (take m conns, closed))"
  by pat_completeness auto
termination
  by (relation "measure (\<lambda>(now, maxIdle, conns, i, m, closed). m - i)") auto

declare reap_loop.simps [simp del]

fun reap_hosts :: "int \<Rightarrow> int \<Rightarrow> (string \<times> tcpOutConn option list) list \<Rightarrow> nat list
    \<Rightarrow> ((string \<times> tcpOutConn option list) list \<times> nat list) go" where
  "reap_hosts now maxIdle [] closed = Ret ([], closed)"
| "reap_hosts now maxIdle ((host, conns) # m) closed =
     go_bind (reap_loop now maxIdle conns 0 (length conns) closed) (\<lambda>(l, closed1).
     go_bind (reap_hosts now maxIdle m closed1) (\<lambda>(m', closed2). Ret ((host, l) # m', closed2)))"

definition reapOnce :: "int \<Rightarrow> TCPTransport \<Rightarrow> TCPTransport go" where
  "reapOnce now t =
     (case tPool t of
        None \<Rightarrow> Ret t
      | Some m \<Rightarrow>
          go_bind (reap_hosts now (tMaxIdle t) m (tClosed t)) (\<lambda>(m', closed). Ret (t\<lparr>tPool := Some m', tClosed := closed\<rparr>)))"

text \<open>One round of \<open>reapOld\<close>: \<open>None\<close> when the goroutine ends.\<close>

definition reapOld :: "int \<Rightarrow> TCPTransport \<Rightarrow> TCPTransport option go" where
  "reapOld now t = (if tShutdown t then Ret None else go_bind (reapOnce now t) (\<lambda>t'. Ret (Some t')))"

fun pool_socks :: "tcpOutConn option list \<Rightarrow> nat list go" where
  "pool_socks [] = Ret []"
| "pool_socks (out # l) = go_bind (deref out) (\<lambda>c. go_bind (pool_socks l) (\<lambda>ss. Ret (oc_sock c # ss)))"

definition TCP_Shutdown :: "TCPTransport \<Rightarrow> TCPTransport go" where
  "TCP_Shutdown t =
     go_bind (pool_socks (concat (map snd (case tPool t of None \<Rightarrow> [] | Some m \<Rightarrow> m)))) (\<lambda>ss.
       Ret (t\<lparr>tShutdown := True, tListening := False, tPool := None, tClosed := ss @ tInbound t @ tClosed t\<rparr>))"

text \<open>
  One round of \<open>listen\<close>, with what \<open>AcceptTCP\<close> gives: whether the loop goes on, and the connection for which a
  handler starts. The handler removes the connection when it ends.
\<close>

definition listen_round :: "(go_error + nat) \<Rightarrow> TCPTransport \<Rightarrow> bool \<times> nat option \<times> TCPTransport" where
  "listen_round accepted t =
     (case accepted of
        Inl err \<Rightarrow> (\<not> tShutdown t, None, t)
      | Inr conn \<Rightarrow> (True, Some conn, t\<lparr>tInbound := conn # removeAll conn (tInbound t)\<rparr>))"

definition handleConn :: "'w rpc_env \<Rightarrow> nat \<Rightarrow> (tcp_request option \<times> bool) list \<Rightarrow> TCPTransport \<Rightarrow> 'w process
    \<Rightarrow> (tcp_response list \<times> TCPTransport \<times> 'w process) go" where
  "handleConn env conn frames t p =
     go_bind (conn_loop env (tLocal t) frames p) (\<lambda>(rs, p').
       Ret (rs, t\<lparr>tInbound := removeAll conn (tInbound t), tClosed := conn # tClosed t\<rparr>, p'))"

subsection \<open>A call over the network\<close>

text \<open>
  What can happen to a call once it has a connection. Encoding fails: the request is not sent.
  Decoding fails: the request may have been processed; the goroutine sends the error, puts the connection
  back and, the response being empty, reports success as well, so that the caller may see either. The
  call times out: the request may have been processed. The booleans say whether it was, and whether the
  caller sees the success.
\<close>

datatype call_fault =
    NoFault
  | EncodeFails go_error
  | DecodeFails go_error bool bool
  | TimesOut bool

record 's wire =
  wDial :: "string \<Rightarrow> go_error + nat"
  wFault :: call_fault
  wNow :: int
  wServer :: "string \<Rightarrow> tcp_request \<Rightarrow> 's \<Rightarrow> (tcp_response \<times> 's) go"

definition timed_out :: go_error where
  "timed_out = fmt_Errorf ''Command timed out!'' []"

definition server_effect :: "bool \<Rightarrow> (tcp_response \<times> 's) go \<Rightarrow> 's \<Rightarrow> 's" where
  "server_effect processed answer s = (if processed then case answer of Ret (_, s') \<Rightarrow> s' | _ \<Rightarrow> s else s)"

text \<open>
  The error of the call and the response, \<open>None\<close> for one that was never filled in. A server that panics takes its
  process with it, which the caller sees as the end of the connection; one that never answers runs
  into the time limit.
\<close>

definition networkCall :: "'s wire \<Rightarrow> string \<Rightarrow> tcp_request \<Rightarrow> TCPTransport \<Rightarrow> 's
    \<Rightarrow> ((go_error option \<times> tcp_response option) \<times> TCPTransport \<times> 's) go" where
  "networkCall wire host req t s =
     go_bind (getConn (wDial wire host) (wNow wire) host t) (\<lambda>(conn, t1).
       case conn of
         Inl err \<Rightarrow> Ret ((Some err, None), t1, s)
       | Inr out \<Rightarrow>
           (let answer = wServer wire host req s; back = returnConn (wNow wire) out t1
            in case wFault wire of
                 EncodeFails e \<Rightarrow> Ret ((Some e, None), t1, s)
               | TimesOut pr \<Rightarrow> Ret ((Some timed_out, None), t1, server_effect pr answer s)
               | DecodeFails e pr seen \<Rightarrow>
                   go_bind back (\<lambda>t2. Ret ((if seen then None else Some e, None), t2, server_effect pr answer s))
               | NoFault \<Rightarrow>
                   (case answer of
                      Ret (resp, s') \<Rightarrow> go_bind back (\<lambda>t2. Ret ((resp_Error resp, Some resp), t2, s'))
                    | Panic m \<Rightarrow> go_bind back (\<lambda>t2. Ret ((Some (StringError ''EOF''), None), t2, s))
                    | Hang \<Rightarrow> Ret ((Some timed_out, None), t1, s))))"

text \<open>What a method returns on success: the response's field, or the zero value of an empty response.\<close>

definition answer_or :: "'r \<Rightarrow> (tcp_response \<Rightarrow> 'r) \<Rightarrow> ((go_error option \<times> tcp_response option) \<times> TCPTransport \<times> 's) go
    \<Rightarrow> (('r \<times> go_error option) \<times> TCPTransport \<times> 's) go" where
  "answer_or zero field call =
     go_bind call (\<lambda>((err, resp), t', s').
       Ret (case err of
              Some e \<Rightarrow> (zero, Some e)
            | None \<Rightarrow> (case resp of None \<Rightarrow> zero | Some r \<Rightarrow> field r, None), t', s'))"

text \<open>The same for the methods that return \<open>resp.Error()\<close> when the call fails.\<close>

definition answer_resp :: "'r \<Rightarrow> (tcp_response \<Rightarrow> 'r) \<Rightarrow> ((go_error option \<times> tcp_response option) \<times> TCPTransport \<times> 's) go
    \<Rightarrow> (('r \<times> go_error option) \<times> TCPTransport \<times> 's) go" where
  "answer_resp zero field call =
     go_bind call (\<lambda>((err, resp), t', s').
       Ret (case err of
              Some e \<Rightarrow> (zero, case resp of None \<Rightarrow> None | Some r \<Rightarrow> resp_Error r)
            | None \<Rightarrow> (case resp of None \<Rightarrow> zero | Some r \<Rightarrow> field r, None), t', s'))"

subsection \<open>The methods of \<open>TCPTransport\<close>\<close>

fun resp_Vnodes :: "tcp_response \<Rightarrow> vnode_slice" where
  "resp_Vnodes (tcpBodyVnodeListError vs err) = vs"
| "resp_Vnodes _ = None"

fun resp_B :: "tcp_response \<Rightarrow> bool" where
  "resp_B (tcpBodyBoolError b err) = b"
| "resp_B _ = False"

fun resp_Vnode :: "tcp_response \<Rightarrow> Vnode option" where
  "resp_Vnode (tcpBodyVnodeError v err) = v"
| "resp_Vnode _ = None"

fun resp_Value :: "tcp_response \<Rightarrow> bytes" where
  "resp_Value (tcpBodyRespValue val err) = val"
| "resp_Value _ = []"

fun resp_Keys :: "tcp_response \<Rightarrow> string list" where
  "resp_Keys (tcpBodyRespKeys ks err) = ks"
| "resp_Keys _ = []"

fun resp_Joined :: "tcp_response \<Rightarrow> Vnode option list" where
  "resp_Joined (tcpBodyJoinRingResp vs err) = vs"
| "resp_Joined _ = []"

fun resp_RLock :: "tcp_response \<Rightarrow> string \<times> uint \<times> uint64" where
  "resp_RLock (tcpBodyLMRLockResp l v cp err) = (l, v, cp)"
| "resp_RLock _ = ([], 0, 0)"

fun resp_WLock :: "tcp_response \<Rightarrow> string \<times> uint \<times> uint \<times> uint64" where
  "resp_WLock (tcpBodyLMWLockResp l v t cp err) = (l, v, t, cp)"
| "resp_WLock _ = ([], 0, 0, 0)"

fun resp_CommitPoint :: "tcp_response \<Rightarrow> uint64" where
  "resp_CommitPoint (tcpBodyLMCommitWLockResp cp err) = cp"
| "resp_CommitPoint (tcpBodyLMAbortWLockResp cp err) = cp"
| "resp_CommitPoint _ = 0"

type_synonym ('r, 's) tcp_call = "TCPTransport \<Rightarrow> 's \<Rightarrow> (('r \<times> go_error option) \<times> TCPTransport \<times> 's) go"

definition TCP_ListVnodes :: "'s wire \<Rightarrow> string \<Rightarrow> (vnode_slice, 's) tcp_call" where
  "TCP_ListVnodes wire host t s = answer_or None resp_Vnodes (networkCall wire host (tcpListReq host) t s)"

definition TCP_Ping :: "'s wire \<Rightarrow> Vnode \<Rightarrow> (bool, 's) tcp_call" where
  "TCP_Ping wire vn t s = answer_or False resp_B (networkCall wire (Host vn) (tcpPing vn) t s)"

definition TCP_GetPredecessor :: "'s wire \<Rightarrow> Vnode \<Rightarrow> (Vnode option, 's) tcp_call" where
  "TCP_GetPredecessor wire vn t s = answer_or None resp_Vnode (networkCall wire (Host vn) (tcpGetPredReq vn) t s)"

definition TCP_Notify :: "'s wire \<Rightarrow> Vnode \<Rightarrow> Vnode \<Rightarrow> (vnode_slice, 's) tcp_call" where
  "TCP_Notify wire target self t s =
     answer_or None resp_Vnodes (networkCall wire (Host target) (tcpNotifyReq target self) t s)"

definition TCP_FindSuccessors :: "'s wire \<Rightarrow> Vnode \<Rightarrow> int \<Rightarrow> bytes \<Rightarrow> (vnode_slice, 's) tcp_call" where
  "TCP_FindSuccessors wire vn n k t s =
     answer_or None resp_Vnodes (networkCall wire (Host vn) (tcpFindSucReq vn n k) t s)"

definition TCP_GetPredecessorList :: "'s wire \<Rightarrow> Vnode \<Rightarrow> (vnode_slice, 's) tcp_call" where
  "TCP_GetPredecessorList wire vn t s =
     answer_or None resp_Vnodes (networkCall wire (Host vn) (tcpGetPredListReq vn) t s)"

definition TCP_Get :: "'s wire \<Rightarrow> Vnode \<Rightarrow> string \<Rightarrow> uint \<Rightarrow> (bytes, 's) tcp_call" where
  "TCP_Get wire target k version t s =
     answer_or [] resp_Value (networkCall wire (Host target) (tcpGet target k version) t s)"

definition TCP_Set :: "'s wire \<Rightarrow> Vnode \<Rightarrow> string \<Rightarrow> uint \<Rightarrow> bytes \<Rightarrow> (unit, 's) tcp_call" where
  "TCP_Set wire target k version value t s =
     answer_or () (\<lambda>_. ()) (networkCall wire (Host target) (tcpSet target k version value) t s)"

definition TCP_List :: "'s wire \<Rightarrow> Vnode \<Rightarrow> (string list, 's) tcp_call" where
  "TCP_List wire target t s = answer_or [] resp_Keys (networkCall wire (Host target) (tcpList target) t s)"

definition TCP_BulkSet :: "'s wire \<Rightarrow> Vnode \<Rightarrow> string \<Rightarrow> KVStoreValue list \<Rightarrow> (unit, 's) tcp_call" where
  "TCP_BulkSet wire target k valLst t s =
     answer_or () (\<lambda>_. ()) (networkCall wire (Host target) (tcpBulkSet target k valLst) t s)"

definition TCP_SyncKeys :: "'s wire \<Rightarrow> Vnode \<Rightarrow> Vnode option \<Rightarrow> string \<Rightarrow> uint list \<Rightarrow> (unit, 's) tcp_call" where
  "TCP_SyncKeys wire target ownerVn k ver t s =
     answer_or () (\<lambda>_. ()) (networkCall wire (Host target) (tcpSyncKeys target ownerVn k ver) t s)"

definition TCP_MissingKeys :: "'s wire \<Rightarrow> Vnode \<Rightarrow> Vnode option \<Rightarrow> string \<Rightarrow> uint list \<Rightarrow> (unit, 's) tcp_call" where
  "TCP_MissingKeys wire target replVn k ver t s =
     answer_or () (\<lambda>_. ()) (networkCall wire (Host target) (tcpMissingKeys target replVn k ver) t s)"

definition TCP_PurgeVersions :: "'s wire \<Rightarrow> Vnode \<Rightarrow> string \<Rightarrow> uint \<Rightarrow> (unit, 's) tcp_call" where
  "TCP_PurgeVersions wire target k maxVersion t s =
     answer_or () (\<lambda>_. ()) (networkCall wire (Host target) (tcpPurgeVersions target k maxVersion) t s)"

definition TCP_JoinRing :: "'s wire \<Rightarrow> Vnode \<Rightarrow> string \<Rightarrow> Vnode option \<Rightarrow> (Vnode option list, 's) tcp_call" where
  "TCP_JoinRing wire target ringId joiner t s =
     answer_or [] resp_Joined (networkCall wire (Host target) (tcpJoinRingReq target ringId joiner) t s)"

definition TCP_ClearPredecessor :: "'s wire \<Rightarrow> Vnode \<Rightarrow> Vnode \<Rightarrow> (unit, 's) tcp_call" where
  "TCP_ClearPredecessor wire target self t s =
     answer_or () (\<lambda>_. ()) (networkCall wire (Host target) (tcpClearPredReq target self) t s)"

definition TCP_SkipSuccessor :: "'s wire \<Rightarrow> Vnode \<Rightarrow> Vnode \<Rightarrow> (unit, 's) tcp_call" where
  "TCP_SkipSuccessor wire target self t s =
     answer_or () (\<lambda>_. ()) (networkCall wire (Host target) (tcpSkipSucReq target self) t s)"

text \<open>\<open>RLock\<close> puts the key of some registered vnode in place of the node id it is given.\<close>

definition TCP_RLock :: "'s wire \<Rightarrow> Vnode \<Rightarrow> string \<Rightarrow> string \<Rightarrow> OpsLogEntry option \<Rightarrow> (string \<times> uint \<times> uint64, 's) tcp_call" where
  "TCP_RLock wire target k nodeID e t s =
     (let nodeID' = (case tLocal t of [] \<Rightarrow> nodeID | (k, _) # _ \<Rightarrow> k)
      in answer_resp ([], 0, 0) resp_RLock (networkCall wire (Host target) (tcpRLockReq target k nodeID' (tAddr t) e) t s))"

definition TCP_WLock :: "'s wire \<Rightarrow> Vnode \<Rightarrow> string \<Rightarrow> uint \<Rightarrow> uint \<Rightarrow> string \<Rightarrow> OpsLogEntry option
    \<Rightarrow> (string \<times> uint \<times> uint \<times> uint64, 's) tcp_call" where
  "TCP_WLock wire target k version timeout nodeID e t s =
     answer_or ([], 0, 0, 0) resp_WLock (networkCall wire (Host target) (tcpWLockReq target k version timeout nodeID e) t s)"

definition TCP_CommitWLock :: "'s wire \<Rightarrow> Vnode \<Rightarrow> string \<Rightarrow> uint \<Rightarrow> string \<Rightarrow> OpsLogEntry option \<Rightarrow> (uint64, 's) tcp_call" where
  "TCP_CommitWLock wire target k version nodeID e t s =
     answer_resp 0 resp_CommitPoint (networkCall wire (Host target) (tcpCommitWLockReq target k version nodeID e) t s)"

definition TCP_AbortWLock :: "'s wire \<Rightarrow> Vnode \<Rightarrow> string \<Rightarrow> uint \<Rightarrow> string \<Rightarrow> OpsLogEntry option \<Rightarrow> (uint64, 's) tcp_call" where
  "TCP_AbortWLock wire target k version nodeID e t s =
     answer_resp 0 resp_CommitPoint (networkCall wire (Host target) (tcpAbortWLockReq target k version nodeID e) t s)"

text \<open>
  \<open>InvalidateRLock\<close> repeats \<open>networkCall\<close>, with these differences: when decoding fails the goroutine ends there, with the
  connection not put back; any error of the exchange is replaced by \<open>resp.Error()\<close>, nil when the response was
  never filled in.
\<close>

definition TCP_InvalidateRLock :: "'s wire \<Rightarrow> Vnode \<Rightarrow> string \<Rightarrow> (unit, 's) tcp_call" where
  "TCP_InvalidateRLock wire target lockID t s =
     go_bind (getConn (wDial wire (Host target)) (wNow wire) (Host target) t) (\<lambda>(conn, t1).
       case conn of
         Inl err \<Rightarrow> Ret (((), Some err), t1, s)
       | Inr out \<Rightarrow>
           (let answer = wServer wire (Host target) (tcpInvalidateRLockReq target lockID) s
            in case wFault wire of
                 EncodeFails e \<Rightarrow> Ret (((), None), t1, s)
               | TimesOut pr \<Rightarrow> Ret (((), Some timed_out), t1, server_effect pr answer s)
               | DecodeFails e pr seen \<Rightarrow> Ret (((), None), t1, server_effect pr answer s)
               | NoFault \<Rightarrow>
                   (case answer of
                      Ret (resp, s') \<Rightarrow>
                        go_bind (returnConn (wNow wire) out t1) (\<lambda>t2. Ret (((), resp_Error resp), t2, s'))
                    | Panic m \<Rightarrow> Ret (((), None), t1, s)
                    | Hang \<Rightarrow> Ret (((), Some timed_out), t1, s))))"

end
