(* ===== verification/Local_Transport.thy ===== *)
theory Local_Transport
  imports Transport
begin

text \<open>
  The local transport of a ring and the black hole it uses when it is given no remote transport
  (\<open>transport.go\<close>). A method of the local transport calls the vnode object when the target is registered
  in the process, and hands the call to the same method of the remote transport otherwise; that
  method is an argument. The state is the process together with what the remote transport works on.
\<close>

subsection \<open>\<open>LocalTransport\<close>\<close>

record LocalTransport =
  ltHost :: string
  ltLocal :: registry

definition InitLocalTransport :: LocalTransport where
  "InitLocalTransport = \<lparr>ltHost = [], ltLocal = []\<rparr>"

definition LT_get :: "LocalTransport \<Rightarrow> Vnode \<Rightarrow> nat option" where
  "LT_get lt vn = map_option lrObj (map_of (ltLocal lt) (String vn))"

text \<open>\<open>Register\<close> also registers with the remote transport, \<open>remote\<close> here.\<close>

definition LT_Register :: "(Vnode \<Rightarrow> nat \<Rightarrow> 't \<Rightarrow> 't) \<Rightarrow> Vnode \<Rightarrow> nat \<Rightarrow> LocalTransport \<times> 't \<Rightarrow> LocalTransport \<times> 't" where
  "LT_Register remote v obj =
     (\<lambda>(lt, t). (lt\<lparr>ltHost := Host v, ltLocal := AList.update (String v) \<lparr>lrVnode = v, lrObj = obj\<rparr> (ltLocal lt)\<rparr>,
                 remote v obj t))"

definition LT_Deregister :: "Vnode \<Rightarrow> LocalTransport \<Rightarrow> LocalTransport" where
  "LT_Deregister v lt = lt\<lparr>ltLocal := AList.delete (String v) (ltLocal lt)\<rparr>"

definition LT_IsLocalVnode :: "LocalTransport \<Rightarrow> Vnode \<Rightarrow> bool" where
  "LT_IsLocalVnode lt target \<longleftrightarrow> LT_get lt target \<noteq> None"

text \<open>A call on an object of the process, and the choice between it and the remote transport.\<close>

definition call_here :: "nat \<Rightarrow> ('r, 'w) node_call \<Rightarrow> ('r, 'w process \<times> 'n) state_call" where
  "call_here obj call = (\<lambda>(p, n). go_bind (invoke obj call p) (\<lambda>(r, p'). Ret (r, (p', n))))"

definition LT_call :: "LocalTransport \<Rightarrow> Vnode \<Rightarrow> ('r, 'w) node_call \<Rightarrow> ('r, 'w process \<times> 'n) state_call
    \<Rightarrow> ('r, 'w process \<times> 'n) state_call" where
  "LT_call lt target call remote =
     (case LT_get lt target of Some obj \<Rightarrow> call_here obj call | None \<Rightarrow> remote)"

definition LT_ListVnodes :: "LocalTransport \<Rightarrow> (string \<Rightarrow> (vnode_slice, 's) state_call) \<Rightarrow> string \<Rightarrow> (vnode_slice, 's) state_call" where
  "LT_ListVnodes lt remote host s =
     (if host = ltHost lt then Ret ((Some (map (\<lambda>(k, v). Some (lrVnode v)) (ltLocal lt)), None), s)
      else remote host s)"

definition LT_Ping :: "LocalTransport \<Rightarrow> (Vnode \<Rightarrow> (bool, 's) state_call) \<Rightarrow> Vnode \<Rightarrow> (bool, 's) state_call" where
  "LT_Ping lt remote vn s = (if LT_get lt vn \<noteq> None then Ret ((True, None), s) else remote vn s)"

definition LT_GetPredecessor :: "LocalTransport \<Rightarrow> (Vnode \<Rightarrow> (Vnode option, 'w process \<times> 'n) state_call)
    \<Rightarrow> Vnode \<Rightarrow> (Vnode option, 'w process \<times> 'n) state_call" where
  "LT_GetPredecessor lt remote target = LT_call lt target vn_GetPredecessor (remote target)"

definition LT_GetPredecessorList :: "'w rpc_env \<Rightarrow> LocalTransport \<Rightarrow> (Vnode \<Rightarrow> (vnode_slice, 'w process \<times> 'n) state_call)
    \<Rightarrow> Vnode \<Rightarrow> (vnode_slice, 'w process \<times> 'n) state_call" where
  "LT_GetPredecessorList env lt remote target = LT_call lt target (vn_GetPredecessorList env) (remote target)"

definition LT_Notify :: "'w rpc_env \<Rightarrow> LocalTransport \<Rightarrow> (Vnode \<Rightarrow> Vnode \<Rightarrow> (vnode_slice, 'w process \<times> 'n) state_call)
    \<Rightarrow> Vnode \<Rightarrow> Vnode \<Rightarrow> (vnode_slice, 'w process \<times> 'n) state_call" where
  "LT_Notify env lt remote target self = LT_call lt target (vn_Notify env self) (remote target self)"

definition LT_FindSuccessors :: "'w rpc_env \<Rightarrow> LocalTransport \<Rightarrow> (Vnode \<Rightarrow> int \<Rightarrow> bytes \<Rightarrow> (vnode_slice, 'w process \<times> 'n) state_call)
    \<Rightarrow> Vnode \<Rightarrow> int \<Rightarrow> bytes \<Rightarrow> (vnode_slice, 'w process \<times> 'n) state_call" where
  "LT_FindSuccessors env lt remote target n k = LT_call lt target (vn_FindSuccessors env n k) (remote target n k)"

definition LT_ClearPredecessor :: "'w rpc_env \<Rightarrow> LocalTransport \<Rightarrow> (Vnode \<Rightarrow> Vnode \<Rightarrow> (unit, 'w process \<times> 'n) state_call)
    \<Rightarrow> Vnode \<Rightarrow> Vnode \<Rightarrow> (unit, 'w process \<times> 'n) state_call" where
  "LT_ClearPredecessor env lt remote target self = LT_call lt target (vn_ClearPredecessor env self) (remote target self)"

definition LT_SkipSuccessor :: "'w rpc_env \<Rightarrow> LocalTransport \<Rightarrow> (Vnode \<Rightarrow> Vnode \<Rightarrow> (unit, 'w process \<times> 'n) state_call)
    \<Rightarrow> Vnode \<Rightarrow> Vnode \<Rightarrow> (unit, 'w process \<times> 'n) state_call" where
  "LT_SkipSuccessor env lt remote target self = LT_call lt target (vn_SkipSuccessor env self) (remote target self)"

text \<open>\<open>RLock\<close> gives the remote transport no node id, and names the caller's address \<open>self\<close> when the manager is here.\<close>

definition LT_RLock :: "'w rpc_env \<Rightarrow> LocalTransport
    \<Rightarrow> (Vnode \<Rightarrow> string \<Rightarrow> string \<Rightarrow> OpsLogEntry option \<Rightarrow> (string \<times> uint \<times> uint64, 'w process \<times> 'n) state_call)
    \<Rightarrow> Vnode \<Rightarrow> string \<Rightarrow> string \<Rightarrow> OpsLogEntry option \<Rightarrow> (string \<times> uint \<times> uint64, 'w process \<times> 'n) state_call" where
  "LT_RLock env lt remote target k nodeID e =
     LT_call lt target (vn_RLock env k nodeID ''self'' e) (remote target k [] e)"

definition LT_WLock :: "'w rpc_env \<Rightarrow> LocalTransport \<Rightarrow> (Vnode \<Rightarrow> string \<Rightarrow> uint \<Rightarrow> uint \<Rightarrow> string \<Rightarrow> OpsLogEntry option \<Rightarrow> (string \<times> uint \<times> uint \<times> uint64, 'w process \<times> 'n) state_call)
    \<Rightarrow> Vnode \<Rightarrow> string \<Rightarrow> uint \<Rightarrow> uint \<Rightarrow> string \<Rightarrow> OpsLogEntry option \<Rightarrow> (string \<times> uint \<times> uint \<times> uint64, 'w process \<times> 'n) state_call" where
  "LT_WLock env lt remote target k version timeout nodeID e = LT_call lt target (vn_WLock env k version timeout nodeID e) (remote target k version timeout nodeID e)"

definition LT_CommitWLock :: "'w rpc_env \<Rightarrow> LocalTransport \<Rightarrow> (Vnode \<Rightarrow> string \<Rightarrow> uint \<Rightarrow> string \<Rightarrow> OpsLogEntry option \<Rightarrow> (uint64, 'w process \<times> 'n) state_call)
    \<Rightarrow> Vnode \<Rightarrow> string \<Rightarrow> uint \<Rightarrow> string \<Rightarrow> OpsLogEntry option \<Rightarrow> (uint64, 'w process \<times> 'n) state_call" where
  "LT_CommitWLock env lt remote target k version nodeID e = LT_call lt target (vn_CommitWLock env k version nodeID e) (remote target k version nodeID e)"

text \<open>\<open>InvalidateRLock\<close> looks for the bytes of the identifier as they are, not for their hexadecimal text.\<close>

definition LT_InvalidateRLock :: "LocalTransport \<Rightarrow> (Vnode \<Rightarrow> string \<Rightarrow> (unit, 'w process \<times> 'n) state_call)
    \<Rightarrow> Vnode \<Rightarrow> string \<Rightarrow> (unit, 'w process \<times> 'n) state_call" where
  "LT_InvalidateRLock lt remote targetClient lockID =
     (case map_of (ltLocal lt) (map (\<lambda>b. char_of (unat b)) (Id targetClient)) of
        Some r \<Rightarrow> call_here (lrObj r) (vn_InvalidateRLock lockID)
      | None \<Rightarrow> remote targetClient lockID)"

definition LT_AbortWLock :: "'w rpc_env \<Rightarrow> LocalTransport \<Rightarrow> (Vnode \<Rightarrow> string \<Rightarrow> uint \<Rightarrow> string \<Rightarrow> OpsLogEntry option \<Rightarrow> (uint64, 'w process \<times> 'n) state_call)
    \<Rightarrow> Vnode \<Rightarrow> string \<Rightarrow> uint \<Rightarrow> string \<Rightarrow> OpsLogEntry option \<Rightarrow> (uint64, 'w process \<times> 'n) state_call" where
  "LT_AbortWLock env lt remote target k version nodeID e = LT_call lt target (vn_AbortWLock env k version nodeID e) (remote target k version nodeID e)"

definition LT_Get :: "LocalTransport \<Rightarrow> (Vnode \<Rightarrow> string \<Rightarrow> uint \<Rightarrow> (bytes, 'w process \<times> 'n) state_call)
    \<Rightarrow> Vnode \<Rightarrow> string \<Rightarrow> uint \<Rightarrow> (bytes, 'w process \<times> 'n) state_call" where
  "LT_Get lt remote target k version = LT_call lt target (vn_Get k version) (remote target k version)"

definition LT_Set :: "'w rpc_env \<Rightarrow> LocalTransport \<Rightarrow> (Vnode \<Rightarrow> string \<Rightarrow> uint \<Rightarrow> bytes \<Rightarrow> (unit, 'w process \<times> 'n) state_call)
    \<Rightarrow> Vnode \<Rightarrow> string \<Rightarrow> uint \<Rightarrow> bytes \<Rightarrow> (unit, 'w process \<times> 'n) state_call" where
  "LT_Set env lt remote target k version value = LT_call lt target (vn_Set env k version value) (remote target k version value)"

definition LT_List :: "LocalTransport \<Rightarrow> (Vnode \<Rightarrow> (string list, 'w process \<times> 'n) state_call)
    \<Rightarrow> Vnode \<Rightarrow> (string list, 'w process \<times> 'n) state_call" where
  "LT_List lt remote target = LT_call lt target vn_List (remote target)"

definition LT_BulkSet :: "LocalTransport \<Rightarrow> (Vnode \<Rightarrow> string \<Rightarrow> KVStoreValue list \<Rightarrow> (unit, 'w process \<times> 'n) state_call)
    \<Rightarrow> Vnode \<Rightarrow> string \<Rightarrow> KVStoreValue list \<Rightarrow> (unit, 'w process \<times> 'n) state_call" where
  "LT_BulkSet lt remote target k valLst = LT_call lt target (vn_BulkSet k valLst) (remote target k valLst)"

definition LT_SyncKeys :: "'w rpc_env \<Rightarrow> LocalTransport \<Rightarrow> (Vnode \<Rightarrow> Vnode option \<Rightarrow> string \<Rightarrow> uint list \<Rightarrow> (unit, 'w process \<times> 'n) state_call)
    \<Rightarrow> Vnode \<Rightarrow> Vnode option \<Rightarrow> string \<Rightarrow> uint list \<Rightarrow> (unit, 'w process \<times> 'n) state_call" where
  "LT_SyncKeys env lt remote target ownerVn k ver = LT_call lt target (vn_SyncKeys env ownerVn k ver) (remote target ownerVn k ver)"

definition LT_MissingKeys :: "'w rpc_env \<Rightarrow> LocalTransport \<Rightarrow> (Vnode \<Rightarrow> Vnode option \<Rightarrow> string \<Rightarrow> uint list \<Rightarrow> (unit, 'w process \<times> 'n) state_call)
    \<Rightarrow> Vnode \<Rightarrow> Vnode option \<Rightarrow> string \<Rightarrow> uint list \<Rightarrow> (unit, 'w process \<times> 'n) state_call" where
  "LT_MissingKeys env lt remote target ownerVn k ver = LT_call lt target (vn_MissingKeys env ownerVn k ver) (remote target ownerVn k ver)"

definition LT_PurgeVersions :: "LocalTransport \<Rightarrow> (Vnode \<Rightarrow> string \<Rightarrow> uint \<Rightarrow> (unit, 'w process \<times> 'n) state_call)
    \<Rightarrow> Vnode \<Rightarrow> string \<Rightarrow> uint \<Rightarrow> (unit, 'w process \<times> 'n) state_call" where
  "LT_PurgeVersions lt remote target k maxVersion = LT_call lt target (vn_PurgeVersions k maxVersion) (remote target k maxVersion)"

definition LT_JoinRing :: "'w rpc_env \<Rightarrow> LocalTransport \<Rightarrow> (Vnode \<Rightarrow> string \<Rightarrow> Vnode option \<Rightarrow> (Vnode option list, 'w process \<times> 'n) state_call)
    \<Rightarrow> Vnode \<Rightarrow> string \<Rightarrow> Vnode option \<Rightarrow> (Vnode option list, 'w process \<times> 'n) state_call" where
  "LT_JoinRing env lt remote target ringId self = LT_call lt target (vn_JoinRing env ringId self) (remote target ringId self)"

text \<open>\<open>LeaveRing\<close> is not defined for any transport: the call goes to the nil interface inside the struct.\<close>

definition LT_LeaveRing :: "Vnode \<Rightarrow> string \<Rightarrow> (unit, 's) state_call" where
  "LT_LeaveRing target ringId s = Panic ''nil pointer dereference''"

subsection \<open>\<open>BlackholeTransport\<close>\<close>

text \<open>Every call fails, but for \<open>Ping\<close>, which says no; the methods it does not define panic.\<close>

definition blackhole :: "string \<Rightarrow> string \<Rightarrow> go_error" where
  "blackhole text arg = fmt_Errorf text [FStr arg]"

definition BH_ListVnodes :: "string \<Rightarrow> (vnode_slice, 's) state_call" where
  "BH_ListVnodes host s = Ret ((None, Some (blackhole ''Failed to connect! Blackhole: %s.'' host)), s)"

definition BH_Ping :: "Vnode \<Rightarrow> (bool, 's) state_call" where
  "BH_Ping vn s = Ret ((False, None), s)"

definition BH_GetPredecessor :: "Vnode \<Rightarrow> (Vnode option, 's) state_call" where
  "BH_GetPredecessor vn s = Ret ((None, Some (blackhole ''Failed to connect! Blackhole: %s.'' (String vn))), s)"

definition BH_GetPredecessorList :: "Vnode \<Rightarrow> (vnode_slice, 's) state_call" where
  "BH_GetPredecessorList vn s = Ret ((None, Some (blackhole ''Failed to connect! Blackhole: %s.'' (String vn))), s)"

definition BH_Notify :: "Vnode \<Rightarrow> Vnode \<Rightarrow> (vnode_slice, 's) state_call" where
  "BH_Notify vn self s = Ret ((None, Some (blackhole ''Failed to connect! Blackhole: %s'' (String vn))), s)"

definition BH_FindSuccessors :: "Vnode \<Rightarrow> int \<Rightarrow> bytes \<Rightarrow> (vnode_slice, 's) state_call" where
  "BH_FindSuccessors vn n k s = Ret ((None, Some (blackhole ''Failed to connect! Blackhole: %s'' (String vn))), s)"

definition BH_ClearPredecessor :: "Vnode \<Rightarrow> Vnode \<Rightarrow> (unit, 's) state_call" where
  "BH_ClearPredecessor vn self s = Ret (((), Some (blackhole ''Failed to connect! Blackhole: %s'' (String vn))), s)"

definition BH_SkipSuccessor :: "Vnode \<Rightarrow> Vnode \<Rightarrow> (unit, 's) state_call" where
  "BH_SkipSuccessor vn self s = Ret (((), Some (blackhole ''Failed to connect! Blackhole: %s'' (String vn))), s)"

definition BH_Register :: "Vnode \<Rightarrow> nat \<Rightarrow> 't \<Rightarrow> 't" where
  "BH_Register v obj t = t"

definition BH_RLock :: "Vnode \<Rightarrow> string \<Rightarrow> string \<Rightarrow> OpsLogEntry option \<Rightarrow> (string \<times> uint \<times> uint64, 's) state_call" where
  "BH_RLock vn k nodeID e s = Ret ((([], 0, 0), Some (blackhole ''Failed to connect! Blackhole : %s'' (String vn))), s)"

definition BH_WLock :: "Vnode \<Rightarrow> string \<Rightarrow> uint \<Rightarrow> uint \<Rightarrow> string \<Rightarrow> OpsLogEntry option \<Rightarrow> (string \<times> uint \<times> uint \<times> uint64, 's) state_call" where
  "BH_WLock vn k version timeout nodeID e s = Ret ((([], 0, 0, 0), Some (blackhole ''Failed to connect! Blackhole : %s'' (String vn))), s)"

definition BH_CommitWLock :: "Vnode \<Rightarrow> string \<Rightarrow> uint \<Rightarrow> string \<Rightarrow> OpsLogEntry option \<Rightarrow> (uint64, 's) state_call" where
  "BH_CommitWLock vn k version nodeID e s = Ret ((0, Some (blackhole ''Failed to connect! Blackhole : %s'' (String vn))), s)"

definition BH_AbortWLock :: "Vnode \<Rightarrow> string \<Rightarrow> uint \<Rightarrow> string \<Rightarrow> OpsLogEntry option \<Rightarrow> (uint64, 's) state_call" where
  "BH_AbortWLock vn k version nodeID e s = Ret ((0, Some (blackhole ''Failed to connect! Blackhole : %s'' (String vn))), s)"

definition BH_Get :: "Vnode \<Rightarrow> string \<Rightarrow> uint \<Rightarrow> (bytes, 's) state_call" where
  "BH_Get vn k version s = Ret (([], Some (blackhole ''Failed to connect! Blackhole : %s'' (String vn))), s)"

definition BH_Set :: "Vnode \<Rightarrow> string \<Rightarrow> uint \<Rightarrow> bytes \<Rightarrow> (unit, 's) state_call" where
  "BH_Set vn k version value s = Ret (((), Some (blackhole ''Failed to connect! Blackhole : %s'' (String vn))), s)"

definition BH_List :: "Vnode \<Rightarrow> (string list, 's) state_call" where
  "BH_List vn s = Ret (([], Some (blackhole ''Failed to connect! Blackhole : %s'' (String vn))), s)"

definition BH_BulkSet :: "Vnode \<Rightarrow> string \<Rightarrow> KVStoreValue list \<Rightarrow> (unit, 's) state_call" where
  "BH_BulkSet vn k valLst s = Ret (((), Some (blackhole ''Failed to connect! Blackhole : %s'' (String vn))), s)"

definition BH_SyncKeys :: "Vnode \<Rightarrow> Vnode option \<Rightarrow> string \<Rightarrow> uint list \<Rightarrow> (unit, 's) state_call" where
  "BH_SyncKeys vn ownerVn k ver s = Ret (((), Some (blackhole ''Failed to connect! Blackhole : %s'' (String vn))), s)"

definition BH_MissingKeys :: "Vnode \<Rightarrow> Vnode option \<Rightarrow> string \<Rightarrow> uint list \<Rightarrow> (unit, 's) state_call" where
  "BH_MissingKeys vn ownerVn k ver s = Ret (((), Some (blackhole ''Failed to connect! Blackhole : %s'' (String vn))), s)"

definition BH_PurgeVersions :: "Vnode \<Rightarrow> string \<Rightarrow> uint \<Rightarrow> (unit, 's) state_call" where
  "BH_PurgeVersions vn k maxVersion s = Ret (((), Some (blackhole ''Failed to connect! Blackhole : %s'' (String vn))), s)"

definition BH_InvalidateRLock :: "Vnode \<Rightarrow> string \<Rightarrow> (unit, 's) state_call" where
  "BH_InvalidateRLock vn lockID s = Panic ''nil pointer dereference''"

definition BH_JoinRing :: "Vnode \<Rightarrow> string \<Rightarrow> Vnode option \<Rightarrow> (Vnode option list, 's) state_call" where
  "BH_JoinRing vn ringId self s = Panic ''nil pointer dereference''"

end
