(* ===== verification/Tracker_Theorems.thy ===== *)
theory Tracker_Theorems
  imports Tracker System
begin

text \<open>
  The properties of the tracker: what the tracker on the object store promises to those who join, and what the
  tracker with timeouts does when a timeout passes and when a member joins again.
\<close>

subsection \<open>Lists in the object store\<close>

definition json_ok :: "json_codec \<Rightarrow> bool" where
  "json_ok js \<longleftrightarrow> (\<forall>xs. \<exists>b. jMarshal js xs = Inr b \<and> jUnmarshal js b = (xs, None))"

context store_service
begin

text \<open>What \<open>GetForSet\<close> returns: the committed value, or an error for a key that has none.\<close>

definition committed :: "'w \<Rightarrow> string \<Rightarrow> bytes option" where
  "committed w k = (if ver w k = 0 then None else look w k (ver w k))"

lemma get_for_set_service:
  assumes "inv w" "locked w k = None" "map_of (cRLocks lm) k = None" "ver w k = 0 \<or> look w k (ver w k) \<noteq> None"
  shows "\<exists>res lm1 w1. GetForSet (Suc fuel) env lm k retry w = Ret ((res, ver w k + 1), lm1, w1) \<and> inv w1 \<and>
    ver w1 = ver w \<and> locked w1 k = Some (ver w k + 1) \<and> look w1 = look w \<and> map_of (cWLocks lm1) k \<noteq> None \<and>
    (case committed w k of None \<Rightarrow> \<exists>e. res = Inl e | Some b \<Rightarrow> res = Inr b)"
proof -
  obtain lm1 w1 where 1: "wlock_loop (Suc fuel) env lm k 60 retry w = Ret ((ver w k + 1, None), lm1, w1)" "inv w1"
    "ver w1 = ver w" "locked w1 k = Some (ver w k + 1)" "look w1 = look w" "map_of (cWLocks lm1) k \<noteq> None"
    "cRLocks lm1 = cRLocks lm" using wlock_ok[OF assms(1,2)] by metis
  show ?thesis
  proof (cases "ver w k = 0")
    case True
    then obtain lid v cp e where e: "clRLock env (hd nodes) k (String (clLocalVnode env)) w1 = ((lid, v, cp, Some e), w1)"
      "\<not> isRetryable (Some e)" using rlock_absent[OF 1(2), of k] 1(3) by metis
    have "getWithoutRetry env lm1 k w1 = Ret (Inl e, lm1, w1)"
      using assms(3) 1(7) e(1) by (simp add: getWithoutRetry_def LMC_RLock_def manager[OF 1(2)])
    then have "GetForSet (Suc fuel) env lm k retry w = Ret ((Inl e, ver w k + 1), lm1, w1)"
      using 1(1) e(2) by (simp add: GetForSet_def del: wlock_loop.simps)
    then show ?thesis using 1 True by (auto simp: committed_def)
  next
    case False
    then obtain a where a: "look w k (ver w k) = Some a" using assms(4) by auto
    obtain lm2 w2 where 2: "getWithoutRetry env lm1 k w1 = Ret (Inr a, lm2, w2)" "inv w2" "ver w2 = ver w1"
      "locked w2 = locked w1" "look w2 = look w1" "cWLocks lm2 = cWLocks lm1"
      using get_reads[OF 1(2), of k "ver w k" a lm1] False a assms(3) 1(3,5,7) by metis
    have "GetForSet (Suc fuel) env lm k retry w = Ret ((Inr a, ver w k + 1), lm2, w2)"
      using 1(1) 2(1) by (simp add: GetForSet_def del: wlock_loop.simps)
    then show ?thesis using 1 2 False a by (auto simp: committed_def)
  qed
qed

lemma tracker_join_service:
  assumes js: "json_ok js" and w: "inv w" "locked w k = None" "map_of (cRLocks lm) k = None" "ver w k \<noteq> - 1"
    and top: "\<And>u b. look w k u = Some b \<Longrightarrow> u \<le> ver w k"
    and mem: "if ver w k = 0 then ms = [] else \<exists>b. look w k (ver w k) = Some b \<and> jUnmarshal js b = (ms, None)"
  shows "\<exists>lm1 w1 b. handleJoinRing (Suc fuel) js env lm k joiner w = Ret ((ms, None), lm1, w1) \<and> inv w1 \<and> locked w1 k = None \<and>
    map_of (cRLocks lm1) k = None \<and> ver w1 k = ver w k + 1 \<and> (\<forall>u b. look w1 k u = Some b \<longrightarrow> u \<le> ver w1 k) \<and>
    look w1 k (ver w1 k) = Some b \<and> jUnmarshal js b = (ms @ [joiner], None)"
proof -
  let ?v = "ver w k + 1"
  have lt: "ver w k < ?v" using w(4) by (rule word_less_Suc)
  have pre: "ver w k = 0 \<or> look w k (ver w k) \<noteq> None" using mem by (auto split: if_splits)
  obtain res lm1 w1 where 1: "GetForSet (Suc fuel) env lm k True w = Ret ((res, ?v), lm1, w1)" "inv w1" "ver w1 = ver w"
    "locked w1 k = Some ?v" "look w1 = look w" "map_of (cWLocks lm1) k \<noteq> None"
    "case committed w k of None \<Rightarrow> \<exists>e. res = Inl e | Some b \<Rightarrow> res = Inr b"
    using get_for_set_service[OF w(1-3) pre, of fuel True] by blast
  have ms: "(case res of Inl err \<Rightarrow> [] | Inr val \<Rightarrow> fst (jUnmarshal js val)) = ms"
    using 1(7) mem by (auto simp: committed_def split: if_splits)
  obtain b where b: "jMarshal js (ms @ [joiner]) = Inr b" "jUnmarshal js b = (ms @ [joiner], None)"
    using js unfolding json_ok_def by blast
  have "\<forall>u b. look w1 k u = Some b \<longrightarrow> u < ?v" using top 1(5) lt by (metis order_le_less_trans)
  from set_version_ok[OF 1(2,4) this 1(6), of b] obtain lm2 w2 where
    2: "setVersionWithoutRetry env lm1 k ?v b w1 = Ret (None, lm2, w2)" "inv w2" "ver w2 k = ?v"
      "look w2 k = (look w1 k)(?v \<mapsto> b)" "locked w2 k = None" "map_of (cRLocks lm2) k = None" by blast
  have "handleJoinRing (Suc fuel) js env lm k joiner w = Ret ((ms, None), lm2, w2)"
    using 1(1) ms b(1) 2(1) by (simp add: handleJoinRing_def del: GetForSet_def)
  moreover have "\<forall>u c. look w2 k u = Some c \<longrightarrow> u \<le> ?v" 
    using 2(4) 1(5) lt by (auto dest!: top)
  ultimately show ?thesis using 2 b(2) by auto
qed

end

subsection \<open>Properties\<close>


text \<open>A codec for the witness: marked bytes, with a zero at the end of each string.\<close>

fun put_bytes :: "bytes \<Rightarrow> bytes" where
  "put_bytes [] = [0]"
| "put_bytes (b # bs) = 1 # b # put_bytes bs"

fun take_bytes :: "bytes \<Rightarrow> bytes \<times> bytes" where
  "take_bytes (x # b # r) = (if x = 0 then ([], b # r) else (case take_bytes r of (bs, r') \<Rightarrow> (b # bs, r')))"
| "take_bytes [x] = ([], [])"
| "take_bytes [] = ([], [])"

fun put_vnodes :: "Vnode option list \<Rightarrow> bytes" where
  "put_vnodes [] = []"
| "put_vnodes (None # vs) = 0 # put_vnodes vs"
| "put_vnodes (Some v # vs) = 1 # put_bytes (Id v) @ put_bytes (string_bytes (Host v)) @ put_vnodes vs"

lemma take_put: "take_bytes (put_bytes bs @ r) = (bs, r)"
proof (induction bs)
  case Nil
  then show ?case by (cases r) auto
qed simp

lemma take_bytes_length: "length (snd (take_bytes r)) \<le> length r"
  by (induction r rule: take_bytes.induct) (auto split: prod.splits)

function take_vnodes :: "bytes \<Rightarrow> Vnode option list" where
  "take_vnodes [] = []"
| "take_vnodes (x # r) =
     (if x = 0 then None # take_vnodes r
      else (let (i, r1) = take_bytes r; (h, r2) = take_bytes r1
            in Some \<lparr>Id = i, Host = map (\<lambda>b. char_of (unat b)) h\<rparr> # take_vnodes r2))"
  by pat_completeness auto
termination
proof (relation "measure length", goal_cases)
  case (3 x r y i r1 z h r2)
  then show ?case using take_bytes_length[of r] take_bytes_length[of r1] by (simp add: le_imp_less_Suc) (metis le_trans snd_conv less_Suc_eq_le)
qed auto

lemma take_put_vnodes: "take_vnodes (put_vnodes vs) = vs"
  by (induction vs rule: put_vnodes.induct) (simp_all add: take_put string_bytes_back)

definition toy_json :: json_codec where
  "toy_json = \<lparr>jMarshal = (\<lambda>vs. Inr (put_vnodes vs)), jUnmarshal = (\<lambda>b. (take_vnodes b, None))\<rparr>"

lemma toy_json_ok: "json_ok toy_json"
  by (simp add: json_ok_def toy_json_def take_put_vnodes)


lemma purge_loop_panics: "now > nextTimer \<Longrightarrow> \<exists>m. purge_loop now nextTimer items tr = Panic m"
  by (induction items arbitrary: tr) (auto simp: Let_def)

text \<open>C40: A passed timeout always ends in a panic: when the timeout of the queue's last entry has passed,
  \<open>purgeHeadofQueueIfStale\<close> never returns, because its loop compares the time with the first timeout it saw
  and goes on until the queue is empty or a member is not found.
\<close>

theorem passed_timeout_panics_tracker:
  assumes "timeoutQueue tr \<noteq> []" "ti_priority (last (timeoutQueue tr)) < now"
  shows "\<exists>m. handleTimer now tr = Panic m"
  using purge_loop_panics[OF assms(2)] assms(1)
  by (auto simp: handleTimer_def purgeHeadofQueueIfStale_def Peek_def) (metis go_bind.simps(2))

theorem passed_timeout_panics_tracker_witness:
  "\<exists>m. handleTimer 601 \<lparr>timeoutQueue = [\<lparr>ti_ringId = ''r'', ti_vnode = (1, \<lparr>Id = [7], Host = ''a''\<rparr>), ti_priority = 600, ti_index = 0\<rparr>],
     ringMembers = [''r'' \<mapsto> [(1, \<lparr>Id = [7], Host = ''a''\<rparr>)]], trTimer = Some 600\<rparr> = Panic m"
  by (rule passed_timeout_panics_tracker) simp_all

lemma search_loop_none: "(\<And>h. i \<le> h \<Longrightarrow> h < j \<Longrightarrow> \<not> f h) \<Longrightarrow> i \<le> j \<Longrightarrow> search_loop f i j = j"
proof (induction f i j rule: search_loop.induct)
  case (1 f i j)
  show ?case
  proof (cases "i < j")
    case True
    then have "\<not> f ((i + j) div 2)" using 1(3) by simp
    moreover have "search_loop f ((i + j) div 2 + 1) j = j" using 1(1)[OF True refl calculation] 1(3) True by simp
    ultimately show ?thesis using True by (simp add: search_loop.simps[of f i j] Let_def)
  next
    case False
    then show ?thesis using 1(4) by (subst search_loop.simps) simp
  qed
qed

text \<open>A vnode that is new to the tracker with timeouts gets the members before it, is added at the end of their list
  and gets a timeout of its own.
\<close>

theorem tracker_join_new_member:
  assumes "Host (snd j) \<noteq> []" "\<And>x. x \<in> set (timeoutQueue tr) \<Longrightarrow> ti_ringId x \<noteq> r \<or> fst (ti_vnode x) \<noteq> fst j"
  shows "\<exists>tr'. handleJoinRingWithTimeout now tr r j t = Ret ((members_of tr r, None), tr') \<and>
    members_of tr' r = members_of tr r @ [j] \<and> (\<forall>s. s \<noteq> r \<longrightarrow> members_of tr' s = members_of tr s) \<and>
    map ti_vnode (timeoutQueue tr') = map ti_vnode (timeoutQueue tr) @ [j] \<and> trTimer tr' = Some (now + t)"
proof -
  have "sort_Search (length (timeoutQueue tr))
      (\<lambda>i. ti_ringId (timeoutQueue tr ! i) = r \<and> fst (ti_vnode (timeoutQueue tr ! i)) = fst j) = length (timeoutQueue tr)"
    unfolding sort_Search_def by (rule search_loop_none) (use assms(2) nth_mem in \<open>blast+\<close>)
  then show ?thesis using assms(1)
    by (simp add: handleJoinRingWithTimeout_def Let_def rescheduleTimer_def Peek_def pq_Push_def members_of_def)
qed

theorem tracker_join_new_member_witness:
  "\<exists>tr'. handleJoinRingWithTimeout 5 NewTracker ''r'' (1, \<lparr>Id = [7], Host = ''a''\<rparr>) 600 = Ret (([], None), tr') \<and>
     members_of tr' ''r'' = [(1, \<lparr>Id = [7], Host = ''a''\<rparr>)]"
  using tracker_join_new_member[of "(1, \<lparr>Id = [7], Host = ''a''\<rparr>)" NewTracker "''r''" 5 600]
  by (auto simp: NewTracker_def members_of_def)

text \<open>Joining again takes the timeout of another member away: when two members have joined and the second joins again,
  the entry that is removed from the queue is the first member's, because the new entry has index zero;
  the first member then never times out and the second has two entries.
\<close>

theorem tracker_rejoin_drops_other:
  "let a = (1, \<lparr>Id = [7], Host = ''a''\<rparr>); b = (2, \<lparr>Id = [8], Host = ''b''\<rparr>)
   in case go_bind (handleJoinRingWithTimeout 0 NewTracker ''r'' a 600) (\<lambda>(_, tr1).
           go_bind (handleJoinRingWithTimeout 1 tr1 ''r'' b 600) (\<lambda>(_, tr2). handleJoinRingWithTimeout 2 tr2 ''r'' b 600)) of
        Ret (_, tr3) \<Rightarrow> map (fst \<circ> ti_vnode) (timeoutQueue tr3) = [2, 2] \<and> map fst (members_of tr3 ''r'') = [1, 2]
      | _ \<Rightarrow> False"
  by code_simp

end
