(* ===== verification/Transport_Calls.thy ===== *)
theory Transport_Calls
  imports Local_Transport Vnode_Theorems Tracker_Theorems
begin

text \<open>
  Calls between processes: what a call through the transports does compared with the direct call, stated
  once for all requests as a locale; what happens to lock operations when the manager cannot be reached; which
  readers an invalidation reaches.
\<close>

subsection \<open>Lemmas on calls\<close>

definition pool_open :: "TCPTransport \<Rightarrow> bool" where
  "pool_open t \<longleftrightarrow> \<not> tShutdown t \<and> tPool t \<noteq> None"

lemma set_pool_open:
  assumes "pool_open t"
  obtains t' where "set_pool t h l = Ret t'" "pool_open t'" "tLocal t' = tLocal t" "tAddr t' = tAddr t"
    "tShutdown t' = tShutdown t" "tClosed t' = tClosed t" "tInbound t' = tInbound t"
    "\<And>h'. pool_list t' h' = (if h' = h then l else pool_list t h')"
  using assms that by (auto simp: pool_open_def set_pool_def pool_list_def update_conv')

lemma getConn_open:
  assumes "pool_open t" "dial = Inr sock"
  obtains c t' where "getConn dial now h t = Ret (Inr c, t')" "pool_open t'" "tLocal t' = tLocal t"
proof (cases "pool_list t h = []")
  case True
  then show ?thesis using assms that by (auto simp: getConn_def pool_open_def)
next
  case False
  obtain t' where t': "set_pool t h (butlast (pool_list t h)) = Ret t'" "pool_open t'" "tLocal t' = tLocal t"
    using set_pool_open[OF assms(1)] by metis
  show ?thesis
    by (rule that[of "case last (pool_list t h) of Some c \<Rightarrow> c\<lparr>oc_used := now\<rparr> | None \<Rightarrow> \<lparr>oc_host = h, oc_sock = sock, oc_used = now\<rparr>" t'])
      (use t' False assms in \<open>auto simp: getConn_def pool_open_def Let_def split: option.splits\<close>)
qed

lemma returnConn_open:
  assumes "pool_open t"
  obtains t' where "returnConn now c t = Ret t'" "pool_open t'" "tLocal t' = tLocal t"
proof -
  obtain t' where "set_pool t (oc_host c) (pool_list t (oc_host c) @ [Some (c\<lparr>oc_used := now\<rparr>)]) = Ret t'" "pool_open t'" "tLocal t' = tLocal t"
    using set_pool_open[OF assms] by metis
  then show ?thesis using assms that by (auto simp: returnConn_def pool_open_def)
qed

text \<open>A call on an open transport that can dial and meets no fault returns what the server answers.\<close>

lemma networkCall_answers:
  assumes "pool_open t" "wDial wire h = Inr sock" "wFault wire = NoFault" "wServer wire h req s = Ret (resp, s')"
  obtains t' where "networkCall wire h req t s = Ret ((resp_Error resp, Some resp), t', s')" "pool_open t'"
proof -
  obtain c t1 where c: "getConn (Inr sock) (wNow wire) h t = Ret (Inr c, t1)" "pool_open t1"
    using getConn_open[OF assms(1) refl] by metis
  obtain t2 where "returnConn (wNow wire) c t1 = Ret t2" "pool_open t2" using returnConn_open[OF c(2)] by metis
  then show ?thesis using c assms that by (simp add: networkCall_def)
qed

text \<open>The zero value replaces the result when there is an error, which arrives in its form on the wire.\<close>

definition wired :: "'r \<Rightarrow> 'r \<times> go_error option \<Rightarrow> 'r \<times> go_error option" where
  "wired zero res = (case wire_error (snd res) of None \<Rightarrow> (fst res, None) | Some e \<Rightarrow> (zero, Some e))"

subsection \<open>Calls that are served by an object\<close>

text \<open>
  The contract between a request and its handler: the handler calls the object and answers with its
  result and error, which the client reads back from the response. From it follows what the two ways
  of reading a response give.
\<close>

locale served_call =
  fixes env :: "'w rpc_env" and reg :: registry and target :: Vnode and request :: tcp_request
    and call :: "('r, 'w) node_call" and zero :: 'r and resp :: "'r \<Rightarrow> go_error option \<Rightarrow> tcp_response"
    and field :: "tcp_response \<Rightarrow> 'r"
  assumes handled: "handle_request env reg request = serve reg target call Ret zero resp"
    and error_back: "resp_Error (resp r err) = err"
    and field_back: "field (resp r err) = r"
begin

lemma answers:
  assumes "pool_open t" "wDial wire h = Inr sock" "wFault wire = NoFault"
    and "wServer wire h = handle_request env reg" "TCP_get reg target = Some obj"
    and "invoke obj call p = Ret (res, p')"
  shows "\<exists>t'. answer_or zero field (networkCall wire h request t p) = Ret (wired zero res, t', p') \<and>
    answer_resp zero field (networkCall wire h request t p) = Ret (wired zero res, t', p') \<and> pool_open t'"
proof -
  obtain r err where res: "res = (r, err)" by fastforce
  then have "wServer wire h request p = Ret (resp r (wire_error err), p')"
    using assms(4-6) by (simp add: handled serve_def)
  from networkCall_answers[OF assms(1-3) this] obtain t' where
    "networkCall wire h request t p = Ret ((resp_Error (resp r (wire_error err)), Some (resp r (wire_error err))), t', p')" "pool_open t'"
    by metis
  then show ?thesis using res by (auto simp: answer_or_def answer_resp_def wired_def error_back field_back split: option.splits)
qed

lemma not_found:
  assumes "pool_open t" "wDial wire h = Inr sock" "wFault wire = NoFault"
    and "wServer wire h = handle_request env reg" "TCP_get reg target = None"
  shows "\<exists>t'. answer_or zero field (networkCall wire h request t p) = Ret ((zero, wire_error (Some (target_not_found target))), t', p) \<and>
    answer_resp zero field (networkCall wire h request t p) = Ret ((zero, wire_error (Some (target_not_found target))), t', p)"
proof -
  have "wServer wire h request p = Ret (resp zero (wire_error (Some (target_not_found target))), p)"
    using assms(4,5) by (simp add: handled serve_def)
  from networkCall_answers[OF assms(1-3) this] obtain t' where
    "networkCall wire h request t p = Ret ((wire_error (Some (target_not_found target)),
       Some (resp zero (wire_error (Some (target_not_found target))))), t', p)"
    by (metis error_back)
  then show ?thesis by (auto simp: answer_or_def answer_resp_def error_back field_back split: option.splits)
qed

end

interpretation get_pred: served_call env reg vn "tcpGetPredReq vn" vn_GetPredecessor None tcpBodyVnodeError resp_Vnode
  for env :: "'w rpc_env" and reg vn by unfold_locales (auto simp: handle_GetPred_def)

interpretation get_pred_list: served_call env reg vn "tcpGetPredListReq vn" "vn_GetPredecessorList env" None tcpBodyVnodeListError resp_Vnodes
  for env :: "'w rpc_env" and reg vn by unfold_locales (auto simp: handle_GetPredList_def)

interpretation clear_pred: served_call env reg target "tcpClearPredReq target vn" "vn_ClearPredecessor env vn" "()" "\<lambda>_. tcpBodyError" "\<lambda>_. ()"
  for env :: "'w rpc_env" and reg target vn by unfold_locales (auto simp: handle_ClearPred_def)

interpretation skip_suc: served_call env reg target "tcpSkipSucReq target vn" "vn_SkipSuccessor env vn" "()" "\<lambda>_. tcpBodyError" "\<lambda>_. ()"
  for env :: "'w rpc_env" and reg target vn by unfold_locales (auto simp: handle_SkipSuc_def)

interpretation obj_get: served_call env reg vn "tcpGet vn k version" "vn_Get k version" "[]" tcpBodyRespValue resp_Value
  for env :: "'w rpc_env" and reg vn k version by unfold_locales (auto simp: handle_Get_def)

interpretation obj_set: served_call env reg vn "tcpSet vn k version val" "vn_Set env k version val" "()" "\<lambda>_. tcpBodyError" "\<lambda>_. ()"
  for env :: "'w rpc_env" and reg vn k version val by unfold_locales (auto simp: handle_Set_def)

interpretation obj_list: served_call env reg vn "tcpList vn" vn_List "[]" tcpBodyRespKeys resp_Keys
  for env :: "'w rpc_env" and reg vn by unfold_locales (auto simp: handle_ListKeys_def)

interpretation obj_bulk: served_call env reg vn "tcpBulkSet vn k vals" "vn_BulkSet k vals" "()" "\<lambda>_. tcpBodyError" "\<lambda>_. ()"
  for env :: "'w rpc_env" and reg vn k vals by unfold_locales (auto simp: handle_BulkSet_def)

interpretation obj_sync: served_call env reg vn "tcpSyncKeys vn owner k vers" "vn_SyncKeys env owner k vers" "()" "\<lambda>_. tcpBodyError" "\<lambda>_. ()"
  for env :: "'w rpc_env" and reg vn owner k vers by unfold_locales (auto simp: handle_SyncKeys_def)

interpretation obj_missing: served_call env reg vn "tcpMissingKeys vn repl k vers" "vn_MissingKeys env repl k vers" "()" "\<lambda>_. tcpBodyError" "\<lambda>_. ()"
  for env :: "'w rpc_env" and reg vn repl k vers by unfold_locales (auto simp: handle_MissingKeys_def)

interpretation obj_purge: served_call env reg vn "tcpPurgeVersions vn k bound" "vn_PurgeVersions k bound" "()" "\<lambda>_. tcpBodyError" "\<lambda>_. ()"
  for env :: "'w rpc_env" and reg vn k bound by unfold_locales (auto simp: handle_PurgeVersions_def)

interpretation join_ring: served_call env reg target "tcpJoinRingReq target ringId joiner" "vn_JoinRing env ringId joiner" "[]"
    tcpBodyJoinRingResp resp_Joined
  for env :: "'w rpc_env" and reg target ringId joiner by unfold_locales (auto simp: handle_JoinRing_def)

interpretation lm_rlock: served_call env reg vn "tcpRLockReq vn k node addr e" "vn_RLock env k node addr e" "([], 0, 0)"
    "\<lambda>(l, v, cp). tcpBodyLMRLockResp l v cp" resp_RLock
  for env :: "'w rpc_env" and reg vn k node addr e by unfold_locales (auto simp: handle_RLock_def)

interpretation lm_wlock: served_call env reg vn "tcpWLockReq vn k version timeout node e" "vn_WLock env k version timeout node e" "([], 0, 0, 0)"
    "\<lambda>(l, v, t, cp). tcpBodyLMWLockResp l v t cp" resp_WLock
  for env :: "'w rpc_env" and reg vn k version timeout node e by unfold_locales (auto simp: handle_WLock_def)

interpretation lm_commit: served_call env reg vn "tcpCommitWLockReq vn k version node e" "vn_CommitWLock env k version node e" "0"
    tcpBodyLMCommitWLockResp resp_CommitPoint
  for env :: "'w rpc_env" and reg vn k version node e by unfold_locales (auto simp: handle_CommitWLock_def)

interpretation lm_abort: served_call env reg vn "tcpAbortWLockReq vn k version node e" "vn_AbortWLock env k version node e" "0"
    tcpBodyLMAbortWLockResp resp_CommitPoint
  for env :: "'w rpc_env" and reg vn k version node e by unfold_locales (auto simp: handle_AbortWLock_def)

subsection \<open>A server and a client\<close>

definition demo_rpc :: "unit rpc_env" where
  "demo_rpc = \<lparr>reConf = demo_conf, reFind = (\<lambda>v n k. Hang), reView = demo_view, reLM = demo_env,
     reStore = \<lparr>srIsLocal = (\<lambda>v. True), srLookup = (\<lambda>n k. Hang)\<rparr>, reFuel = 0, reJson = toy_json, reClient = demo_client_env\<rparr>"

definition demo_server :: "unit process" where
  "demo_server = \<lparr>prVnodes = [\<lparr>rvNode = demo_local, rvLM = demo_primary, rvClient = newLManagerClient, rvStore = demo_kvs\<rparr>],
     prSent = [], prWorld = ()\<rparr>"

definition demo_reg :: registry where
  "demo_reg = TCP_Register [] demo_node 0"

definition demo_wire :: "unit process wire" where
  "demo_wire = \<lparr>wDial = (\<lambda>h. Inr 1), wFault = NoFault, wNow = 0, wServer = (\<lambda>h. handle_request demo_rpc demo_reg)\<rparr>"

definition demo_transport :: TCPTransport where
  "demo_transport = \<lparr>tAddr = ''a'', tListening = True, tMaxIdle = 100, tLocal = [], tInbound = [], tPool = Some [],
     tShutdown = False, tClosed = []\<rparr>"

lemma demo_transport_open: "pool_open demo_transport"
  by (simp add: pool_open_def demo_transport_def)

definition demo_unreachable :: "unit wire" where
  "demo_unreachable = \<lparr>wDial = (\<lambda>h. Inl (StringError ''refused'')), wFault = NoFault, wNow = 0, wServer = (\<lambda>h req s. Hang)\<rparr>"

text \<open>A lock client on the TCP transport; the other services are those of the example above.\<close>

definition demo_tcp_client :: "(TCPTransport \<times> unit) client_env" where
  "demo_tcp_client =
     \<lparr>clLookup = (\<lambda>n k w. (([Some demo_node], None), w)),
      clRLock = (\<lambda>v k i (t, s). case TCP_RLock demo_unreachable v k [] None t s of
          Ret (((lock, ver, cp), err), t', s') \<Rightarrow> ((lock, ver, cp, err), (t', s')) | _ \<Rightarrow> (([], 0, 0, Some lost), (t, s))),
      clWLock = (\<lambda>v k ver d i (t, s). case TCP_WLock demo_unreachable v k ver d i None t s of
          Ret (((lock, ver, to, cp), err), t', s') \<Rightarrow> ((lock, ver, to, cp, err), (t', s')) | _ \<Rightarrow> (([], 0, 0, 0, Some lost), (t, s))),
      clCommitWLock = (\<lambda>v k ver i (t, s). case TCP_CommitWLock demo_unreachable v k ver i None t s of
          Ret (res, t', s') \<Rightarrow> (res, (t', s')) | _ \<Rightarrow> ((0, Some lost), (t, s))),
      clAbortWLock = (\<lambda>v k ver i (t, s). case TCP_AbortWLock demo_unreachable v k ver i None t s of
          Ret (res, t', s') \<Rightarrow> (res, (t', s')) | _ \<Rightarrow> ((0, Some lost), (t, s))),
      clGet = (\<lambda>v k ver w. (Inl lost, w)), clSet = (\<lambda>v k ver a w. (Some lost, w)), clIsLocalVnode = (\<lambda>v. False),
      clIntn = (\<lambda>m w. (0, w)), clRingId = ''ring'', clLocalVnode = demo_node, clNumSuccessors = 2\<rparr>"

subsection \<open>The transports together\<close>

text \<open>The TCP transport as the remote transport of a local one.\<close>

definition via_tcp :: "('r, 's) tcp_call \<Rightarrow> ('r, 'w process \<times> TCPTransport \<times> 's) state_call" where
  "via_tcp m = (\<lambda>(p, t, s). go_bind (m t s) (\<lambda>(r, t', s'). Ret (r, (p, t', s'))))"

lemma LT_call_remote:
  assumes "LT_get lt target = None" "\<exists>t'. m t s = Ret (r, t', s')"
  shows "\<exists>t'. LT_call lt target call (via_tcp m) (q, t, s) = Ret (r, (q, t', s'))"
  using assms by (cases r) (auto simp: LT_call_def via_tcp_def)

text \<open>C25: Where a vnode runs makes no difference to its callers: when the network does its part, a call through the local
  transport to a vnode of another process has the result, and the effect on that vnode, of the direct
  call; an error arrives in its form on the wire, with zero results. A read lock is recorded under the
  first vnode of the caller's registry and its address instead of the node id given.\<close>

theorem remote_calls_match_local_calls:
  assumes w: "pool_open t" "wDial wire (Host target) = Inr sock" "wFault wire = NoFault"
      "wServer wire (Host target) = handle_request env reg" "TCP_get reg target = Some obj" and "LT_get lt target = None"
  shows "(invoke obj (vn_Get k version) p = Ret (res, p1) \<longrightarrow>
      (\<exists>t'. LT_Get lt (\<lambda>v k n. via_tcp (TCP_Get wire v k n)) target k version (q, t, p) = Ret (wired [] res, (q, t', p1)))) \<and>
    (invoke obj (vn_Set env k version val) p = Ret (res2, p2) \<longrightarrow>
      (\<exists>t'. LT_Set env lt (\<lambda>v k n a. via_tcp (TCP_Set wire v k n a)) target k version val (q, t, p) = Ret (wired () res2, (q, t', p2)))) \<and>
    (invoke obj (vn_WLock env k version timeout node e) p = Ret (res3, p3) \<longrightarrow>
      (\<exists>t'. LT_WLock env lt (\<lambda>v k n d i e. via_tcp (TCP_WLock wire v k n d i e)) target k version timeout node e (q, t, p)
        = Ret (wired ([], 0, 0, 0) res3, (q, t', p3)))) \<and>
    (invoke obj (vn_CommitWLock env k version node e) p = Ret (res4, p4) \<longrightarrow>
      (\<exists>t'. LT_CommitWLock env lt (\<lambda>v k n i e. via_tcp (TCP_CommitWLock wire v k n i e)) target k version node e (q, t, p)
        = Ret (wired 0 res4, (q, t', p4)))) \<and>
    (invoke obj (vn_RLock env k (case tLocal t of [] \<Rightarrow> [] | (i, _) # _ \<Rightarrow> i) (tAddr t) e) p = Ret (res5, p5) \<longrightarrow>
      (\<exists>t'. LT_RLock env lt (\<lambda>v k i e. via_tcp (TCP_RLock wire v k i e)) target k node e (q, t, p)
        = Ret (wired ([], 0, 0) res5, (q, t', p5))))"
proof (intro conjI impI)
  note remote = LT_call_remote[OF assms(6)]
  show "\<exists>t'. LT_Get lt (\<lambda>v k n. via_tcp (TCP_Get wire v k n)) target k version (q, t, p) = Ret (wired [] res, (q, t', p1))"
    if "invoke obj (vn_Get k version) p = Ret (res, p1)"
    unfolding LT_Get_def using obj_get.answers[OF w that] by (intro remote) (auto simp: TCP_Get_def)
  show "\<exists>t'. LT_Set env lt (\<lambda>v k n a. via_tcp (TCP_Set wire v k n a)) target k version val (q, t, p) = Ret (wired () res2, (q, t', p2))"
    if "invoke obj (vn_Set env k version val) p = Ret (res2, p2)"
    unfolding LT_Set_def using obj_set.answers[OF w that] by (intro remote) (auto simp: TCP_Set_def)
  show "\<exists>t'. LT_WLock env lt (\<lambda>v k n d i e. via_tcp (TCP_WLock wire v k n d i e)) target k version timeout node e (q, t, p)
        = Ret (wired ([], 0, 0, 0) res3, (q, t', p3))"
    if "invoke obj (vn_WLock env k version timeout node e) p = Ret (res3, p3)"
    unfolding LT_WLock_def using lm_wlock.answers[OF w that] by (intro remote) (auto simp: TCP_WLock_def)
  show "\<exists>t'. LT_CommitWLock env lt (\<lambda>v k n i e. via_tcp (TCP_CommitWLock wire v k n i e)) target k version node e (q, t, p)
        = Ret (wired 0 res4, (q, t', p4))"
    if "invoke obj (vn_CommitWLock env k version node e) p = Ret (res4, p4)"
    unfolding LT_CommitWLock_def using lm_commit.answers[OF w that] by (intro remote) (auto simp: TCP_CommitWLock_def)
  show "\<exists>t'. LT_RLock env lt (\<lambda>v k i e. via_tcp (TCP_RLock wire v k i e)) target k node e (q, t, p)
        = Ret (wired ([], 0, 0) res5, (q, t', p5))"
    if "invoke obj (vn_RLock env k (case tLocal t of [] \<Rightarrow> [] | (i, _) # _ \<Rightarrow> i) (tAddr t) e) p = Ret (res5, p5)"
    unfolding LT_RLock_def using lm_rlock.answers[OF w that] by (intro remote) (auto simp: TCP_RLock_def)
qed

theorem remote_calls_match_local_calls_witness:
  "\<exists>res p1 t'. invoke 0 (vn_Get ''x'' 1) demo_server = Ret (res, p1) \<and>
     LT_Get InitLocalTransport (\<lambda>v k n. via_tcp (TCP_Get demo_wire v k n)) demo_node ''x'' 1 (demo_server, demo_transport, demo_server)
       = Ret (wired [] res, (demo_server, t', p1))"
proof -
  obtain res p1 where r: "invoke 0 (vn_Get ''x'' 1) demo_server = Ret (res, p1)"
    by (simp add: invoke_def vn_Get_def demo_server_def)
  have w: "wDial demo_wire (Host demo_node) = Inr 1" "wFault demo_wire = NoFault"
    "wServer demo_wire (Host demo_node) = handle_request demo_rpc demo_reg" "TCP_get demo_reg demo_node = Some 0"
    "LT_get InitLocalTransport demo_node = None"
    by (simp_all add: demo_wire_def demo_reg_def TCP_get_def TCP_Register_def LT_get_def InitLocalTransport_def)
  show ?thesis using remote_calls_match_local_calls[OF demo_transport_open w, THEN conjunct1, THEN mp, OF r] r by blast
qed

subsection \<open>A lock manager that cannot be reached\<close>

lemma networkCall_unreachable:
  assumes "pool_open t" "pool_list t h = []" "wDial wire h = Inl e"
  shows "networkCall wire h req t s = Ret ((Some e, None), t, s)"
  using assms by (simp add: networkCall_def getConn_def pool_open_def)

text \<open>C36: A commit that never left the process is reported as a success: when the lock manager cannot be reached,
  \<open>CommitWLock\<close> of the TCP transport returns no error, so the lock client drops its write lock and tells its
  caller that the version is committed. A read lock asked for in the same situation is \<open>granted\<close> as version
  zero and cached. A write lock reports the error.\<close>

theorem lost_commit_reported_as_success:
  assumes "pool_open t" "pool_list t (Host v) = []" "wDial wire (Host v) = Inl e"
    and "clLookup env NUM_LM_REPLICA (string_bytes (clRingId env)) (t, s) = ((Some v # vs, None), (t, s))"
    and "\<And>res t' s'. TCP_CommitWLock wire v k version (String (clLocalVnode env)) None t s = Ret (res, t', s') \<Longrightarrow>
      clCommitWLock env v k version (String (clLocalVnode env)) (t, s) = (res, (t', s'))"
    and "\<And>lock ver cp err t' s'. TCP_RLock wire v k [] None t s = Ret (((lock, ver, cp), err), t', s') \<Longrightarrow>
      clRLock env v k (String (clLocalVnode env)) (t, s) = ((lock, ver, cp, err), (t', s'))"
    and "map_of (cWLocks lm) k \<noteq> None" "map_of (cRLocks lm) k = None"
  shows "TCP_WLock wire v k version timeout node None t s = Ret ((([], 0, 0, 0), Some e), t, s) \<and>
    LMC_CommitWLock env lm k version (t, s) =
      Ret (None, lm\<lparr>cWLocks := AList.delete k (cWLocks lm), cRLocks := AList.delete k (cRLocks lm)\<rparr>, (t, s)) \<and>
    LMC_RLock env lm k False (t, s) =
      Ret ((0, None), lm\<lparr>cRLocks := AList.update k \<lparr>rv_lockID = [], rv_version = 0\<rparr> (cRLocks lm)\<rparr>, (t, s))"
proof -
  note un = networkCall_unreachable[OF assms(1-3)]
  have "clCommitWLock env v k version (String (clLocalVnode env)) (t, s) = ((0, None), (t, s))"
    by (rule assms(5)) (simp add: TCP_CommitWLock_def un answer_resp_def)
  moreover have "clRLock env v k (String (clLocalVnode env)) (t, s) = (([], 0, 0, None), (t, s))"
    by (rule assms(6)) (simp add: TCP_RLock_def un answer_resp_def)
  ultimately show ?thesis using assms(4,7,8)
    by (simp add: TCP_WLock_def un answer_or_def LMC_CommitWLock_def LMC_RLock_def with_manager_def getLManagerReplicas_def)
qed

theorem lost_commit_reported_as_success_witness:
  "\<exists>lm'. LMC_CommitWLock demo_tcp_client \<lparr>cRLocks = [], cWLocks = [(''x'', \<lparr>wv_lockID = ''l'', wv_version = 4, wv_timeout = 10\<rparr>)]\<rparr>
     ''x'' 4 (demo_transport, ()) = Ret (None, lm', (demo_transport, ()))"
proof -
  have p: "pool_list demo_transport (Host demo_node) = []" by (simp add: pool_list_def demo_transport_def)
  have d: "wDial demo_unreachable (Host demo_node) = Inl (StringError ''refused'')" by (simp add: demo_unreachable_def)
  show ?thesis
    using lost_commit_reported_as_success[OF demo_transport_open p d, of demo_tcp_client "()" "[]" "''x''" 4
        "\<lparr>cRLocks = [], cWLocks = [(''x'', \<lparr>wv_lockID = ''l'', wv_version = 4, wv_timeout = 10\<rparr>)]\<rparr>" 10 "[]"]
    by (auto simp: demo_tcp_client_def)
qed

subsection \<open>Invalidation of read locks\<close>

text \<open>A registry as \<open>Register\<close> builds it, for identifiers of one length.\<close>

definition registry_ok :: "nat \<Rightarrow> registry \<Rightarrow> bool" where
  "registry_ok L reg \<longleftrightarrow> (\<forall>(key, r) \<in> set reg. key = String (lrVnode r) \<and> length (Id (lrVnode r)) = L)"

lemma hex_of_hex_unknown:
  assumes "registry_ok L reg" "length (Id v) = L" "0 < L"
  shows "TCP_get reg \<lparr>Id = string_bytes (String v), Host = a\<rparr> = None"
proof -
  have "key \<noteq> hex_encode (string_bytes (hex_encode (Id v)))" if "key \<in> fst ` set reg" for key
  proof -
    have "length key = 2 * L" using that assms(1) by (auto simp: registry_ok_def String_def)
    moreover have "length (hex_encode (string_bytes (hex_encode (Id v)))) = 4 * L" using assms(2) by (simp add: string_bytes_def)
    ultimately show ?thesis using assms(3) by auto
  qed
  then show ?thesis by (auto simp: TCP_get_def String_def map_of_eq_None_iff)
qed

text \<open>C37: Invalidations reach the readers of the same process only. A commit names a reader by the bytes of the hexadecimal text of
  its identifier. The local transport looks for these bytes and finds the reader; the server at another
  host prints them in hexadecimal once more, finds nothing, answers with an error, and the
  reader's cache keeps the old version.\<close>

theorem invalidation_reaches_local_readers_only:
  assumes "registry_ok L reg" "length (Id v) = L" "0 < L" "map_of reg (String v) = Some r"
    and "pool_open t" "wDial wire addr = Inr sock" "wFault wire = NoFault" "wServer wire addr = handle_request env reg"
  shows "LT_InvalidateRLock \<lparr>ltHost = h, ltLocal = reg\<rparr> remote \<lparr>Id = string_bytes (String v), Host = addr'\<rparr> lock =
      call_here (lrObj r) (vn_InvalidateRLock lock) \<and>
    (\<exists>e t'. TCP_InvalidateRLock wire \<lparr>Id = string_bytes (String v), Host = addr\<rparr> lock t p = Ret (((), Some e), t', p))"
proof -
  obtain c t1 where c: "getConn (Inr sock) (wNow wire) addr t = Ret (Inr c, t1)" "pool_open t1"
    using getConn_open[OF assms(5) refl] by metis
  obtain t2 where "returnConn (wNow wire) c t1 = Ret t2" using returnConn_open[OF c(2)] by metis
  then show ?thesis using c assms(4-8) hex_of_hex_unknown[OF assms(1-3)]
    by (auto simp: LT_InvalidateRLock_def string_bytes_back TCP_InvalidateRLock_def handle_InvalidateRLock_def wire_error_def
        split: option.splits go_error.splits)
qed

theorem invalidation_reaches_local_readers_only_witness:
  "\<exists>e t'. TCP_InvalidateRLock demo_wire \<lparr>Id = string_bytes (String demo_node), Host = ''h''\<rparr> ''lock'' demo_transport demo_server
     = Ret (((), Some e), t', demo_server)"
proof -
  have r: "registry_ok (length (Id demo_node)) demo_reg" "0 < length (Id demo_node)"
    "map_of demo_reg (String demo_node) = Some \<lparr>lrVnode = demo_node, lrObj = 0\<rparr>"
    by (simp_all add: registry_ok_def demo_reg_def TCP_Register_def demo_node_def)
  have w: "wDial demo_wire ''h'' = Inr 1" "wFault demo_wire = NoFault" "wServer demo_wire ''h'' = handle_request demo_rpc demo_reg"
    by (simp_all add: demo_wire_def)
  show ?thesis using invalidation_reaches_local_readers_only[OF r(1) refl r(2,3) demo_transport_open w] by blast
qed

end
