(* ===== verification/Transport_Pool.thy ===== *)
theory Transport_Pool
  imports Transport_Calls "HOL-Library.Multiset"
begin

text \<open>
  The connections of the TCP transport: the pool gives back what was put into it, the reaper closes
  the idle connections and keeps the others, and over the whole life of a transport no connection is
  used by two calls or used after it was closed.
\<close>

subsection \<open>Connections\<close>

text \<open>Giving a connection back and asking for its host returns the same connection and leaves the pool as it was.\<close>

theorem pooled_connection_is_reused:
  assumes "pool_open t"
  shows "\<exists>t1 t2. returnConn now c t = Ret t1 \<and> getConn dial now2 (oc_host c) t1 = Ret (Inr (c\<lparr>oc_used := now2\<rparr>), t2) \<and>
    (\<forall>h. pool_list t2 h = pool_list t h)"
proof -
  obtain t1 where t1: "set_pool t (oc_host c) (pool_list t (oc_host c) @ [Some (c\<lparr>oc_used := now\<rparr>)]) = Ret t1" "pool_open t1"
    "\<And>h. pool_list t1 h = (if h = oc_host c then pool_list t h @ [Some (c\<lparr>oc_used := now\<rparr>)] else pool_list t h)"
    using set_pool_open[OF assms] by metis
  obtain t2 where t2: "set_pool t1 (oc_host c) (pool_list t (oc_host c)) = Ret t2"
    "\<And>h. pool_list t2 h = (if h = oc_host c then pool_list t (oc_host c) else pool_list t1 h)"
    using set_pool_open[OF t1(2)] by metis
  have "returnConn now c t = Ret t1" using assms t1(1) by (simp add: returnConn_def pool_open_def)
  moreover have "getConn dial now2 (oc_host c) t1 = Ret (Inr (c\<lparr>oc_used := now2\<rparr>), t2)"
    using t1(2,3) t2(1) by (simp add: getConn_def pool_open_def)
  moreover have "pool_list t2 h = pool_list t h" for h using t1(3) t2(2) by simp
  ultimately show ?thesis by blast
qed

text \<open>What the reaper keeps of a slice.\<close>

definition fresh_conn :: "int \<Rightarrow> int \<Rightarrow> tcpOutConn option \<Rightarrow> bool" where
  "fresh_conn now maxIdle out = (case out of None \<Rightarrow> True | Some c \<Rightarrow> now - oc_used c \<le> maxIdle)"

definition conn_sock :: "tcpOutConn option \<Rightarrow> nat" where
  "conn_sock out = oc_sock (the out)"

lemma conn_sock_Some [simp]: "conn_sock (Some c) = oc_sock c"
  by (simp add: conn_sock_def)

lemma mset_swap_out:
  assumes "i < m" "m \<le> length xs"
  shows "mset (take (m - 1) (xs[i := xs ! (m - 1), m - 1 := y])) = mset (take m xs) - {#xs ! i#}"
proof -
  define k where "k = m - 1"
  have k: "m = Suc k" "k < length xs" using assms k_def by auto
  have tk: "take m xs = take k xs @ [xs ! k]" using k by (simp add: take_Suc_conv_app_nth)
  have "take k (xs[i := xs ! k, k := y]) = (take k xs)[i := xs ! k]"
    by (simp add: take_update_swap list_update_beyond)
  moreover have "mset ((take k xs)[i := xs ! k]) = mset (take m xs) - {#xs ! i#}"
  proof (cases "i < k")
    case True
    then have "xs ! i \<in># mset (take k xs)" using k by (auto simp: in_set_conv_nth intro!: exI[of _ i])
    then show ?thesis using k tk True by (simp add: mset_update)
  next
    case False
    then have "i = k" using assms k by simp
    then show ?thesis using k tk by (simp add: list_update_beyond)
  qed
  ultimately show ?thesis using k_def by simp
qed

text \<open>Closing connection \<open>i\<close> takes it out of the part that is still to be looked at.\<close>

lemma close_conn:
  assumes "i < m" "m \<le> length conns" "None \<notin> set (take m conns)" "conns ! i = Some c" "\<forall>j < i. P (conns ! j)"
  defines "cs \<equiv> conns[i := conns ! (m - 1), m - 1 := None]"
  obtains M where "mset (take m conns) = add_mset (Some c) M" "mset (take (m - 1) cs) = M"
    "None \<notin> set (take (m - 1) cs)" "\<forall>j < i. P (cs ! j)" "m - 1 \<le> length cs"
proof -
  have ms: "mset (take (m - 1) cs) = mset (take m conns) - {#Some c#}"
    unfolding cs_def using mset_swap_out[OF assms(1,2), of None] assms(4) by simp
  have "conns ! i \<in> set (take m conns)" using assms(1,2) by (auto simp: in_set_conv_nth intro!: exI[of _ i])
  then have "Some c \<in># mset (take m conns)" using assms(4) by simp
  then have add: "mset (take m conns) = add_mset (Some c) (mset (take (m - 1) cs))" using ms by simp
  then have "set (take (m - 1) cs) \<subseteq> set (take m conns)" by (metis set_mset_add_mset_insert set_mset_mset subset_insertI)
  then have "None \<notin> set (take (m - 1) cs)" using assms(3) by blast
  moreover have "\<forall>j < i. P (cs ! j)" "m - 1 \<le> length cs" using assms(1,2,5) by (auto simp: cs_def)
  ultimately show ?thesis using that[OF add refl] by blast
qed

lemma reap_loop_keeps_fresh:
  assumes "m \<le> length conns" "i \<le> m" "None \<notin> set (take m conns)" "\<forall>j < i. fresh_conn now mx (conns ! j)"
  shows "\<exists>l cl. reap_loop now mx conns i m closed = Ret (l, cl) \<and>
    mset l = filter_mset (fresh_conn now mx) (mset (take m conns)) \<and>
    mset cl = mset closed + image_mset conn_sock (filter_mset (\<lambda>out. \<not> fresh_conn now mx out) (mset (take m conns)))"
  using assms
proof (induction now mx conns i m closed rule: reap_loop.induct)
  case (1 now mx conns i m closed)
  show ?case
  proof (cases "i < m")
    case False
    then have all: "\<forall>x \<in> set (take m conns). fresh_conn now mx x" using 1(3-6) by (auto simp: in_set_conv_nth)
    have "filter_mset (\<lambda>out. \<not> fresh_conn now mx out) (mset (take m conns)) = {#}"
      using all by (simp flip: mset_filter add: filter_empty_conv)
    moreover have "filter_mset (fresh_conn now mx) (mset (take m conns)) = mset (take m conns)"
      using all by (simp flip: mset_filter)
    ultimately show ?thesis using False by (subst reap_loop.simps) simp
  next
    case True
    then have "conns ! i \<in> set (take m conns)" using 1(3) by (auto simp: in_set_conv_nth intro!: exI[of _ i])
    then obtain c where c: "conns ! i = Some c" using 1(5) by (metis option.exhaust)
    show ?thesis
    proof (cases "now - oc_used c > mx")
      case idle: True
      let ?cs = "conns[i := conns ! (m - 1), m - 1 := None]"
      obtain M where M: "mset (take m conns) = add_mset (Some c) M" "mset (take (m - 1) ?cs) = M"
        "None \<notin> set (take (m - 1) ?cs)" "\<forall>j < i. fresh_conn now mx (?cs ! j)" "m - 1 \<le> length ?cs"
        using close_conn[OF True 1(3,5) c 1(6)] by metis
      have "reap_loop now mx conns i m closed = reap_loop now mx ?cs i (m - 1) (oc_sock c # closed)"
        using True c idle by (subst reap_loop.simps) simp
      moreover have "\<not> fresh_conn now mx (Some c)" using idle by (simp add: fresh_conn_def)
      ultimately show ?thesis using 1(1)[OF True c idle M(5) _ M(3,4)] True M(1,2) by simp
    next
      case fresh: False
      then have "\<forall>j < i + 1. fresh_conn now mx (conns ! j)" using 1(6) c by (auto simp: less_Suc_eq fresh_conn_def)
      then have IH: "\<exists>l cl. reap_loop now mx conns (i + 1) m closed = Ret (l, cl) \<and>
          mset l = filter_mset (fresh_conn now mx) (mset (take m conns)) \<and>
          mset cl = mset closed + image_mset conn_sock (filter_mset (\<lambda>out. \<not> fresh_conn now mx out) (mset (take m conns)))"
        using 1(2)[OF True c fresh 1(3)] True 1(5) by simp
      have "reap_loop now mx conns i m closed = reap_loop now mx conns (i + 1) m closed"
        using True c fresh by (subst reap_loop.simps) simp
      then show ?thesis using IH by simp
    qed
  qed
qed

definition pool_all :: "TCPTransport \<Rightarrow> tcpOutConn option list" where
  "pool_all t = (case tPool t of None \<Rightarrow> [] | Some m \<Rightarrow> concat (map snd m))"

lemma pool_list_subset: "set (pool_list t h) \<subseteq> set (pool_all t)"
proof (cases "tPool t")
  case (Some m)
  then show ?thesis by (cases "map_of m h") (force simp: pool_list_def pool_all_def dest: map_of_SomeD)+
qed (simp add: pool_list_def)

text \<open>What one run of the reaper does to the map and to the closed sockets.\<close>

definition reaped :: "int \<Rightarrow> int \<Rightarrow> (string \<times> tcpOutConn option list) list \<Rightarrow> nat list
    \<Rightarrow> (string \<times> tcpOutConn option list) list \<times> nat list \<Rightarrow> bool" where
  "reaped now mx m closed res \<longleftrightarrow>
     (\<forall>h. rel_option (\<lambda>l l'. mset l' = filter_mset (fresh_conn now mx) (mset l)) (map_of m h) (map_of (fst res) h)) \<and>
     mset (concat (map snd (fst res))) = filter_mset (fresh_conn now mx) (mset (concat (map snd m))) \<and>
     mset (snd res) = mset closed + image_mset conn_sock (filter_mset (\<lambda>out. \<not> fresh_conn now mx out) (mset (concat (map snd m))))"

lemma reap_hosts_keep_fresh:
  assumes "None \<notin> set (concat (map snd m))"
  shows "\<exists>res. reap_hosts now mx m closed = Ret res \<and> reaped now mx m closed res"
  using assms
proof (induction now mx m closed rule: reap_hosts.induct)
  case (2 now mx h l m closed)
  obtain l' cl where l: "reap_loop now mx l 0 (length l) closed = Ret (l', cl)"
    "mset l' = filter_mset (fresh_conn now mx) (mset l)"
    "mset cl = mset closed + image_mset conn_sock (filter_mset (\<lambda>out. \<not> fresh_conn now mx out) (mset l))"
    using reap_loop_keeps_fresh[of "length l" l 0 now mx closed] 2(2) by auto
  obtain m' cl' where m': "reap_hosts now mx m cl = Ret (m', cl')" "reaped now mx m cl (m', cl')"
    using 2(1)[of cl] 2(2) by auto
  have "reap_hosts now mx ((h, l) # m) closed = Ret ((h, l') # m', cl')" using l(1) m'(1) by simp
  moreover have "reaped now mx ((h, l) # m) closed ((h, l') # m', cl')"
    using m'(2) l(2,3) by (simp add: reaped_def ac_simps)
  ultimately show ?case by blast
qed (simp add: reaped_def)

lemma reapOnce_returns:
  assumes "None \<notin> set (pool_all t)"
  obtains m' cl where "reapOnce now t = Ret (t\<lparr>tPool := map_option (\<lambda>_. m') (tPool t), tClosed := cl\<rparr>)"
    "reaped now (tMaxIdle t) (case tPool t of None \<Rightarrow> [] | Some m \<Rightarrow> m) (tClosed t) (m', cl)"
proof (cases "tPool t")
  case None
  then have "reapOnce now t = Ret (t\<lparr>tPool := map_option (\<lambda>_. []) (tPool t), tClosed := tClosed t\<rparr>)" by (simp add: reapOnce_def)
  then show ?thesis by (rule that) (simp add: None reaped_def)
next
  case (Some m)
  then have "None \<notin> set (concat (map snd m))" using assms by (simp add: pool_all_def)
  from reap_hosts_keep_fresh[OF this] obtain m' cl where "reap_hosts now (tMaxIdle t) m (tClosed t) = Ret (m', cl)"
    "reaped now (tMaxIdle t) m (tClosed t) (m', cl)" by (metis surj_pair)
  then show ?thesis using Some that by (simp add: reapOnce_def)
qed

text \<open>
  The life of the connections of a transport: calls take and give back connections (or lose them, when encoding
  fails or the call times out), the reaper runs, inbound connections come and go, the transport shuts
  down. The state has the connections that calls hold at the moment. A new socket is one that is not in
  the transport's hands yet.
\<close>

definition sockets :: "TCPTransport \<times> tcpOutConn list \<Rightarrow> nat list" where
  "sockets st = map conn_sock (pool_all (fst st)) @ map oc_sock (snd st)"

definition known_socket :: "TCPTransport \<times> tcpOutConn list \<Rightarrow> nat \<Rightarrow> bool" where
  "known_socket st s \<longleftrightarrow> s \<in> set (sockets st) \<union> set (tClosed (fst st)) \<union> set (tInbound (fst st))"

inductive conn_step :: "TCPTransport \<times> tcpOutConn list \<Rightarrow> TCPTransport \<times> tcpOutConn list \<Rightarrow> bool" where
  take_conn: "getConn dial now h t = Ret (res, t') \<Longrightarrow> (\<And>s. dial = Inr s \<Longrightarrow> \<not> known_socket (t, used) s) \<Longrightarrow>
    conn_step (t, used) (t', (case res of Inl e \<Rightarrow> used | Inr c \<Rightarrow> c # used))"
| give_conn: "c \<in> set used \<Longrightarrow> returnConn now c t = Ret t' \<Longrightarrow> conn_step (t, used) (t', remove1 c used)"
| lose_conn: "c \<in> set used \<Longrightarrow> conn_step (t, used) (t, remove1 c used)"
| reap: "reapOnce now t = Ret t' \<Longrightarrow> conn_step (t, used) (t', used)"
| shut: "TCP_Shutdown t = Ret t' \<Longrightarrow> conn_step (t, used) (t', used)"
| accept: "\<not> known_socket (t, used) conn \<Longrightarrow> listen_round (Inr conn) t = (go_on, h, t') \<Longrightarrow> conn_step (t, used) (t', used)"
| serve_conn: "conn \<in> set (tInbound t) \<Longrightarrow> handleConn (env :: unit rpc_env) conn frames t p = Ret (rs, t', p') \<Longrightarrow> conn_step (t, used) (t', used)"

definition conn_inv :: "TCPTransport \<times> tcpOutConn list \<Rightarrow> bool" where
  "conn_inv st \<longleftrightarrow> None \<notin> set (pool_all (fst st)) \<and> distinct (sockets st) \<and>
     set (sockets st) \<inter> (set (tClosed (fst st)) \<union> set (tInbound (fst st))) = {} \<and>
     (tPool (fst st) = None \<longrightarrow> tShutdown (fst st)) \<and>
     (\<forall>h c. Some c \<in> set (pool_list (fst st) h) \<longrightarrow> oc_host c = h)"

text \<open>Sockets that leave the pool or the callers' hands may be closed.\<close>

lemma sockets_released:
  assumes "conn_inv st" "mset (sockets st') + X = mset (sockets st)"
    and "set (tClosed (fst st')) \<union> set (tInbound (fst st')) \<subseteq> set (tClosed (fst st)) \<union> set (tInbound (fst st)) \<union> set_mset X"
  shows "distinct (sockets st')" "set (sockets st') \<inter> (set (tClosed (fst st')) \<union> set (tInbound (fst st'))) = {}"
proof -
  obtain xs where X: "X = mset xs" by (metis ex_mset)
  then have "mset (sockets st' @ xs) = mset (sockets st)" using assms(2) by simp
  then have d: "distinct (sockets st' @ xs)" "set (sockets st' @ xs) = set (sockets st)"
    using assms(1) mset_eq_imp_distinct_iff mset_eq_setD unfolding conn_inv_def by blast+
  then show "distinct (sockets st')" by simp
  show "set (sockets st') \<inter> (set (tClosed (fst st')) \<union> set (tInbound (fst st'))) = {}"
  proof -
    have "set (sockets st) \<inter> (set (tClosed (fst st)) \<union> set (tInbound (fst st))) = {}" using assms(1) by (simp add: conn_inv_def)
    moreover have "set (sockets st') \<inter> set_mset X = {}" "set (sockets st') \<subseteq> set (sockets st)" using d X by auto
    ultimately show ?thesis using assms(3) by blast
  qed
qed

lemma conn_inv_release:
  assumes "conn_inv st" "mset (sockets st') + X = mset (sockets st)"
    and "set (tClosed (fst st')) \<union> set (tInbound (fst st')) \<subseteq> set (tClosed (fst st)) \<union> set (tInbound (fst st)) \<union> set_mset X"
    and "None \<notin> set (pool_all (fst st'))" "tPool (fst st') = None \<Longrightarrow> tShutdown (fst st')"
    and "\<And>h c. Some c \<in> set (pool_list (fst st') h) \<Longrightarrow> oc_host c = h"
  shows "conn_inv st'"
  using assms(4-6) sockets_released[OF assms(1-3)] by (auto simp: conn_inv_def)

lemma conn_inv_D:
  assumes "conn_inv (t, used)"
  shows "None \<notin> set (pool_all t)" "tPool t = None \<Longrightarrow> tShutdown t" "Some c \<in> set (pool_list t h) \<Longrightarrow> oc_host c = h"
  using assms by (auto simp: conn_inv_def)

lemma sockets_remove1:
  "c \<in> set used \<Longrightarrow> mset (sockets (t, used)) = add_mset (oc_sock c) (mset (sockets (t, remove1 c used)))"
  by (auto simp: sockets_def remove1_append dest!: split_list_first)

lemma pool_other_fields [simp]:
  "pool_all (t\<lparr>tInbound := i\<rparr>) = pool_all t" "pool_all (t\<lparr>tClosed := cl\<rparr>) = pool_all t"
  "pool_list (t\<lparr>tInbound := i\<rparr>) h = pool_list t h" "pool_list (t\<lparr>tClosed := cl\<rparr>) h = pool_list t h"
  "sockets (t\<lparr>tInbound := i\<rparr>, used) = sockets (t, used)" "sockets (t\<lparr>tClosed := cl\<rparr>, used) = sockets (t, used)"
  by (simp_all add: pool_all_def pool_list_def sockets_def)

lemma mset_pool_update:
  "mset (concat (map snd (AList.update h l m))) + mset (case map_of m h of None \<Rightarrow> [] | Some l \<Rightarrow> l)
     = mset (concat (map snd m)) + mset l"
  by (induction m) (auto simp: ac_simps split: option.splits)

lemma set_pool_parts:
  assumes "set_pool t h l = Ret t'"
  shows "mset (pool_all t') + mset (pool_list t h) = mset (pool_all t) + mset l"
    "\<And>h'. pool_list t' h' = (if h' = h then l else pool_list t h')" "tPool t' \<noteq> None"
    "tClosed t' = tClosed t" "tInbound t' = tInbound t" "tShutdown t' = tShutdown t"
proof -
  obtain m where m: "tPool t = Some m" "t' = t\<lparr>tPool := Some (AList.update h l m)\<rparr>"
    using assms by (auto simp: set_pool_def split: option.splits)
  then show "mset (pool_all t') + mset (pool_list t h) = mset (pool_all t) + mset l"
    using mset_pool_update[of h l m] by (simp add: pool_all_def pool_list_def)
  show "pool_list t' h' = (if h' = h then l else pool_list t h')" for h' using m by (simp add: pool_list_def update_conv')
  show "tPool t' \<noteq> None" "tClosed t' = tClosed t" "tInbound t' = tInbound t" "tShutdown t' = tShutdown t" using m by simp_all
qed

lemma getConn_inv:
  assumes inv: "conn_inv (t, used)" and g: "getConn dial now h t = Ret (res, t')"
    and fresh: "\<And>s. dial = Inr s \<Longrightarrow> \<not> known_socket (t, used) s"
  shows "conn_inv (t', (case res of Inl e \<Rightarrow> used | Inr c \<Rightarrow> c # used)) \<and> (\<forall>c. res = Inr c \<longrightarrow> oc_host c = h)"
proof (cases "tShutdown t \<or> pool_list t h = []")
  case True
  then show ?thesis using inv g fresh
    by (auto simp: getConn_def conn_inv_def sockets_def known_socket_def split: sum.splits if_splits)
next
  case False
  then obtain t1 where t1: "set_pool t h (butlast (pool_list t h)) = Ret t1" using g by (auto simp: getConn_def Let_def)
  have last: "last (pool_list t h) \<in> set (pool_list t h)" using False by simp
  then obtain c where c: "last (pool_list t h) = Some c" "oc_host c = h"
    using inv pool_list_subset[of t h] unfolding conn_inv_def by (metis fst_conv option.exhaust subsetD)
  have res: "res = Inr (c\<lparr>oc_used := now\<rparr>)" "t' = t1" using g False t1 c by (auto simp: getConn_def Let_def)
  note p = set_pool_parts[OF t1]
  obtain l where l: "pool_list t h = l @ [Some c]" using False c by (metis append_butlast_last_id)
  then have all: "mset (pool_all t) = add_mset (Some c) (mset (pool_all t1))" using p(1) by simp
  have "conn_inv (t1, c\<lparr>oc_used := now\<rparr> # used)"
  proof (rule conn_inv_release[OF inv, where X = "{#}"])
    show "mset (sockets (t1, c\<lparr>oc_used := now\<rparr> # used)) + {#} = mset (sockets (t, used))" using all by (simp add: sockets_def)
    have "set (pool_all t1) \<subseteq> set (pool_all t)" using all by (metis set_mset_mset subset_insertI set_mset_add_mset_insert)
    then show "None \<notin> set (pool_all (fst (t1, c\<lparr>oc_used := now\<rparr> # used)))" using conn_inv_D(1)[OF inv] by auto
    show "oc_host d = h'" if "Some d \<in> set (pool_list (fst (t1, c\<lparr>oc_used := now\<rparr> # used)) h')" for h' d
      using that p(2)[of h'] conn_inv_D(3)[OF inv, of d h'] by (auto split: if_splits dest: in_set_butlastD)
  qed (use p in auto)
  then show ?thesis using res c(2) by simp
qed

lemma returnConn_inv:
  assumes inv: "conn_inv (t, used)" and c: "c \<in> set used" and r: "returnConn now c t = Ret t'"
  shows "conn_inv (t', remove1 c used)"
proof (cases "tShutdown t")
  case True
  then have t': "t' = t\<lparr>tClosed := oc_sock c # tClosed t\<rparr>" using r by (simp add: returnConn_def)
  show ?thesis
  proof (rule conn_inv_release[OF inv, where X = "{#oc_sock c#}"])
    show "mset (sockets (t', remove1 c used)) + {#oc_sock c#} = mset (sockets (t, used))"
      using sockets_remove1[OF c, of t] t' by (simp add: sockets_def pool_all_def)
  qed (use t' conn_inv_D[OF inv] True in \<open>auto simp: pool_all_def pool_list_def\<close>)
next
  case False
  then have sp: "set_pool t (oc_host c) (pool_list t (oc_host c) @ [Some (c\<lparr>oc_used := now\<rparr>)]) = Ret t'" using r by (simp add: returnConn_def)
  note p = set_pool_parts[OF sp]
  have all: "mset (pool_all t') = add_mset (Some (c\<lparr>oc_used := now\<rparr>)) (mset (pool_all t))" using p(1) by simp
  show ?thesis
  proof (rule conn_inv_release[OF inv, where X = "{#}"])
    show "mset (sockets (t', remove1 c used)) + {#} = mset (sockets (t, used))"
      using sockets_remove1[OF c, of t] all by (simp add: sockets_def)
    show "None \<notin> set (pool_all (fst (t', remove1 c used)))"
      using conn_inv_D(1)[OF inv] arg_cong[OF all, of set_mset] by simp
    show "oc_host d = h'" if "Some d \<in> set (pool_list (fst (t', remove1 c used)) h')" for h' d
      using that p(2)[of h'] conn_inv_D(3)[OF inv, of d h'] by (auto split: if_splits)
  qed (use p in auto)
qed

lemma pool_socks_Ret: "None \<notin> set l \<Longrightarrow> pool_socks l = Ret (map conn_sock l)"
proof (induction l)
  case (Cons a l)
  then show ?case by (cases a) auto
qed simp

lemma TCP_Shutdown_returns:
  "None \<notin> set (pool_all t) \<Longrightarrow> TCP_Shutdown t =
     Ret (t\<lparr>tShutdown := True, tListening := False, tPool := None, tClosed := map conn_sock (pool_all t) @ tInbound t @ tClosed t\<rparr>)"
  by (cases "tPool t") (auto simp: TCP_Shutdown_def pool_all_def pool_socks_Ret)

lemma reapOnce_inv:
  assumes inv: "conn_inv (t, used)" and r: "reapOnce now t = Ret t'"
  shows "conn_inv (t', used)"
proof -
  obtain m' cl where t': "t' = t\<lparr>tPool := map_option (\<lambda>_. m') (tPool t), tClosed := cl\<rparr>"
    and re: "reaped now (tMaxIdle t) (case tPool t of None \<Rightarrow> [] | Some m \<Rightarrow> m) (tClosed t) (m', cl)"
    using reapOnce_returns[OF conn_inv_D(1)[OF inv], of now] r by (metis go.inject(1))
  let ?idle = "filter_mset (\<lambda>out. \<not> fresh_conn now (tMaxIdle t) out) (mset (pool_all t))"
  have all: "mset (pool_all t') = filter_mset (fresh_conn now (tMaxIdle t)) (mset (pool_all t))"
    and cl: "mset cl = mset (tClosed t) + image_mset conn_sock ?idle"
    using re t' by (auto simp: reaped_def pool_all_def split: option.splits)
  have part: "mset (pool_all t) = mset (pool_all t') + ?idle" unfolding all by (rule multiset_partition)
  have hosts: "set (pool_list t' h) \<subseteq> set (pool_list t h)" for h
  proof -
    have "rel_option (\<lambda>l l'. mset l' = filter_mset (fresh_conn now (tMaxIdle t)) (mset l))
        (map_of (case tPool t of None \<Rightarrow> [] | Some m \<Rightarrow> m) h) (map_of m' h)" using re by (simp add: reaped_def)
    then show ?thesis using t'
      by (cases "tPool t"; cases "map_of m' h") (auto simp: pool_list_def option_rel_Some2 dest!: arg_cong[of _ _ set_mset])
  qed
  show ?thesis
  proof (rule conn_inv_release[OF inv, where X = "image_mset conn_sock ?idle"])
    show "mset (sockets (t', used)) + image_mset conn_sock ?idle = mset (sockets (t, used))"
      using arg_cong[OF part, of "image_mset conn_sock"] by (simp add: sockets_def ac_simps)
    show "set (tClosed (fst (t', used))) \<union> set (tInbound (fst (t', used)))
        \<subseteq> set (tClosed (fst (t, used))) \<union> set (tInbound (fst (t, used))) \<union> set_mset (image_mset conn_sock ?idle)"
      using arg_cong[OF cl, of set_mset] t' by auto
    show "None \<notin> set (pool_all (fst (t', used)))"
      using conn_inv_D(1)[OF inv] arg_cong[OF part, of set_mset] by auto
    show "tShutdown (fst (t', used))" if "tPool (fst (t', used)) = None" using that t' conn_inv_D(2)[OF inv] by simp
    show "oc_host c = h" if "Some c \<in> set (pool_list (fst (t', used)) h)" for h c
      using that hosts[of h] conn_inv_D(3)[OF inv] by auto
  qed
qed

lemma conn_step_inv:
  assumes "conn_inv st" "conn_step st st'"
  shows "conn_inv st'"
  using assms(2,1)
proof (cases rule: conn_step.cases)
  case (take_conn dial now h t res t' used)
  then show ?thesis using getConn_inv assms(1) by blast
next
  case (give_conn c used now t t')
  then show ?thesis using returnConn_inv assms(1) by blast
next
  case (lose_conn c used t)
  have inv: "conn_inv (t, used)" using lose_conn assms(1) by simp
  show ?thesis unfolding lose_conn
    by (rule conn_inv_release[OF inv, where X = "{#oc_sock c#}"])
      (use sockets_remove1[OF lose_conn(3), of t] conn_inv_D[OF inv] in auto)
next
  case (reap now t t' used)
  then show ?thesis using reapOnce_inv assms(1) by blast
next
  case (shut t t' used)
  have inv: "conn_inv (t, used)" using shut assms(1) by simp
  have t': "t' = t\<lparr>tShutdown := True, tListening := False, tPool := None, tClosed := map conn_sock (pool_all t) @ tInbound t @ tClosed t\<rparr>"
    using TCP_Shutdown_returns[OF conn_inv_D(1)[OF inv]] shut by simp
  show ?thesis unfolding shut
    by (rule conn_inv_release[OF inv, where X = "mset (map conn_sock (pool_all t))"])
      (auto simp: t' sockets_def pool_all_def pool_list_def)
next
  case (accept t used conn go_on h t')
  then show ?thesis using assms(1) by (auto simp: conn_inv_def listen_round_def known_socket_def)
next
  case (serve_conn conn t env frames p rs t' p' used)
  then show ?thesis using assms(1) by (auto simp: conn_inv_def handleConn_def)
qed

interpretation conns: invariant_system
  "\<lambda>st. \<exists>addr t. InitTCPTransport (Inr addr) = Inr t \<and> st = (t, [])" conn_step conn_inv
proof (unfold_locales, goal_cases)
  case (1 s)
  then show ?case by (auto simp: InitTCPTransport_def conn_inv_def sockets_def pool_all_def pool_list_def)
next
  case (2 s t)
  then show ?case by (rule conn_step_inv)
qed

abbreviation new_transport :: "TCPTransport \<times> tcpOutConn list \<Rightarrow> bool" where
  "new_transport st \<equiv> \<exists>addr t. InitTCPTransport (Inr addr) = Inr t \<and> st = (t, [])"

text \<open>C26: Connections are never shared: in every reachable state of a transport, a socket is in the pool once, or in the
  hands of one call, and it is not closed; none of the operations on the pool panics, and the connection a
  call gets leads to the host it asked for.\<close>

theorem connections_never_shared:
  assumes "reachable new_transport conn_step (t, used)"
  shows "distinct (map conn_sock (pool_all t) @ map oc_sock used) \<and>
    set (map conn_sock (pool_all t) @ map oc_sock used) \<inter> set (tClosed t) = {} \<and>
    returns (getConn dial now h t) \<and> returns (returnConn now c t) \<and> returns (reapOnce now t) \<and> returns (TCP_Shutdown t) \<and>
    (\<forall>c' t'. getConn dial now h t = Ret (Inr c', t') \<longrightarrow> oc_host c' = h)"
proof -
  have inv: "conn_inv (t, used)" using conns.reachable_inv[OF assms] .
  note I = conn_inv_D[OF inv]
  have "returns (getConn dial now h t)" "returns (returnConn now c t)"
    using I(2) by (auto simp: getConn_def returnConn_def set_pool_def Let_def returns_iff pool_list_def split: option.splits sum.splits)
  moreover have "returns (reapOnce now t)" using reapOnce_returns[OF I(1)] by (metis returns.simps(1))
  moreover have "returns (TCP_Shutdown t)" using TCP_Shutdown_returns[OF I(1)] by simp
  moreover have "oc_host c' = h" if g: "getConn dial now h t = Ret (Inr c', t')" for c' t'
  proof (cases "tShutdown t \<or> pool_list t h = []")
    case True
    then show ?thesis using g by (auto simp: getConn_def split: if_splits sum.splits)
  next
    case False
    then have "\<And>y. last (pool_list t h) = Some y \<Longrightarrow> oc_host y = h" using I(3) last_in_set by metis
    then show ?thesis using g False by (auto simp: getConn_def Let_def split: option.splits sum.splits)
  qed
  ultimately show ?thesis using inv by (auto simp: conn_inv_def sockets_def)
qed

text \<open>C27: The reaper, which moves the last connection into the place of one it closes, ends in every reachable state,
  keeps exactly the connections of each host that have been used recently enough, and closes exactly the others.\<close>

theorem reaper_closes_idle_only:
  assumes "reachable new_transport conn_step (t, used)"
  shows "\<exists>t'. reapOnce now t = Ret t' \<and>
    (\<forall>h. mset (pool_list t' h) = filter_mset (fresh_conn now (tMaxIdle t)) (mset (pool_list t h))) \<and>
    mset (tClosed t') = mset (tClosed t) +
      image_mset conn_sock (filter_mset (\<lambda>out. \<not> fresh_conn now (tMaxIdle t) out) (mset (pool_all t)))"
proof -
  have "conn_inv (t, used)" using conns.reachable_inv[OF assms] .
  from reapOnce_returns[OF conn_inv_D(1)[OF this]] obtain m' cl where
    r: "reapOnce now t = Ret (t\<lparr>tPool := map_option (\<lambda>_. m') (tPool t), tClosed := cl\<rparr>)"
    "reaped now (tMaxIdle t) (case tPool t of None \<Rightarrow> [] | Some m \<Rightarrow> m) (tClosed t) (m', cl)" by metis
  have "mset (pool_list (t\<lparr>tPool := map_option (\<lambda>_. m') (tPool t)\<rparr>) h) = filter_mset (fresh_conn now (tMaxIdle t)) (mset (pool_list t h))" for h
  proof (cases "tPool t")
    case (Some m)
    then have "rel_option (\<lambda>l l'. mset l' = filter_mset (fresh_conn now (tMaxIdle t)) (mset l)) (map_of m h) (map_of m' h)"
      using r(2) by (simp add: reaped_def)
    then show ?thesis using Some by (auto simp: pool_list_def elim: option.rel_cases)
  qed (simp add: pool_list_def)
  then show ?thesis using r by (auto simp: reaped_def pool_all_def split: option.splits)
qed

lemma demo_transport_new: "new_transport (demo_transport, [])"
  by (simp add: demo_transport_def InitTCPTransport_def)

lemma demo_taken: "conn_step (demo_transport, []) (demo_transport, [\<lparr>oc_host = ''b'', oc_sock = 3, oc_used = 5\<rparr>])"
proof -
  have g: "getConn (Inr 3) 5 ''b'' demo_transport = Ret (Inr \<lparr>oc_host = ''b'', oc_sock = 3, oc_used = 5\<rparr>, demo_transport)"
    by (simp add: getConn_def demo_transport_def pool_list_def)
  have "\<not> known_socket (demo_transport, []) 3" by (simp add: known_socket_def sockets_def demo_transport_def pool_all_def)
  then show ?thesis using take_conn[OF g] by simp
qed

definition demo_pooled :: TCPTransport where
  "demo_pooled = demo_transport\<lparr>tPool := Some [(''b'', [Some \<lparr>oc_host = ''b'', oc_sock = 3, oc_used = 6\<rparr>])]\<rparr>"

lemma demo_pooled_reachable: "reachable new_transport conn_step (demo_pooled, [])"
proof -
  have "returnConn 6 \<lparr>oc_host = ''b'', oc_sock = 3, oc_used = 5\<rparr> demo_transport = Ret demo_pooled"
    by (simp add: returnConn_def set_pool_def demo_transport_def demo_pooled_def pool_list_def)
  from give_conn[OF _ this, of "[\<lparr>oc_host = ''b'', oc_sock = 3, oc_used = 5\<rparr>]"]
  have "conn_step (demo_transport, [\<lparr>oc_host = ''b'', oc_sock = 3, oc_used = 5\<rparr>]) (demo_pooled, [])" by simp
  moreover have "reachable new_transport conn_step (demo_transport, [])" by (rule reachable_init) (rule demo_transport_new)
  ultimately show ?thesis using demo_taken by (meson reachable_step)
qed

theorem connections_never_shared_witness:
  "returns (getConn (Inr 4) 9 ''b'' demo_pooled) \<and> set (map conn_sock (pool_all demo_pooled) @ map oc_sock []) \<inter> set (tClosed demo_pooled) = {}"
  using connections_never_shared[OF demo_pooled_reachable, of "Inr 4" 9 "''b''" "\<lparr>oc_host = ''b'', oc_sock = 3, oc_used = 5\<rparr>"] by simp

theorem reaper_closes_idle_only_witness:
  "\<exists>t'. reapOnce 200 demo_pooled = Ret t' \<and> mset (tClosed t') = {#3#}"
  using reaper_closes_idle_only[OF demo_pooled_reachable, of 200]
  by (auto simp: demo_pooled_def demo_transport_def pool_all_def fresh_conn_def)

theorem pooled_connection_is_reused_witness:
  "\<exists>t1 t2. returnConn 6 \<lparr>oc_host = ''b'', oc_sock = 3, oc_used = 5\<rparr> demo_transport = Ret t1 \<and>
     getConn (Inr 8) 9 ''b'' t1 = Ret (Inr \<lparr>oc_host = ''b'', oc_sock = 3, oc_used = 9\<rparr>, t2)"
proof -
  have "pool_open demo_transport" by (simp add: pool_open_def demo_transport_def)
  from pooled_connection_is_reused[OF this, of 6 "\<lparr>oc_host = ''b'', oc_sock = 3, oc_used = 5\<rparr>" "Inr 8" 9] show ?thesis by auto
qed

end
