(* ===== verification/Buddy_Store.thy ===== *)
theory Buddy_Store
  imports Transport_Calls
begin

text \<open>
  The outermost layer: how a process finds an address and opens its transport (\<open>util.go\<close>), and the store
  object of \<open>buddystore.go\<close>, which joins or creates the global ring, its own ring and the rings of
  the friends, and hands out clients.
\<close>

subsection \<open>Addresses\<close>

text \<open>A network interface, as far as it is read: each address with its text and whether it is an IPv4 one.\<close>

record net_iface =
  ifLoopback :: bool
  ifHardwareAddr :: string
  ifAddrs :: "(string \<times> bool) list"

fun first_address :: "net_iface list \<Rightarrow> string" where
  "first_address [] = []"
| "first_address (f # fs) =
     (if ifLoopback f then first_address fs
      else case ifAddrs f of
             (addr, True) # _ \<Rightarrow> addr
           | _ \<Rightarrow> first_address fs)"

text \<open>
  \<open>upnp\<close> is what the gateway says about the external address: \<open>None\<close> when there is no gateway, otherwise the
  text it returns, empty on an error, which the code does not look at.
\<close>

definition GetLocalExternalAddresses :: "string option \<Rightarrow> go_error + net_iface list \<Rightarrow> string \<times> string" where
  "GetLocalExternalAddresses upnp ifaces =
     ((case ifaces of Inl err \<Rightarrow> [] | Inr fs \<Rightarrow> first_address fs), (case upnp of None \<Rightarrow> [] | Some addr \<Rightarrow> addr))"

text \<open>\<open>net.JoinHostPort\<close>, and the port that \<open>net.SplitHostPort\<close> returns, empty when it reports an error.\<close>

definition JoinHostPort :: "string \<Rightarrow> string \<Rightarrow> string" where
  "JoinHostPort host port =
     (if CHR '':'' \<in> set host \<or> CHR ''%'' \<in> set host then ''['' @ host @ '']:'' @ port else host @ '':'' @ port)"

definition SplitPort :: "string \<Rightarrow> string" where
  "SplitPort hp =
     (let port = rev (takeWhile (\<lambda>c. c \<noteq> CHR '':'') (rev hp));
          host = take (length hp - length port - 1) hp
      in if CHR '':'' \<notin> set hp \<or> CHR ''['' \<in> set port \<or> CHR '']'' \<in> set port then []
         else case host of
                [] \<Rightarrow> port
              | c # cs \<Rightarrow>
                  if c = CHR ''['' then
                    (if CHR ''['' \<notin> set cs \<and> cs \<noteq> [] \<and> last cs = CHR '']'' \<and> CHR '']'' \<notin> set (butlast cs) then port else [])
                  else if set host \<inter> {CHR '':'', CHR ''['', CHR '']''} = {} then port else [])"

subsection \<open>Opening a transport\<close>

text \<open>
  The loop that tries random ports: \<open>draw i\<close> is the \<open>i\<close>-th random number, \<open>sock i listen\<close> the result of the
  attempt to listen. It has no bound in the code; running out of fuel is a loop that does not end.
\<close>

fun new_listener :: "nat \<Rightarrow> (nat \<Rightarrow> 32 word) \<Rightarrow> (nat \<Rightarrow> string \<Rightarrow> go_error + string) \<Rightarrow> nat \<Rightarrow> (int \<times> string \<times> TCPTransport) go" where
  "new_listener 0 draw sock i = Hang"
| "new_listener (Suc fuel) draw sock i =
     (let port = uint (draw i mod 64512 + 1024); listen = JoinHostPort ''0.0.0.0'' (decimal port)
      in case InitTCPTransport (sock i listen) of
           Inl err \<Rightarrow> new_listener fuel draw sock (i + 1)
         | Inr t \<Rightarrow> Ret (port, listen, t))"

definition advertised_address :: "bool \<Rightarrow> string option \<Rightarrow> go_error + net_iface list \<Rightarrow> string" where
  "advertised_address localOnly upnp ifaces =
     (let (localAddr, externalAddr) = (if localOnly then (''localhost'', ''localhost'') else GetLocalExternalAddresses upnp ifaces)
      in if externalAddr \<noteq> [] then externalAddr else localAddr)"

definition CreateNewTCPTransportWithConfig :: "nat \<Rightarrow> (nat \<Rightarrow> 32 word) \<Rightarrow> (nat \<Rightarrow> string \<Rightarrow> go_error + string) \<Rightarrow> string option
    \<Rightarrow> go_error + net_iface list \<Rightarrow> bool \<Rightarrow> (string \<Rightarrow> Config) \<Rightarrow> (int \<times> TCPTransport \<times> Config) go" where
  "CreateNewTCPTransportWithConfig fuel draw sock upnp ifaces localOnly configGen =
     go_bind (new_listener fuel draw sock 0) (\<lambda>(port, listen, transport).
       Ret (port, transport, (configGen listen)\<lparr>Hostname :=
          JoinHostPort (advertised_address localOnly upnp ifaces) (decimal port)\<rparr>))"

text \<open>The configuration is the default one, with SHA-1, a function of the library.\<close>

definition CreateNewTCPTransport :: "(bytes \<Rightarrow> bytes) \<Rightarrow> nat \<Rightarrow> (nat \<Rightarrow> 32 word) \<Rightarrow> (nat \<Rightarrow> string \<Rightarrow> go_error + string)
    \<Rightarrow> string option \<Rightarrow> go_error + net_iface list \<Rightarrow> bool \<Rightarrow> (int \<times> TCPTransport \<times> Config) go" where
  "CreateNewTCPTransport sha1 fuel draw sock upnp ifaces localOnly =
     CreateNewTCPTransportWithConfig fuel draw sock upnp ifaces localOnly (DefaultConfig sha1)"

subsection \<open>The store object\<close>

record BuddyStoreConfig =
  MyID :: string
  Friends :: "string list"
  LocalOnly :: bool

text \<open>
  A ring held in an interface: no entry is the nil interface, \<open>None\<close> an interface that holds a nil pointer, which is
  what storing the ring of a failed join makes. Both panic when a method reads the ring.
\<close>

record BuddyStore =
  bsConfig :: BuddyStoreConfig
  GlobalRing :: "Ring option"
  SubRings :: "(string \<times> Ring option) list"
  bsTracker :: "Ring option"
  initalized :: bool

definition ENOTINITIALIZED :: int where
  "ENOTINITIALIZED = -1"

definition OK :: int where
  "OK = 0"

definition PEERLEN :: nat where
  "PEERLEN = 6"

text \<open>
  What the store uses of its surroundings: the transport it opens, the network interfaces, SHA-1, the
  query of the public tracker and the printing of peer addresses (third-party packages), \<open>Join\<close> on the new
  transport, and \<open>JoinRing\<close> of the tracker client of a global ring.
\<close>

record 'w store_host =
  shTransport :: "bool \<Rightarrow> 'w \<Rightarrow> ((int \<times> TCPTransport \<times> Config) \<times> 'w) go"
  shIfaces :: "go_error + net_iface list"
  shSha1 :: "bytes \<Rightarrow> bytes"
  shQueryTracker :: "string \<Rightarrow> string \<Rightarrow> int \<Rightarrow> 'w \<Rightarrow> (go_error + string) \<times> 'w"
  shBinaryToDottedPort :: "string \<Rightarrow> string"
  shJoin :: "Config \<Rightarrow> string \<Rightarrow> 'w \<Rightarrow> ((go_error + Ring) \<times> 'w) go"
  shJoinRing :: "Ring \<Rightarrow> string \<Rightarrow> bool \<Rightarrow> 'w \<Rightarrow> ((go_error + Ring) \<times> 'w) go"

definition addRing :: "BuddyStore \<Rightarrow> string \<Rightarrow> Ring option \<Rightarrow> BuddyStore" where
  "addRing bs ringId ring = bs\<lparr>SubRings := AList.update ringId ring (SubRings bs)\<rparr>"

text \<open>The hardware address of the first interface that is not the loopback, if there is one.\<close>

definition peerid_base :: "go_error + net_iface list \<Rightarrow> string \<Rightarrow> string" where
  "peerid_base ifaces myID =
     (case ifaces of
        Inl err \<Rightarrow> myID
      | Inr fs \<Rightarrow> (case filter (\<lambda>f. \<not> ifLoopback f) fs of [] \<Rightarrow> myID | f # _ \<Rightarrow> ifHardwareAddr f))"

definition hex20 :: "(bytes \<Rightarrow> bytes) \<Rightarrow> string \<Rightarrow> string go" where
  "hex20 sha1 text = go_prefix (hex_encode (sha1 (string_bytes text))) 20"

text \<open>The loop over the peers the public tracker names, six bytes each: the ring is the field \<open>GlobalRing\<close>.\<close>

function contact_peers :: "'w store_host \<Rightarrow> int \<Rightarrow> Config \<Rightarrow> string \<Rightarrow> Ring option \<Rightarrow> 'w \<Rightarrow> (Ring option \<times> 'w) go" where
  "contact_peers env port conf peers ring w =
     (if peers = [] then Ret (ring, w)
      else if length peers < PEERLEN then Panic ''slice bounds out of range''
      else
        (let peer = shBinaryToDottedPort env (take PEERLEN peers)
         in if SplitPort peer = decimal port then contact_peers env port conf (drop PEERLEN peers) ring w
            else
              (case shJoin env conf peer w of
                 Ret (Inr r, w1) \<Rightarrow> Ret (Some r, w1)
               | Ret (Inl err, w1) \<Rightarrow> contact_peers env port conf (drop PEERLEN peers) None w1
               | Panic m \<Rightarrow> Panic m
               | Hang \<Rightarrow> Hang)))"
  by pat_completeness auto
termination
  by (relation "measure (\<lambda>(env, port, conf, peers, ring, w). length peers)") (auto simp: PEERLEN_def)

declare contact_peers.simps [simp del]

fun join_friends :: "'w store_host \<Rightarrow> Ring \<Rightarrow> string list \<Rightarrow> BuddyStore \<Rightarrow> 'w \<Rightarrow> (BuddyStore \<times> 'w) go" where
  "join_friends env global [] bs w = Ret (bs, w)"
| "join_friends env global (friend # fs) bs w =
     go_bind (shJoinRing env global friend (LocalOnly (bsConfig bs)) w) (\<lambda>(res, w1).
       join_friends env global fs (case res of Inl err \<Rightarrow> addRing bs friend None | Inr ring \<Rightarrow> bs) w1)"

text \<open>
  \<open>init\<close> in three parts: the own ring, without which it fails, and those of the friends; before that the query of
  the public tracker and the global ring, joined or created; before that the transport and the names it is announced with.
\<close>

definition join_own :: "'w store_host \<Rightarrow> Ring \<Rightarrow> BuddyStore \<Rightarrow> 'w \<Rightarrow> (go_error option \<times> BuddyStore \<times> 'w) go" where
  "join_own env global bs w =
     go_bind (shJoinRing env global (MyID (bsConfig bs)) (LocalOnly (bsConfig bs)) w) (\<lambda>(res, w1).
       case res of
         Inl err \<Rightarrow> Ret (Some err, bs, w1)
       | Inr ring \<Rightarrow>
           go_bind (join_friends env global (Friends (bsConfig bs)) (addRing bs (MyID (bsConfig bs)) (Some ring)) w1)
             (\<lambda>(bs', w2). Ret (None, bs'\<lparr>initalized := True\<rparr>, w2)))"

definition bs_announce :: "'w store_host \<Rightarrow> BuddyStore \<Rightarrow> int \<Rightarrow> Config \<Rightarrow> string \<Rightarrow> string \<Rightarrow> 'w \<Rightarrow> (go_error option \<times> BuddyStore \<times> 'w) go" where
  "bs_announce env bs port conf infohash peerid w =
     (case shQueryTracker env infohash peerid port w of
        (Inl err, w1) \<Rightarrow> Ret (Some err, bs, w1)
      | (Inr peers, w1) \<Rightarrow>
          go_bind (contact_peers env port conf peers (GlobalRing bs) w1) (\<lambda>(ring, w2).
          go_bind (case ring of None \<Rightarrow> Create conf | Some r \<Rightarrow> Ret r) (\<lambda>global.
            join_own env global (bs\<lparr>GlobalRing := Some global, bsTracker := Some global\<rparr>) w2)))"

definition bs_init :: "'w store_host \<Rightarrow> BuddyStore \<Rightarrow> 'w \<Rightarrow> (go_error option \<times> BuddyStore \<times> 'w) go" where
  "bs_init env bs w =
     (if initalized bs then Ret (Some (fmt_Errorf ''Attempting to initialize an already initialized store'' []), bs, w)
      else
        go_bind (shTransport env (LocalOnly (bsConfig bs)) w) (\<lambda>((port, transport, conf), w1).
        go_bind (hex20 (shSha1 env) ''BuddyStore'') (\<lambda>infohash.
        go_bind (hex20 (shSha1 env) (peerid_base (shIfaces env) (MyID (bsConfig bs)))) (\<lambda>peerid.
          bs_announce env bs port conf infohash peerid w1))))"

text \<open>A client is the ring with the lock client of its first vnode.\<close>

definition GetKVClient :: "BuddyStore \<Rightarrow> string \<Rightarrow> ((Ring \<times> LManagerClient) option \<times> int) go" where
  "GetKVClient bs ringId =
     (if \<not> initalized bs then Ret (None, ENOTINITIALIZED)
      else
        go_bind (deref (map_of (SubRings bs) ringId)) (\<lambda>held.
        go_bind (deref held) (\<lambda>ring.
        go_bind (GetLocalLocalVnode ring) (\<lambda>e. Ret (Some (ring, rvClient e), OK)))))"

definition GetMyKVClient :: "BuddyStore \<Rightarrow> ((Ring \<times> LManagerClient) option \<times> int) go" where
  "GetMyKVClient bs = GetKVClient bs (MyID (bsConfig bs))"

definition NewBuddyStore :: "'w store_host \<Rightarrow> BuddyStoreConfig \<Rightarrow> 'w \<Rightarrow> (BuddyStore option \<times> 'w) go" where
  "NewBuddyStore env conf w =
     (if MyID conf = [] then Ret (None, w)
      else
        go_bind (bs_init env \<lparr>bsConfig = conf, GlobalRing = None, SubRings = [], bsTracker = None, initalized = False\<rparr> w)
          (\<lambda>(err, bs, w'). Ret (Some bs, w')))"

subsection \<open>The port of a new transport\<close>

lemma random_port: "1024 \<le> uint ((d :: 32 word) mod 64512 + 1024) \<and> uint (d mod 64512 + 1024) \<le> 65535"
proof -
  have small: "unat (d mod 64512) < 64512" by (simp add: unat_mod_distrib)
  then have "unat (d mod 64512) + unat (1024 :: 32 word) < 2 ^ LENGTH(32)" by simp
  then have "unat (d mod 64512 + 1024) = unat (d mod 64512) + 1024" using unat_add_lem[of "d mod 64512" 1024] by simp
  then have "uint (d mod 64512 + 1024) = int (unat (d mod 64512) + 1024)" by (simp only: uint_nat)
  then show ?thesis using small by linarith
qed

lemma new_listener_port: "new_listener fuel draw sock i = Ret (port, listen, t) \<Longrightarrow> 1024 \<le> port \<and> port \<le> 65535"
proof (induction fuel draw sock i rule: new_listener.induct)
  case (2 fuel draw sock i)
  define q where "q = uint (draw i mod 64512 + 1024)"
  have q: "1024 \<le> q \<and> q \<le> 65535" unfolding q_def by (rule random_port)
  have step: "new_listener (Suc fuel) draw sock i =
    (case InitTCPTransport (sock i (JoinHostPort ''0.0.0.0'' (decimal q))) of
       Inl err \<Rightarrow> new_listener fuel draw sock (i + 1) | Inr t \<Rightarrow> Ret (q, JoinHostPort ''0.0.0.0'' (decimal q), t))"
    unfolding q_def by (simp only: new_listener.simps Let_def)
  show ?case
  proof (cases "InitTCPTransport (sock i (JoinHostPort ''0.0.0.0'' (decimal q)))")
    case (Inl err)
    have "new_listener fuel draw sock (i + 1) = Ret (port, listen, t)" using 2(2) unfolding step Inl by simp
    then show ?thesis using 2(1)[OF q_def refl Inl] by blast
  next
    case (Inr t')
    then show ?thesis using 2(2) q unfolding step by simp
  qed
qed simp

lemma new_listener_ends:
  assumes "\<exists>j < fuel. \<forall>listen. \<exists>addr. sock (i + j) listen = Inr addr"
  shows "\<exists>res. new_listener fuel draw sock i = Ret res"
  using assms
proof (induction fuel arbitrary: i)
  case (Suc fuel)
  then obtain j where j: "j < Suc fuel" "\<forall>listen. \<exists>addr. sock (i + j) listen = Inr addr" by blast
  show ?case
  proof (cases "j = 0")
    case True
    then obtain addr where "sock i (JoinHostPort ''0.0.0.0'' (decimal (uint (draw i mod 64512 + 1024)))) = Inr addr"
      using j(2) by fastforce
    then show ?thesis by (simp add: Let_def InitTCPTransport_def)
  next
    case False
    then have "\<exists>j < fuel. \<forall>listen. \<exists>addr. sock (i + 1 + j) listen = Inr addr"
      using j by (intro exI[of _ "j - 1"]) auto
    from Suc.IH[OF this] show ?thesis by (auto simp: Let_def split: sum.splits)
  qed
qed simp

lemma hex_digit_in: "n < 16 \<Longrightarrow> hex_digit n \<in> set ''0123456789abcdef''"
  unfolding hex_digit_def by (rule nth_mem) simp

lemma decimal_nat_digits: "c \<in> set (decimal_nat n) \<Longrightarrow> \<exists>d < 16. c = hex_digit d"
proof (induction n rule: decimal_nat.induct)
  case (1 n)
  have "n mod 10 < 16" using mod_less_divisor[of 10 n] by linarith
  then show ?case using 1 by (cases "n < 10") (auto simp: decimal_nat.simps[of n] intro: exI[of _ n])
qed

lemma SplitPort_joined:
  assumes "set addr \<inter> {CHR '':'', CHR ''%'', CHR ''['', CHR '']''} = {}" "set port \<inter> {CHR '':'', CHR ''['', CHR '']''} = {}"
  shows "SplitPort (JoinHostPort addr port) = port"
proof -
  have "takeWhile (\<lambda>c. c \<noteq> CHR '':'') (rev port @ CHR '':'' # rev addr) = rev port"
    using assms(2) by (subst takeWhile_append2) auto
  then show ?thesis using assms by (cases addr) (auto simp: SplitPort_def JoinHostPort_def Let_def)
qed

text \<open>C33: A new transport gets a port a program may use, between 1024 and 65535, whatever the random numbers are; it gets one as soon as an
  attempt to listen succeeds; and the host name that goes to the other members names that port, so that the store
  recognises its own entry in the public tracker's list.\<close>

theorem transport_port_in_range:
  assumes "j < fuel" "\<And>listen. \<exists>addr. sock j listen = Inr addr"
    and "set (advertised_address localOnly upnp ifaces) \<inter> {CHR '':'', CHR ''%'', CHR ''['', CHR '']''} = {}"
  shows "\<exists>port t conf. CreateNewTCPTransportWithConfig fuel draw sock upnp ifaces localOnly gen = Ret (port, t, conf) \<and>
    1024 \<le> port \<and> port \<le> 65535 \<and> SplitPort (Hostname conf) = decimal port"
proof -
  obtain port listen t where l: "new_listener fuel draw sock 0 = Ret (port, listen, t)"
    using new_listener_ends[of fuel sock 0 draw] assms(1,2) by auto
  have p: "1024 \<le> port \<and> port \<le> 65535" using new_listener_port[OF l] .
  have "set (decimal port) \<inter> {CHR '':'', CHR ''['', CHR '']''} = {}"
    using decimal_nat_digits[of _ "nat port"] hex_digit_in p by (fastforce simp: decimal_def)
  then show ?thesis using l p SplitPort_joined[OF assms(3)] by (simp add: CreateNewTCPTransportWithConfig_def)
qed

theorem transport_port_in_range_witness:
  "\<exists>port t conf. CreateNewTCPTransportWithConfig 1 (\<lambda>i. 70000) (\<lambda>i l. Inr l) None (Inr []) True (DefaultConfig id) = Ret (port, t, conf) \<and>
     1024 \<le> port \<and> port \<le> 65535"
  using transport_port_in_range[of 0 1 "\<lambda>i l. Inr l" True None "Inr []" "\<lambda>i. 70000" "DefaultConfig id"]
  by (auto simp: advertised_address_def)

subsection \<open>The rings of the store\<close>

lemma join_friends_keeps:
  "join_friends env global fs bs w = Ret (bs', w') \<Longrightarrow>
     bsConfig bs' = bsConfig bs \<and>
     (\<forall>k. map_of (SubRings bs') k = map_of (SubRings bs) k \<or> (k \<in> set fs \<and> map_of (SubRings bs') k = Some None))"
proof (induction fs arbitrary: bs w)
  case (Cons friend fs)
  then obtain res :: "go_error + Ring" and w1 where
    r: "join_friends env global fs (case res of Inl err \<Rightarrow> addRing bs friend None | Inr ring \<Rightarrow> bs) w1 = Ret (bs', w')"
    by auto
  show ?case using Cons.IH[OF r] by (cases res) (auto simp: addRing_def update_conv' split: if_splits)
qed simp

lemma join_own_rings:
  assumes "join_own env global bs w = Ret (err, bs', w')" "\<not> initalized bs" "SubRings bs = []" "initalized bs'"
  obtains ring fs where "bsConfig bs' = bsConfig bs"
    "\<And>k. map_of (SubRings bs') k = (if k = MyID (bsConfig bs) then Some (Some ring) else None) \<or>
       (k \<in> set (Friends (bsConfig bs)) \<and> map_of (SubRings bs') k = Some None)"
proof -
  obtain res w1 where r: "shJoinRing env global (MyID (bsConfig bs)) (LocalOnly (bsConfig bs)) w = Ret (res, w1)"
    using assms(1) by (auto simp: join_own_def)
  then obtain ring where res: "res = Inr ring" using assms(1,2,4) by (cases res) (auto simp: join_own_def)
  then obtain bs1 where j: "join_friends env global (Friends (bsConfig bs)) (addRing bs (MyID (bsConfig bs)) (Some ring)) w1 = Ret (bs1, w')"
    "bs' = bs1\<lparr>initalized := True\<rparr>" using assms(1) r by (auto simp: join_own_def)
  show ?thesis
    by (rule that[of ring]) (use join_friends_keeps[OF j(1)] j(2) assms(3) in \<open>auto simp: addRing_def\<close>)
qed

lemma bs_init_joins:
  assumes "bs_init env bs w = Ret (err, bs', w')" "\<not> initalized bs" "initalized bs'"
  obtains global w1 where "join_own env global (bs\<lparr>GlobalRing := Some global, bsTracker := Some global\<rparr>) w1 = Ret (err, bs', w')"
proof -
  obtain port conf infohash peerid w1 where q: "bs_announce env bs port conf infohash peerid w1 = Ret (err, bs', w')"
    using assms(1,2) by (auto simp: bs_init_def)
  obtain res w2 where qt: "shQueryTracker env infohash peerid port w1 = (res, w2)" by fastforce
  show ?thesis
  proof (cases res)
    case (Inl e)
    then show ?thesis using q qt assms(2,3) by (auto simp: bs_announce_def)
  next
    case (Inr peers)
    then show ?thesis using q qt that by (auto simp: bs_announce_def)
  qed
qed

text \<open>C39: Only the own ring of a store can be used. Asking an initialised store for the client of any other ring panics: a friend's
  ring is stored exactly if joining it failed, because the test of the error is the wrong way round, and then as a nil
  pointer. The client of the own ring, unless the friends include the store itself, is that of its first vnode.\<close>

theorem only_own_ring_usable:
  assumes "NewBuddyStore env conf w = Ret (Some bs, w')" "initalized bs"
  shows "(ringId \<noteq> MyID conf \<longrightarrow> (\<exists>m. GetKVClient bs ringId = Panic m)) \<and>
    (MyID conf \<notin> set (Friends conf) \<longrightarrow> (\<exists>ring. map_of (SubRings bs) (MyID conf) = Some (Some ring) \<and>
       GetMyKVClient bs = (if vnodes ring = [] then Panic ''index out of range'' else Ret (Some (ring, rvClient (hd (vnodes ring))), OK))))"
proof -
  let ?bs = "\<lparr>bsConfig = conf, GlobalRing = None, SubRings = [], bsTracker = None, initalized = False\<rparr>"
  obtain err where i: "bs_init env ?bs w = Ret (err, bs, w')" using assms(1) by (auto simp: NewBuddyStore_def split: if_splits)
  obtain global w1 where "join_own env global (?bs\<lparr>GlobalRing := Some global, bsTracker := Some global\<rparr>) w1 = Ret (err, bs, w')"
    using bs_init_joins[OF i _ assms(2)] by auto
  from join_own_rings[OF this _ _ assms(2)] obtain ring where c: "bsConfig bs = conf" and
    m: "\<And>k. map_of (SubRings bs) k = (if k = MyID conf then Some (Some ring) else None) \<or>
       (k \<in> set (Friends conf) \<and> map_of (SubRings bs) k = Some None)"
    by auto
  have "\<exists>m. GetKVClient bs ringId = Panic m" if "ringId \<noteq> MyID conf"
    using m[of ringId] that assms(2) by (auto simp: GetKVClient_def deref_def)
  moreover have "GetMyKVClient bs = (if vnodes ring = [] then Panic ''index out of range'' else Ret (Some (ring, rvClient (hd (vnodes ring))), OK))"
    "map_of (SubRings bs) (MyID conf) = Some (Some ring)" if "MyID conf \<notin> set (Friends conf)"
    using m[of "MyID conf"] that assms(2) c
    by (auto simp: GetMyKVClient_def GetKVClient_def GetLocalLocalVnode_def go_index_def hd_conv_nth)
  ultimately show ?thesis by blast
qed

definition demo_host :: "unit store_host" where
  "demo_host =
     \<lparr>shTransport = (\<lambda>b w. Ret ((2000, demo_transport, DefaultConfig (\<lambda>_. replicate 20 0) ''h''), w)), shIfaces = Inr [],
      shSha1 = (\<lambda>_. replicate 20 0), shQueryTracker = (\<lambda>h i p w. (Inr [], w)), shBinaryToDottedPort = id,
      shJoin = (\<lambda>c h w. Ret (Inl lost, w)),
      shJoinRing = (\<lambda>g k b w. Ret (if k = ''me'' then Inr g else Inl lost, w))\<rparr>"

lemma demo_store_starts:
  "\<exists>bs. NewBuddyStore demo_host \<lparr>MyID = ''me'', Friends = [''bob''], LocalOnly = True\<rparr> () = Ret (Some bs, ()) \<and> initalized bs"
proof -
  obtain g where g: "Create (DefaultConfig (\<lambda>_. replicate 20 0) ''h'') = Ret g"
    by (simp add: Create_def Ring_init_def sorted_vnodes_def DefaultConfig_def Let_def)
  have h: "hex20 (\<lambda>_. replicate 20 0) x = Ret (take 20 (hex_encode (replicate 20 0)))" for x
    by (simp add: hex20_def go_prefix_def)
  show ?thesis
    by (simp add: NewBuddyStore_def bs_init_def demo_host_def h bs_announce_def contact_peers.simps g join_own_def addRing_def)
qed

theorem only_own_ring_usable_witness:
  "\<exists>bs m. NewBuddyStore demo_host \<lparr>MyID = ''me'', Friends = [''bob''], LocalOnly = True\<rparr> () = Ret (Some bs, ()) \<and>
     GetKVClient bs ''bob'' = Panic m"
proof -
  obtain bs where bs: "NewBuddyStore demo_host \<lparr>MyID = ''me'', Friends = [''bob''], LocalOnly = True\<rparr> () = Ret (Some bs, ())" "initalized bs"
    using demo_store_starts by blast
  show ?thesis using only_own_ring_usable[OF bs, of "''bob''"] bs(1) by auto
qed

end
