(* ===== verification/Clock.thy ===== *)
theory Clock
  imports Tracker_Theorems
begin

text \<open>
  \<open>clock.go\<close>: the clock the tracker with timeouts reads. \<open>RealClock\<close> is the system's time, an argument here. \<open>MockClock\<close> can be
  frozen and advanced by hand; it runs the function of the last \<open>AfterFunc\<close> itself, inside \<open>Advance\<close>, while it holds its
  own lock for reading. The third-party mock it embeds only records calls and is left out.
\<close>

subsection \<open>The clock\<close>

text \<open>\<open>mcReading\<close> says that \<open>Advance\<close> holds the lock for reading: whoever wants it for writing then waits forever.\<close>

record MockClock =
  mcFrozen :: bool
  mcTime :: int
  mcTimer :: int
  mcTimerSet :: bool
  mcReading :: bool

definition NewClock :: MockClock where
  "NewClock = \<lparr>mcFrozen = False, mcTime = 0, mcTimer = 0, mcTimerSet = False, mcReading = False\<rparr>"

definition Freeze :: "int \<Rightarrow> MockClock \<Rightarrow> MockClock go" where
  "Freeze now m = (if mcReading m then Hang else Ret (m\<lparr>mcFrozen := True, mcTime := now\<rparr>))"

definition NewFrozenClock :: "int \<Rightarrow> MockClock go" where
  "NewFrozenClock now = Freeze now NewClock"

definition clock_Now :: "int \<Rightarrow> MockClock \<Rightarrow> int" where
  "clock_Now now m = (if mcFrozen m then mcTime m else now)"

definition AfterFunc :: "int \<Rightarrow> MockClock \<Rightarrow> MockClock go" where
  "AfterFunc d m = (if mcReading m then Hang else Ret (m\<lparr>mcTimer := mcTime m + d, mcTimerSet := True\<rparr>))"

text \<open>\<open>event\<close> is the function given to the last \<open>AfterFunc\<close>; it may use the clock.\<close>

definition Advance :: "int \<Rightarrow> (MockClock \<times> 's \<Rightarrow> (MockClock \<times> 's) go) \<Rightarrow> MockClock \<times> 's \<Rightarrow> (MockClock \<times> 's) go" where
  "Advance d event = (\<lambda>(m, s).
     if mcReading m then Hang
     else if \<not> mcFrozen m then Panic ''Cannot advance live clock. Call MockClock.Freeze() first.''
     else
       (let m1 = m\<lparr>mcTime := mcTime m + d\<rparr>
        in if mcTimerSet m1 \<and> mcTimer m1 < mcTime m1 then
             go_bind (event (m1\<lparr>mcReading := True\<rparr>, s)) (\<lambda>(m2, s'). Ret (m2\<lparr>mcReading := False\<rparr>, s'))
           else Ret (m1, s)))"

subsection \<open>The tracker on the clock\<close>

text \<open>
  The timer's function on the tracker: \<open>handleTimer\<close>, whose deferred call sets the next timer on the clock when the queue has an
  entry.
\<close>

definition tracker_event :: "MockClock \<times> TrackerImpl \<Rightarrow> (MockClock \<times> TrackerImpl) go" where
  "tracker_event = (\<lambda>(m, tr).
     go_bind (handleTimer (clock_Now 0 m) tr) (\<lambda>tr'.
       case Peek (timeoutQueue tr') of
         None \<Rightarrow> Ret (m, tr')
       | Some item \<Rightarrow> go_bind (AfterFunc (ti_priority item - clock_Now 0 m) m) (\<lambda>m'. Ret (m', tr'))))"

text \<open>A frozen clock moves by what it is advanced, and the event runs exactly if its time has passed.\<close>

lemma Advance_frozen:
  assumes "mcFrozen m" "\<not> mcReading m"
  shows "mcTimerSet m \<longrightarrow> mcTime m + d \<le> mcTimer m \<Longrightarrow> Advance d event (m, s) = Ret (m\<lparr>mcTime := mcTime m + d\<rparr>, s)"
    "mcTimerSet m \<Longrightarrow> mcTimer m < mcTime m + d \<Longrightarrow> Advance d event (m, s) =
       go_bind (event (m\<lparr>mcTime := mcTime m + d, mcReading := True\<rparr>, s)) (\<lambda>(m2, s'). Ret (m2\<lparr>mcReading := False\<rparr>, s'))"
  using assms by (auto simp: Advance_def Let_def)

text \<open>
  An event that sets a timer never comes back: it waits for the lock that \<open>Advance\<close> holds.
\<close>

lemma timer_in_event_hangs:
  assumes "mcFrozen m" "\<not> mcReading m" "mcTimerSet m" "mcTimer m < mcTime m + d"
  shows "Advance d (\<lambda>(m, s). go_bind (AfterFunc e m) (\<lambda>m'. Ret (m', s))) (m, s) = Hang"
  using assms by (simp add: Advance_frozen(2) AfterFunc_def)

text \<open>
  Advancing the clock past the timeout of the queue's last entry never returns: the tracker's purge panics.
\<close>

theorem advance_past_timeout_fails:
  assumes "mcFrozen m" "\<not> mcReading m" "mcTimerSet m" "mcTimer m < mcTime m + d"
    and "timeoutQueue tr \<noteq> []" "ti_priority (last (timeoutQueue tr)) = mcTimer m"
  shows "\<forall>res. Advance d tracker_event (m, tr) \<noteq> Ret res"
proof -
  have "ti_priority (last (timeoutQueue tr)) < mcTime m + d" using assms(4,6) by simp
  from purge_loop_panics[OF this] obtain msg where "handleTimer (mcTime m + d) tr = Panic msg"
    using assms(5) by (auto simp: handleTimer_def purgeHeadofQueueIfStale_def Peek_def) (metis go_bind.simps(2))
  then show ?thesis using assms(1-4) by (simp add: Advance_frozen(2) tracker_event_def clock_Now_def)
qed

end
