(* ===== verification/Spec2Isabelle.thy ===== *)
theory Spec2Isabelle
  imports System Ring_Theorems Delegate Route_Theorems Transport_Pool Buddy_Store Clock
begin

text \<open>
  A verification development of BuddyStore: a Chord ring in Go on which a versioned object store with a
  replicated lock manager, a tracker and a transport are built.

  \<^bold>\<open>The program.\<close> A process runs one ring (\<open>ring.go\<close>, \<open>chord.go\<close>) with several vnodes (\<open>vnode.go\<close>). A vnode has an
  identifier, successor and predecessor lists and a finger table, which periodic tasks repair; a lookup hops
  from vnode to vnode by the closest preceding node it knows (\<open>iter_closest.go\<close>, \<open>util.go\<close>). The vnode that owns the
  hash of the ring's name is the lock manager (\<open>lm_server.go\<close>): it hands out read and write locks with
  versions, logs every operation and sends it to two backups, which rebuild its state from the log when they take
  over. Every vnode stores versioned objects (\<open>obj_server.go\<close>) and replicates them (\<open>obj_server_repl.go\<close>). A client takes a
  write lock, stores the value at the master and commits (\<open>obj_client.go\<close>, \<open>lm_client.go\<close>). The tracker keeps the members of a
  ring as an object (\<open>tracker_server.go\<close>, \<open>tracker_client.go\<close>). Calls between processes go through the local and TCP
  transports (\<open>transport.go\<close>, \<open>net.go\<close>). \<open>buddystore.go\<close> puts the pieces together.

  \<^bold>\<open>Conventions.\<close> The outcome of a Go function is \<open>Ret\<close>, \<open>Panic\<close> or \<open>Hang\<close> (\<open>Go_Prelude\<close>). A pointer is an option, an error a
  \<open>go_error option\<close>, a nil map or channel \<open>None\<close>. Versions and counters are 64-bit words. A Go map that is visited in a
  loop is an association list, whose order stands for the order of the visit; the theorems hold for every order. Code that is reached
  through an interface (transport, ring, random numbers, clock) is a field of a record over a world \<open>'w\<close>. What a
  goroutine sends is a list of messages in the result. Each request is one step; a mutex is modelled where
  the code leaves it locked (\<open>verMapHeld\<close>) or a caller waits for it.

  \<^bold>\<open>Theories\<close>, in the order of the code, with what they show.

  \<^item> \<open>Go_Prelude\<close>, \<open>Errors\<close>: outcomes, slices, byte strings, the locale \<open>invariant_system\<close>; \<open>errors.go\<close>.

  \<^item> \<open>Ring_Arith\<close>, \<open>Vnode_State\<close>, \<open>Closest_Iter\<close>, \<open>Find_Succ\<close>, \<open>Routing\<close>, \<open>Route_Theorems\<close>: intervals, distance, the iterator and \<open>FindSuccessors\<close>.
    The locale \<open>ring_metric\<close> states what a clockwise distance promises and is interpreted on the byte arithmetic. On a stable
    ring an answer names the owner whatever calls fail, and an answer comes within one hop per member that is closer.

  \<^item> \<open>Vnode_Maint\<close>, \<open>Vnode_Lemmas\<close>, \<open>Vnode_Theorems\<close>: the maintenance tasks and \<open>Notify\<close> as steps of a vnode; their invariant,
    the repair of the successor list, the fingers, the predecessor, and who becomes the lock manager.

  \<^item> \<open>Delegate\<close>: the channel to the goroutine that calls the delegate, and the goroutine, as interleaved steps. Calls are made in
    the order they were sent, a panic of one stops none of the others, and \<open>stopDelegate\<close> returns after the last; the ring of
    \<open>Ring_Setup\<close> keeps of it whether the goroutine runs and whether the channel is closed, which is proved to be enough.

  \<^item> \<open>Ring_Setup\<close>, \<open>Ring_Theorems\<close>: \<open>Create\<close>, \<open>Join\<close>, \<open>BlockingJoin\<close>, \<open>Leave\<close>, \<open>Shutdown\<close>. A new ring is stable, so that the routing
    theorems apply to it; a vnode that joins starts at the owner of its identifier; which rings can be left.

  \<^item> \<open>Lock_Manager\<close>, \<open>Lock_Safety\<close>, \<open>Lock_Theorems\<close>: the lock manager refines an abstract lock table (\<open>table_step\<close>, an inductive
    relation); in every reachable state of the service, failovers included, replaying the log gives the committed
    versions and held locks; a backup that receives the log in order has the same.

  \<^item> \<open>KV_Store\<close>, \<open>KV_Theorems\<close>: the store as an implementation of the interface \<open>versioned_store\<close>; stored values never
    change; replication messages and the convergence of a synchronisation round.

  \<^item> \<open>Clients\<close>, \<open>Client_Theorems\<close>, \<open>System\<close>: the clients against the interface \<open>store_service\<close>, which \<open>System\<close> discharges for the
    lock manager and the stores above: a \<open>Set\<close> is read back by \<open>Get\<close>.

  \<^item> \<open>Tracker\<close>, \<open>Tracker_Theorems\<close>, \<open>Clock\<close>: both trackers and the clock for tests; successive joins see the members before them.

  \<^item> \<open>Vnode_RPC\<close>, \<open>Transport_Server\<close>, \<open>Transport\<close>, \<open>Local_Transport\<close>, \<open>Transport_Calls\<close>, \<open>Transport_Pool\<close>: the calls a vnode answers, the server and
    client sides of every request, the pool of connections. The locale \<open>served_call\<close> states the contract between a request and its
    handler once and is interpreted for sixteen requests: a remote call does what the direct call does. Connections are
    never shared; the reaper closes the idle ones and no others.

  \<^item> \<open>Buddy_Store\<close>: address discovery, the choice of a port, the store object.

  Some theorems state where the code falls short of what it means to do, each for the model of the code
  as it is: a mutex left locked, a commit reported although it was lost, invalidations that reach no remote
  reader, a dead predecessor that stays, rings that cannot be left, friends' rings that cannot be used.

  \<^bold>\<open>Bounds and fuel.\<close> A lookup through the network spends one unit of fuel per hop; \<open>card S\<close> hops are proved enough on a
  connected stable ring of members \<open>S\<close>. The jump back in \<open>checkNewSuccessor\<close> and the retry loops of the clients have fuel because
  they may not end; running out is \<open>Hang\<close>, and the theorems that promise a result say which fuel is enough (two rounds, one
  attempt). The port loop has fuel for the attempts. All other loops are total functions.

  \<^bold>\<open>Not modelled.\<close> JSON itself (values come back as they were sent; texts are taken to be valid UTF-8) and sockets below
  dial, send and receive; the random pause between maintenance rounds; interleavings inside one request; the system clock,
  since times are arguments; \<open>printLogs\<close> and the log messages. SHA-1, the public tracker, UPnP and the peer address format are third-party or library
  code and are parameters.
\<close>

subsection \<open>Routing over the transport\<close>

text \<open>
  The routing theorems speak of hops over a network whose calls get through or not; the transport has connections and
  requests. A call of \<open>FindSuccessors\<close> on the TCP transport that meets no fault is such a hop.
\<close>

theorem tcp_find_is_routing_hop:
  assumes "pool_open t" "wDial wire (Host target) = Inr sock" "wFault wire = NoFault"
    and "wServer wire (Host target) = handle_request env reg"
    and "\<And>obj. TCP_get reg target = Some obj \<Longrightarrow> obj < length (prVnodes p)"
  shows "\<exists>res t' p'. TCP_FindSuccessors wire target n k t p = Ret (res, t', p') \<and>
    tcp_FindSuccessors True
      (serve_FindSuccessors (\<lambda>vn. FindSuccessors (reFind env) (reConf env) vn n k)
         (map_option (\<lambda>obj. rvNode (prVnodes p ! obj)) (TCP_get reg target)) target) = Ret res"
proof -
  obtain c t1 where c: "getConn (Inr sock) (wNow wire) (Host target) t = Ret (Inr c, t1)" "pool_open t1"
    using getConn_open[OF assms(1) refl] by metis
  obtain t2 where r: "returnConn (wNow wire) c t1 = Ret t2" using returnConn_open[OF c(2)] by metis
  note call = TCP_FindSuccessors_def networkCall_def answer_or_def handle_FindSuc_def serve_def
    tcp_FindSuccessors_def serve_FindSuccessors_def timed_out_def assms(2-4) c(1) r
  show ?thesis
  proof (cases "TCP_get reg target")
    case None
    then show ?thesis by (simp add: call wire_error_def split: option.splits go_error.splits)
  next
    case (Some obj)
    then have i: "go_index (prVnodes p) (int obj) = Ret (prVnodes p ! obj)" using assms(5) by simp
    show ?thesis
    proof (cases "FindSuccessors (reFind env) (reConf env) (rvNode (prVnodes p ! obj)) n k")
      case (Ret res)
      then show ?thesis using Some
        by (cases "trimSlice (fst res)"; cases "wire_error (snd res)"; cases res) (simp_all add: call i invoke_def vn_FindSuccessors_def Let_def)
    qed (use Some in \<open>simp_all add: call i invoke_def vn_FindSuccessors_def Let_def\<close>)
  qed
qed

end
